theory Spec2Isabelle
  imports Complex_Main "HOL-Library.AList"
begin

section \<open>JavaScript values\<close>

text \<open>
  The scene description is a parsed JSON document, so every field the parser reads is a
  JavaScript value. A number is a double: the model keeps the three special values
  (\<open>NaN\<close>, \<open>-Infinity\<close>, \<open>Infinity\<close>) and idealises the finite doubles as reals, so
  rounding, overflow to an infinity and the sign of zero are not represented. Every
  comparison, \<open>Math.abs\<close>, \<open>Math.max\<close>, \<open>Math.min\<close> and negation of the source is exact
  on doubles, and is the same function on the model.
\<close>

datatype jsnum = NaN | NInf | Fin real | PInf

text \<open>The relational operators \<open><\<close>, \<open><=\<close>, \<open>>\<close>, \<open>>=\<close>: false as soon as one side is NaN.\<close>

fun jlt :: "jsnum \<Rightarrow> jsnum \<Rightarrow> bool" where
  "jlt NaN _ = False"
| "jlt _ NaN = False"
| "jlt _ NInf = False"
| "jlt NInf _ = True"
| "jlt PInf _ = False"
| "jlt (Fin x) (Fin y) = (x < y)"
| "jlt (Fin x) PInf = True"

fun jle :: "jsnum \<Rightarrow> jsnum \<Rightarrow> bool" where
  "jle NaN _ = False"
| "jle _ NaN = False"
| "jle NInf _ = True"
| "jle _ NInf = False"
| "jle _ PInf = True"
| "jle PInf _ = False"
| "jle (Fin x) (Fin y) = (x \<le> y)"

definition jgt :: "jsnum \<Rightarrow> jsnum \<Rightarrow> bool" where
  "jgt a b = jlt b a"

definition jge :: "jsnum \<Rightarrow> jsnum \<Rightarrow> bool" where
  "jge a b = jle b a"

text \<open>\<open>a === b\<close> on two numbers: NaN is equal to nothing.\<close>

definition strictEqNum :: "jsnum \<Rightarrow> jsnum \<Rightarrow> bool" where
  "strictEqNum a b = (a \<noteq> NaN \<and> a = b)"

definition isNaN :: "jsnum \<Rightarrow> bool" where
  "isNaN a = (a = NaN)"

fun jneg :: "jsnum \<Rightarrow> jsnum" where
  "jneg NaN = NaN"
| "jneg NInf = PInf"
| "jneg PInf = NInf"
| "jneg (Fin x) = Fin (- x)"

fun Math_abs :: "jsnum \<Rightarrow> jsnum" where
  "Math_abs NaN = NaN"
| "Math_abs NInf = PInf"
| "Math_abs PInf = PInf"
| "Math_abs (Fin x) = Fin \<bar>x\<bar>"

text \<open>\<open>Math.max\<close> and \<open>Math.min\<close> of two arguments: NaN when either is NaN.\<close>

definition Math_max :: "jsnum \<Rightarrow> jsnum \<Rightarrow> jsnum" where
  "Math_max a b = (if a = NaN \<or> b = NaN then NaN else if jle a b then b else a)"

definition Math_min :: "jsnum \<Rightarrow> jsnum \<Rightarrow> jsnum" where
  "Math_min a b = (if a = NaN \<or> b = NaN then NaN else if jle a b then a else b)"

fun jadd :: "jsnum \<Rightarrow> jsnum \<Rightarrow> jsnum" where
  "jadd NaN _ = NaN"
| "jadd _ NaN = NaN"
| "jadd PInf NInf = NaN"
| "jadd NInf PInf = NaN"
| "jadd PInf _ = PInf"
| "jadd _ PInf = PInf"
| "jadd NInf _ = NInf"
| "jadd _ NInf = NInf"
| "jadd (Fin x) (Fin y) = Fin (x + y)"

definition jsub :: "jsnum \<Rightarrow> jsnum \<Rightarrow> jsnum" where
  "jsub a b = jadd a (jneg b)"

text \<open>The sign of a number that is not NaN, for products and quotients with an infinity.\<close>

fun jsign :: "jsnum \<Rightarrow> int" where
  "jsign NaN = 0"
| "jsign NInf = - 1"
| "jsign PInf = 1"
| "jsign (Fin x) = (if x < 0 then - 1 else if x = 0 then 0 else 1)"

definition infOfSign :: "int \<Rightarrow> jsnum" where
  "infOfSign s = (if s < 0 then NInf else if s = 0 then NaN else PInf)"

fun jmul :: "jsnum \<Rightarrow> jsnum \<Rightarrow> jsnum" where
  "jmul NaN _ = NaN"
| "jmul _ NaN = NaN"
| "jmul (Fin x) (Fin y) = Fin (x * y)"
| "jmul a b = infOfSign (jsign a * jsign b)"

text \<open>
  Division: a finite non-zero number over zero is an infinity, zero over zero and an
  infinity over an infinity are NaN, a finite number over an infinity is zero. The zero
  divisor is taken as positive zero.
\<close>

fun jdiv :: "jsnum \<Rightarrow> jsnum \<Rightarrow> jsnum" where
  "jdiv NaN _ = NaN"
| "jdiv _ NaN = NaN"
| "jdiv (Fin x) (Fin y) = (if y = 0 then infOfSign (jsign (Fin x)) else Fin (x / y))"
| "jdiv (Fin x) _ = Fin 0"
| "jdiv a (Fin y) = infOfSign (jsign a * (if y < 0 then - 1 else 1))"
| "jdiv _ _ = NaN"

text \<open>Truthiness of a number: every number but zero and NaN.\<close>

definition truthyNum :: "jsnum \<Rightarrow> bool" where
  "truthyNum a = (a \<noteq> NaN \<and> a \<noteq> Fin 0)"

text \<open>\<open>a || b\<close> on two numbers.\<close>

definition orElse :: "jsnum \<Rightarrow> jsnum \<Rightarrow> jsnum" where
  "orElse a b = (if truthyNum a then a else b)"

text \<open>
  A value of the document. \<open>JUndefined\<close> is what reading a missing field gives; \<open>JObj\<close>
  is a plain object. Arrays are not represented as scalar fields.
\<close>

datatype jsval = JUndefined | JNull | JBool bool | JNum jsnum | JStr string | JObj

subsection \<open>Members inherited from \<open>Object.prototype\<close>\<close>

text \<open>
  The registry of materials, the texture store and the graph description are plain
  objects. A lookup \<open>obj[key]\<close> that finds no own property under \<open>key\<close> goes on to
  \<open>Object.prototype\<close> and finds its members under their names: eleven functions, and
  under \<open>__proto__\<close> the prototype object itself. All of them are truthy, and none has
  any of the fields the parser reads of a material, a texture or a node.
\<close>

definition objectPrototypeKeys :: "string list" where
  "objectPrototypeKeys =
     [''constructor'', ''__defineGetter__'', ''__defineSetter__'', ''hasOwnProperty'',
      ''__lookupGetter__'', ''__lookupSetter__'', ''isPrototypeOf'', ''propertyIsEnumerable'',
      ''toString'', ''valueOf'', ''__proto__'', ''toLocaleString'']"

definition inherited :: "string \<Rightarrow> bool" where
  "inherited k = (k \<in> set objectPrototypeKeys)"

subsection \<open>parseFloat\<close>

text \<open>
  \<open>parseFloat\<close> converts its argument to a string, skips leading white space and reads
  the longest prefix that is a decimal literal: an optional sign, then \<open>Infinity\<close> or
  digits with an optional fraction and an optional exponent. No such prefix gives NaN.
  On a number the conversion to a string and back is the identity.
\<close>

definition isDigit :: "char \<Rightarrow> bool" where
  "isDigit c = (48 \<le> (of_char c :: nat) \<and> (of_char c :: nat) \<le> 57)"

definition isWhiteSpace :: "char \<Rightarrow> bool" where
  "isWhiteSpace c = ((of_char c :: nat) \<in> {9, 10, 11, 12, 13, 32})"

fun digitsValue :: "nat \<Rightarrow> string \<Rightarrow> nat" where
  "digitsValue acc [] = acc"
| "digitsValue acc (c # cs) = digitsValue (10 * acc + ((of_char c :: nat) - 48)) cs"

definition pow10 :: "int \<Rightarrow> real" where
  "pow10 e = (if 0 \<le> e then 10 ^ nat e else 1 / 10 ^ nat (- e))"

definition splitSign :: "string \<Rightarrow> bool \<times> string" where
  "splitSign s =
     (case s of
        [] \<Rightarrow> (False, s)
      | c # r \<Rightarrow> if c = CHR ''-'' then (True, r) else if c = CHR ''+'' then (False, r) else (False, s))"

definition exponentPart :: "string \<Rightarrow> int" where
  "exponentPart s =
     (case s of
        [] \<Rightarrow> 0
      | c # r \<Rightarrow>
          if c = CHR ''e'' \<or> c = CHR ''E'' then
            (let ds = takeWhile isDigit (snd (splitSign r)) in
             if ds = [] then 0
             else if fst (splitSign r) then - int (digitsValue 0 ds) else int (digitsValue 0 ds))
          else 0)"

definition fractionPart :: "string \<Rightarrow> string \<times> string" where
  "fractionPart s =
     (case s of
        [] \<Rightarrow> ([], s)
      | c # r \<Rightarrow> if c = CHR ''.'' then (takeWhile isDigit r, dropWhile isDigit r) else ([], s))"

definition parseFloatString :: "string \<Rightarrow> jsnum" where
  "parseFloatString s =
     (let t = splitSign (dropWhile isWhiteSpace s);
          u = snd t
      in if take 8 u = ''Infinity'' then (if fst t then NInf else PInf)
         else
           (let ip = takeWhile isDigit u;
                fr = fractionPart (dropWhile isDigit u);
                fp = fst fr;
                ex = exponentPart (snd fr)
            in if ip = [] \<and> fp = [] then NaN
               else Fin ((if fst t then - 1 else 1)
                         * (real (digitsValue 0 (ip @ fp)) * pow10 (ex - int (length fp))))))"

fun parseFloat :: "jsval \<Rightarrow> jsnum" where
  "parseFloat (JNum n) = n"
| "parseFloat (JStr s) = parseFloatString s"
| "parseFloat _ = NaN"

section \<open>MyValidationUtils\<close>

text \<open>
  Each method takes its default as an explicit argument; a caller that leaves the
  argument out passes the default written in the method's signature.
\<close>

definition toValidFloat :: "jsval \<Rightarrow> jsnum \<Rightarrow> jsnum" where
  "toValidFloat v defaultValue =
     (let num = parseFloat v in if isNaN num then defaultValue else num)"

definition validateAngle :: "jsval \<Rightarrow> jsnum \<Rightarrow> jsnum \<Rightarrow> jsnum \<Rightarrow> jsnum" where
  "validateAngle v minimumAngle maximumAngle defaultValue =
     (let angle = toValidFloat v defaultValue in
      if jle angle minimumAngle \<or> jge angle maximumAngle then defaultValue else angle)"

definition validateLeftRight :: "jsnum \<Rightarrow> jsnum \<Rightarrow> jsnum \<Rightarrow> jsnum \<Rightarrow> jsnum \<times> jsnum" where
  "validateLeftRight left right defaultLeft defaultRight =
     (if strictEqNum left (Fin 0) \<or> strictEqNum right (Fin 0) then (defaultLeft, defaultRight)
      else if (jlt left (Fin 0) \<and> jle right (Fin 0)) \<or> (jgt left (Fin 0) \<and> jge right (Fin 0))
           then (jneg (Math_abs left), Math_abs right)
      else (left, right))"

definition validateBottomTop :: "jsnum \<Rightarrow> jsnum \<Rightarrow> jsnum \<Rightarrow> jsnum \<Rightarrow> jsnum \<times> jsnum" where
  "validateBottomTop bottomV topV defaultBottom defaultTop =
     (if strictEqNum bottomV (Fin 0) \<or> strictEqNum topV (Fin 0) then (defaultBottom, defaultTop)
      else if (jlt bottomV (Fin 0) \<and> jle topV (Fin 0)) \<or> (jgt bottomV (Fin 0) \<and> jge topV (Fin 0))
           then (jneg (Math_abs bottomV), Math_abs topV)
      else (bottomV, topV))"

definition validateDistance :: "jsval \<Rightarrow> jsnum \<Rightarrow> jsnum" where
  "validateDistance v defaultValue =
     (let distance = toValidFloat v defaultValue in
      if jlt distance (Fin 0) then defaultValue else distance)"

definition validateIntensity :: "jsval \<Rightarrow> jsnum \<Rightarrow> jsnum" where
  "validateIntensity v defaultValue =
     (let intensity = toValidFloat v defaultValue in
      if jlt intensity (Fin 0) then defaultValue else intensity)"

definition validateDecay :: "jsval \<Rightarrow> jsnum \<Rightarrow> jsnum" where
  "validateDecay v defaultValue =
     (let decay = toValidFloat v defaultValue in
      if jlt decay (Fin 0) \<or> jgt decay (Fin 2) then defaultValue else decay)"

definition validatePenumbra :: "jsval \<Rightarrow> jsnum \<Rightarrow> jsnum" where
  "validatePenumbra v defaultValue =
     (let penumbra = toValidFloat v defaultValue in
      if jlt penumbra (Fin 0) \<or> jgt penumbra (Fin 1) then defaultValue else penumbra)"

text \<open>\<open>value.toLowerCase()\<close>, on the letters A to Z (a lower-case letter is the upper-case one plus 32).\<close>

definition toLowerChar :: "char \<Rightarrow> char" where
  "toLowerChar c =
     (if 65 \<le> (of_char c :: nat) \<and> (of_char c :: nat) \<le> 90
      then (case c of Char b0 b1 b2 b3 b4 b5 b6 b7 \<Rightarrow> Char b0 b1 b2 b3 b4 True b6 b7)
      else c)"

definition toLowerCase :: "string \<Rightarrow> string" where
  "toLowerCase s = map toLowerChar s"

fun parseBoolean :: "jsval \<Rightarrow> bool \<Rightarrow> bool" where
  "parseBoolean (JBool b) defaultValue = b"
| "parseBoolean (JStr s) defaultValue = (toLowerCase s \<in> set [''true'', ''1''])"
| "parseBoolean (JNum n) defaultValue = (\<not> strictEqNum n (Fin 0))"
| "parseBoolean _ defaultValue = defaultValue"

definition toValidOpacity :: "jsval \<Rightarrow> jsnum \<Rightarrow> jsnum" where
  "toValidOpacity v defaultValue =
     (let num = parseFloat v in
      if isNaN num then defaultValue else Math_max (Fin 0) (Math_min num (Fin 1)))"

definition validateShadowProperty :: "jsval \<Rightarrow> jsnum \<Rightarrow> jsnum" where
  "validateShadowProperty v defaultValue = toValidFloat v defaultValue"

definition validateShadowMapSize :: "jsval \<Rightarrow> jsnum \<Rightarrow> jsnum" where
  "validateShadowMapSize v defaultValue =
     (case v of
        JNum (Fin x) \<Rightarrow> if x \<noteq> of_int \<lfloor>x\<rfloor> \<or> x \<le> 0 then defaultValue else Fin x
      | _ \<Rightarrow> defaultValue)"

text \<open>\<open>v ?? d\<close>: the default for \<open>null\<close> and \<open>undefined\<close> only.\<close>

definition nullish :: "jsval \<Rightarrow> jsval \<Rightarrow> jsval" where
  "nullish v d = (if v = JUndefined \<or> v = JNull then d else v)"

text \<open>An object with the fields \<open>r\<close>, \<open>g\<close>, \<open>b\<close> as the document gives them, and a \<open>THREE.Color\<close>.\<close>

record rgb =
  rgb_r :: jsval
  rgb_g :: jsval
  rgb_b :: jsval

record color =
  col_r :: jsnum
  col_g :: jsnum
  col_b :: jsnum

definition colorChannel :: "jsval \<Rightarrow> jsnum" where
  "colorChannel v =
     Math_max (Fin 0) (Math_min (Fin 1) (jdiv (parseFloat (nullish v (JNum (Fin 0)))) (Fin 255)))"

text \<open>\<open>parseColor(color)\<close>; \<open>None\<close> is a \<open>null\<close> or \<open>undefined\<close> argument (\<open>color?.r\<close> is then undefined).\<close>

definition parseColor :: "rgb option \<Rightarrow> color" where
  "parseColor c =
     (case c of
        None \<Rightarrow> \<lparr>col_r = colorChannel JUndefined, col_g = colorChannel JUndefined,
                  col_b = colorChannel JUndefined\<rparr>
      | Some k \<Rightarrow> \<lparr>col_r = colorChannel (rgb_r k), col_g = colorChannel (rgb_g k),
                    col_b = colorChannel (rgb_b k)\<rparr>)"

definition white :: rgb where
  "white = \<lparr>rgb_r = JNum (Fin 255), rgb_g = JNum (Fin 255), rgb_b = JNum (Fin 255)\<rparr>"

definition black :: rgb where
  "black = \<lparr>rgb_r = JNum (Fin 0), rgb_g = JNum (Fin 0), rgb_b = JNum (Fin 0)\<rparr>"

text \<open>\<open>THREE.MathUtils.degToRad\<close>.\<close>

definition degToRad :: "jsnum \<Rightarrow> jsnum" where
  "degToRad d = jmul d (Fin (pi / 180))"

section \<open>createLight\<close>

text \<open>
  An object with the fields \<open>x\<close>, \<open>y\<close>, \<open>z\<close> of the document, and a \<open>THREE.Vector3\<close>.
\<close>

record xyz =
  xyz_x :: jsval
  xyz_y :: jsval
  xyz_z :: jsval

record vec3 =
  v_x :: jsnum
  v_y :: jsnum
  v_z :: jsnum

text \<open>
  \<open>toValidFloat(o?.x, d)\<close> and its siblings: an absent object reads as \<open>undefined\<close> in
  each field.
\<close>

definition optX :: "xyz option \<Rightarrow> jsval" where
  "optX p = (case p of None \<Rightarrow> JUndefined | Some q \<Rightarrow> xyz_x q)"

definition optY :: "xyz option \<Rightarrow> jsval" where
  "optY p = (case p of None \<Rightarrow> JUndefined | Some q \<Rightarrow> xyz_y q)"

definition optZ :: "xyz option \<Rightarrow> jsval" where
  "optZ p = (case p of None \<Rightarrow> JUndefined | Some q \<Rightarrow> xyz_z q)"

record lightData =
  ld_type :: string
  ld_color :: "rgb option"
  ld_intensity :: jsval
  ld_distance :: jsval
  ld_decay :: jsval
  ld_angle :: jsval
  ld_penumbra :: jsval
  ld_shadowleft :: jsval
  ld_shadowright :: jsval
  ld_shadowbottom :: jsval
  ld_shadowtop :: jsval
  ld_enabled :: jsval
  ld_castshadow :: jsval
  ld_shadowmapsize :: jsval
  ld_position :: "xyz option"
  ld_target :: "xyz option"

record shadowCamera =
  cam_left :: jsnum
  cam_right :: jsnum
  cam_bottom :: jsnum
  cam_top :: jsnum

text \<open>The three light classes with the constructor arguments and fields \<open>createLight\<close> sets.\<close>

datatype lightClass =
    PointLight jsnum jsnum
  | SpotLight jsnum jsnum jsnum jsnum
  | DirectionalLight shadowCamera

record light =
  li_class :: lightClass
  li_color :: color
  li_intensity :: jsnum
  li_visible :: bool
  li_castShadow :: bool
  li_mapSize :: "jsnum \<times> jsnum"
  li_position :: vec3
  li_target :: "vec3 option"
  li_name :: string

text \<open>The group \<open>createLight\<close> returns: the light, and its target as a second child.\<close>

record lightGroup =
  lg_visible :: bool
  lg_light :: light
  lg_hasTargetChild :: bool

datatype warning =
    CorrectingShadowLeft jsnum
  | CorrectingShadowRight jsnum
  | CorrectingShadowBottom jsnum
  | CorrectingShadowTop jsnum
  | UnsupportedLightType string

text \<open>
  The \<open>directionallight\<close> case: the four bounds after the sign corrections, and the
  warnings written to the console, in order.
\<close>

definition directionalShadow :: "lightData \<Rightarrow> shadowCamera \<times> warning list" where
  "directionalShadow d =
     (let shadowLeft = validateShadowProperty (ld_shadowleft d) (Fin (- 5));
          shadowRight = validateShadowProperty (ld_shadowright d) (Fin 5);
          shadowBottom = validateShadowProperty (ld_shadowbottom d) (Fin (- 5));
          shadowTop = validateShadowProperty (ld_shadowtop d) (Fin 5)
      in (\<lparr>cam_left = (if jgt shadowLeft (Fin 0) then jneg (Math_abs shadowLeft) else shadowLeft),
           cam_right = (if jlt shadowRight (Fin 0) then Math_abs shadowRight else shadowRight),
           cam_bottom = (if jgt shadowBottom (Fin 0) then jneg (Math_abs shadowBottom)
                         else shadowBottom),
           cam_top = (if jlt shadowTop (Fin 0) then Math_abs shadowTop else shadowTop)\<rparr>,
          (if jgt shadowLeft (Fin 0) then [CorrectingShadowLeft shadowLeft] else [])
          @ (if jlt shadowRight (Fin 0) then [CorrectingShadowRight shadowRight] else [])
          @ (if jgt shadowBottom (Fin 0) then [CorrectingShadowBottom shadowBottom] else [])
          @ (if jlt shadowTop (Fin 0) then [CorrectingShadowTop shadowTop] else [])))"

text \<open>The switch on \<open>lightData.type\<close>: the light class, or no light for an unknown type.\<close>

definition lightOfType :: "lightData \<Rightarrow> lightClass option \<times> warning list" where
  "lightOfType d =
     (if ld_type d = ''pointlight'' then
        (Some (PointLight (validateDistance (ld_distance d) (Fin 1000))
                          (validateDecay (ld_decay d) (Fin 2))), [])
      else if ld_type d = ''spotlight'' then
        (Some (SpotLight (validateDistance (ld_distance d) (Fin 1000))
                         (degToRad (validateAngle (ld_angle d) (Fin 0) (Fin 180) (Fin 45)))
                         (validatePenumbra (ld_penumbra d) (Fin (1 / 5)))
                         (validateDecay (ld_decay d) (Fin 2))), [])
      else if ld_type d = ''directionallight'' then
        (Some (DirectionalLight (fst (directionalShadow d))), snd (directionalShadow d))
      else (None, [UnsupportedLightType (ld_type d)]))"

fun hasTarget :: "lightClass \<Rightarrow> bool" where
  "hasTarget (PointLight _ _) = False"
| "hasTarget _ = True"

definition createLight :: "lightData \<Rightarrow> string \<Rightarrow> lightGroup option \<times> warning list" where
  "createLight d lightId =
     (case lightOfType d of
        (None, ws) \<Rightarrow> (None, ws)
      | (Some cls, ws) \<Rightarrow>
          (let visible = parseBoolean (ld_enabled d) True;
               shadowMapSize = validateShadowMapSize (ld_shadowmapsize d) (Fin 512);
               lt = \<lparr>li_class = cls,
                     li_color = parseColor (case ld_color d of None \<Rightarrow> Some white | Some c \<Rightarrow> Some c),
                     li_intensity = validateIntensity (ld_intensity d) (Fin 1),
                     li_visible = visible,
                     li_castShadow = parseBoolean (ld_castshadow d) False,
                     li_mapSize = (shadowMapSize, shadowMapSize),
                     li_position = \<lparr>v_x = toValidFloat (optX (ld_position d)) (Fin 0),
                                     v_y = toValidFloat (optY (ld_position d)) (Fin 0),
                                     v_z = toValidFloat (optZ (ld_position d)) (Fin 0)\<rparr>,
                     li_target =
                       (if hasTarget cls
                        then Some \<lparr>v_x = toValidFloat (optX (ld_target d)) (Fin 0),
                                   v_y = toValidFloat (optY (ld_target d)) (Fin 0),
                                   v_z = toValidFloat (optZ (ld_target d)) (Fin 0)\<rparr>
                        else None),
                     li_name = lightId\<rparr>
           in (Some \<lparr>lg_visible = visible, lg_light = lt, lg_hasTargetChild = hasTarget cls\<rparr>,
               ws)))"

text \<open>A directional light whose left and right shadow bounds have the wrong sign.\<close>

definition sunLight :: lightData where
  "sunLight =
     \<lparr>ld_type = ''directionallight'', ld_color = None, ld_intensity = JNum (Fin 1),
      ld_distance = JUndefined, ld_decay = JUndefined, ld_angle = JUndefined,
      ld_penumbra = JUndefined, ld_shadowleft = JNum (Fin 3), ld_shadowright = JNum (Fin (- 4)),
      ld_shadowbottom = JUndefined, ld_shadowtop = JNum (Fin 6), ld_enabled = JUndefined,
      ld_castshadow = JBool True, ld_shadowmapsize = JNum (Fin 1024), ld_position = None,
      ld_target = None\<rparr>"

section \<open>MyMaterials and the materials phase of MyContents\<close>

text \<open>
  A loaded texture, with the fields the parser writes: the wrapping mode, the tiling
  factor \<open>repeat\<close> and \<open>needsUpdate\<close>. Textures are shared objects: the loaded textures
  live in a store under their ids (\<open>this.textures\<close>), a material refers to its maps by
  id, and a write to a texture is a write to the store.
\<close>

record texture =
  tex_repeat :: "jsnum \<times> jsnum"
  tex_wrapRepeat :: bool
  tex_needsUpdate :: bool

type_synonym textures = "string \<rightharpoonup> texture"

text \<open>
  A \<open>THREE.Material\<close> with the two fields the parser attaches, \<open>texlength_s\<close> and
  \<open>texlength_t\<close> (\<open>None\<close> on a material that never received them: the property reads as
  \<open>undefined\<close>). \<open>mat_uuid\<close> is the identifier THREE gives every material object.
  \<open>mat_isMaterial\<close> is the flag \<open>isMaterial\<close> of \<open>THREE.Material\<close>: it tells a material, which
  has the methods of the class, from another object that stands where a material is
  expected.
\<close>

record material =
  mat_uuid :: string
  mat_color :: color
  mat_specular :: color
  mat_emissive :: color
  mat_shininess :: jsnum
  mat_transparent :: bool
  mat_opacity :: jsnum
  mat_wireframe :: bool
  mat_doubleSide :: bool
  mat_map :: "string option"
  mat_bumpMap :: "string option"
  mat_bumpScale :: jsnum
  mat_specularMap :: "string option"
  mat_flatShading :: bool
  mat_vertexColors :: bool
  mat_texlength_s :: "jsnum option"
  mat_texlength_t :: "jsnum option"
  mat_isMaterial :: bool

record materialData =
  md_color :: "rgb option"
  md_specular :: "rgb option"
  md_emissive :: "rgb option"
  md_shininess :: jsval
  md_transparent :: jsval
  md_opacity :: jsval
  md_wireframe :: jsval
  md_shading :: jsval
  md_twosided :: jsval
  md_textureref :: "string option"
  md_texlength_s :: jsval
  md_texlength_t :: jsval
  md_bumpref :: "string option"
  md_bumpscale :: jsval
  md_specularref :: "string option"

text \<open>The fields of a \<open>MyMaterials\<close> object, the three texture promises already settled.\<close>

record myMaterial =
  mm_materialId :: string
  mm_color :: color
  mm_specular :: color
  mm_emissive :: color
  mm_shininess :: jsnum
  mm_transparent :: bool
  mm_opacity :: jsnum
  mm_wireframe :: bool
  mm_shading :: bool
  mm_twosided :: bool
  mm_textureref :: "string option"
  mm_texlength_s :: jsnum
  mm_texlength_t :: jsnum
  mm_bumpref :: "string option"
  mm_bumpscale :: jsnum
  mm_specularref :: "string option"

text \<open>
  \<open>getTexture(textures, ref)\<close>, the value its promise is fulfilled with: \<open>null\<close> when
  \<open>!ref || !textures[ref]\<close>, else \<open>textures[ref]\<close>, here the reference itself. A reference
  that names an inherited member and no loaded texture is kept: the lookup finds the
  member, which is truthy and is not a texture.
\<close>

definition getTexture :: "textures \<Rightarrow> string option \<Rightarrow> string option" where
  "getTexture textures ref =
     (case ref of
        None \<Rightarrow> None
      | Some r \<Rightarrow> if r = [] \<or> (textures r = None \<and> \<not> inherited r) then None else Some r)"

text \<open>
  The calls of \<open>getTexture\<close> the constructor makes, in order: for \<open>textureref\<close>, \<open>bumpref\<close>
  and \<open>specularref\<close>. Each starts the resolution of a reference and yields a promise.
\<close>

datatype materialEvent =
    TextureLookup string "string option" "string option"
  | Created myMaterial
  | Skipped string

definition textureLookups :: "string \<Rightarrow> materialData \<Rightarrow> textures \<Rightarrow> materialEvent list" where
  "textureLookups materialId md textures =
     [TextureLookup materialId (md_textureref md) (getTexture textures (md_textureref md)),
      TextureLookup materialId (md_bumpref md) (getTexture textures (md_bumpref md)),
      TextureLookup materialId (md_specularref md) (getTexture textures (md_specularref md))]"

text \<open>\<open>x || d\<close> for a colour object: the default when the field is absent.\<close>

definition orDefault :: "rgb option \<Rightarrow> rgb \<Rightarrow> rgb option" where
  "orDefault c d = (case c of None \<Rightarrow> Some d | Some k \<Rightarrow> Some k)"

definition MyMaterials :: "string \<Rightarrow> materialData \<Rightarrow> textures \<Rightarrow> myMaterial" where
  "MyMaterials materialId md textures =
     \<lparr>mm_materialId = materialId,
      mm_color = parseColor (orDefault (md_color md) white),
      mm_specular = parseColor (orDefault (md_specular md) white),
      mm_emissive = parseColor (orDefault (md_emissive md) black),
      mm_shininess = toValidFloat (md_shininess md) (Fin 30),
      mm_transparent = parseBoolean (md_transparent md) False,
      mm_opacity = toValidOpacity (md_opacity md) (Fin 1),
      mm_wireframe = parseBoolean (md_wireframe md) False,
      mm_shading = parseBoolean (md_shading md) False,
      mm_twosided = parseBoolean (md_twosided md) False,
      mm_textureref = getTexture textures (md_textureref md),
      mm_texlength_s = toValidFloat (md_texlength_s md) (Fin 1),
      mm_texlength_t = toValidFloat (md_texlength_t md) (Fin 1),
      mm_bumpref = getTexture textures (md_bumpref md),
      mm_bumpscale = toValidFloat (md_bumpscale md) (Fin 1),
      mm_specularref = getTexture textures (md_specularref md)\<rparr>"

text \<open>
  \<open>isValid()\<close>: \<open>this.color && this.specular && this.shininess >= 0\<close>. The two colours are
  \<open>THREE.Color\<close> objects, which are truthy, so the result is the comparison.
\<close>

definition isValid :: "myMaterial \<Rightarrow> bool" where
  "isValid m = jge (mm_shininess m) (Fin 0)"

text \<open>
  \<open>createThreeMaterialAsync()\<close>: the material, and the texture store after the write to
  the colour map. \<open>uuid\<close> is the identifier THREE gives the new material. When the colour
  map is an inherited member and not a texture, \<open>material.map.repeat\<close> is undefined and the
  call of \<open>set\<close> throws: the promise is rejected (\<open>rejected\<close>) and yields no material.
\<close>

definition rejected :: "myMaterial \<Rightarrow> textures \<Rightarrow> bool" where
  "rejected m textures =
     (case mm_textureref m of None \<Rightarrow> False | Some r \<Rightarrow> textures r = None)"

definition createThreeMaterialAsync ::
  "myMaterial \<Rightarrow> string \<Rightarrow> textures \<Rightarrow> material \<times> textures" where
  "createThreeMaterialAsync m uuid textures =
     (\<lparr>mat_uuid = uuid,
       mat_color = mm_color m,
       mat_specular = mm_specular m,
       mat_emissive = mm_emissive m,
       mat_shininess = mm_shininess m,
       mat_transparent = mm_transparent m,
       mat_opacity = mm_opacity m,
       mat_wireframe = mm_wireframe m,
       mat_doubleSide = mm_twosided m,
       mat_map = mm_textureref m,
       mat_bumpMap = mm_bumpref m,
       mat_bumpScale = mm_bumpscale m,
       mat_specularMap = mm_specularref m,
       mat_flatShading = mm_shading m,
       mat_vertexColors = False,
       mat_texlength_s = Some (mm_texlength_s m),
       mat_texlength_t = Some (mm_texlength_t m),
       mat_isMaterial = True\<rparr>,
      (case mm_textureref m of
         None \<Rightarrow> textures
       | Some r \<Rightarrow>
           (case textures r of
              None \<Rightarrow> textures
            | Some t \<Rightarrow> textures(r \<mapsto> t\<lparr>tex_wrapRepeat := True, tex_repeat := (Fin 1, Fin 1)\<rparr>))))"

text \<open>
  The registry \<open>this.materials\<close> is an object: an association list of its own
  properties, in which an assignment to a new key appends. \<open>registryLookup\<close> is the
  lookup \<open>this.materials[id]\<close>: an own property, else an inherited member, else
  \<open>undefined\<close>. An inherited member is represented by \<open>inheritedMember\<close>: its \<open>uuid\<close> reads
  \<open>undefined\<close>, which a template string prints as such, it has no map and no texture
  lengths, and it is not a material.
\<close>

type_synonym registry = "(string \<times> material) list"

definition inheritedMember :: material where
  "inheritedMember =
     \<lparr>mat_uuid = ''undefined'',
      mat_color = parseColor None, mat_specular = parseColor None,
      mat_emissive = parseColor None, mat_shininess = NaN, mat_transparent = False,
      mat_opacity = NaN, mat_wireframe = False, mat_doubleSide = False, mat_map = None,
      mat_bumpMap = None, mat_bumpScale = NaN, mat_specularMap = None,
      mat_flatShading = False, mat_vertexColors = False, mat_texlength_s = None,
      mat_texlength_t = None, mat_isMaterial = False\<rparr>"

definition registryLookup :: "registry \<Rightarrow> string \<Rightarrow> material option" where
  "registryLookup materials k =
     (case map_of materials k of
        Some m \<Rightarrow> Some m
      | None \<Rightarrow> if inherited k then Some inheritedMember else None)"

text \<open>
  The loop of \<open>materialsRendering\<close> runs to its end before any of the promises it
  creates is fulfilled, so its test \<open>this.materials[materialId]\<close> reads the registry as
  it was on entry. The result is what the loop does, in order: for an entry it does not
  pass over, the three texture lookups of the constructor, then either the call of
  \<open>createThreeMaterialAsync\<close> on the new object or the warning that the entry is skipped.
\<close>

fun materialsLoop ::
  "registry \<Rightarrow> textures \<Rightarrow> (string \<times> materialData) list \<Rightarrow> materialEvent list" where
  "materialsLoop materials textures [] = []"
| "materialsLoop materials textures ((materialId, md) # rest) =
     (if materialId = [] \<or> registryLookup materials materialId \<noteq> None then []
      else textureLookups materialId md textures
           @ (if isValid (MyMaterials materialId md textures)
              then [Created (MyMaterials materialId md textures)]
              else [Skipped materialId]))
     @ materialsLoop materials textures rest"

text \<open>The objects \<open>createThreeMaterialAsync\<close> was called on, and the ids skipped with a warning.\<close>

fun pendingMaterials :: "materialEvent list \<Rightarrow> myMaterial list" where
  "pendingMaterials [] = []"
| "pendingMaterials (Created m # es) = m # pendingMaterials es"
| "pendingMaterials (e # es) = pendingMaterials es"

fun skippedIds :: "materialEvent list \<Rightarrow> string list" where
  "skippedIds [] = []"
| "skippedIds (Skipped k # es) = k # skippedIds es"
| "skippedIds (e # es) = skippedIds es"

text \<open>
  The settlement of the promises, in the order they were created: a fulfilled promise
  assigns its material to the registry, a rejected one assigns nothing.
\<close>

fun settleMaterials ::
  "(string \<Rightarrow> string) \<Rightarrow> registry \<times> textures \<Rightarrow> myMaterial list \<Rightarrow> registry \<times> textures" where
  "settleMaterials uuidOf (materials, textures) [] = (materials, textures)"
| "settleMaterials uuidOf (materials, textures) (m # ms) =
     (if rejected m textures then settleMaterials uuidOf (materials, textures) ms
      else
        (let (mat, textures') = createThreeMaterialAsync m (uuidOf (mm_materialId m)) textures in
         settleMaterials uuidOf (AList.update (mm_materialId m) mat materials, textures') ms))"

text \<open>
  \<open>materialsRendering(materialsData)\<close>: the registry and the texture store after
  \<open>Promise.all\<close>, and the ids skipped as invalid. \<open>uuidOf\<close> gives the identifier THREE
  assigns to the material built for an id. An empty \<open>materialsData\<close> returns at once.
\<close>

definition materialsRendering ::
  "(string \<Rightarrow> string) \<Rightarrow> registry \<Rightarrow> textures \<Rightarrow> (string \<times> materialData) list
   \<Rightarrow> (registry \<times> textures) \<times> string list" where
  "materialsRendering uuidOf materials textures materialsData =
     (if materialsData = [] then ((materials, textures), [])
      else (settleMaterials uuidOf (materials, textures)
              (pendingMaterials (materialsLoop materials textures materialsData)),
            skippedIds (materialsLoop materials textures materialsData)))"

text \<open>
  A materials section with one valid entry and one whose shininess is -1, and an entry
  whose shininess is -1 and which names a loaded texture.
\<close>

definition plainMaterialData :: materialData where
  "plainMaterialData =
     \<lparr>md_color = None, md_specular = None, md_emissive = None, md_shininess = JUndefined,
      md_transparent = JUndefined, md_opacity = JUndefined, md_wireframe = JUndefined,
      md_shading = JUndefined, md_twosided = JUndefined, md_textureref = None,
      md_texlength_s = JUndefined, md_texlength_t = JUndefined, md_bumpref = None,
      md_bumpscale = JUndefined, md_specularref = None\<rparr>"

definition exampleMaterials :: "(string \<times> materialData) list" where
  "exampleMaterials =
     [(''wood'', plainMaterialData\<lparr>md_shininess := JNum (Fin 10)\<rparr>),
      (''dull'', plainMaterialData\<lparr>md_shininess := JNum (Fin (- 1))\<rparr>)]"

definition dullTextured :: materialData where
  "dullTextured =
     plainMaterialData\<lparr>md_shininess := JNum (Fin (- 1)), md_textureref := Some ''wood''\<rparr>"

section \<open>applyTransformations\<close>

text \<open>
  An entry of a \<open>transforms\<close> array, and the three fields of a \<open>THREE.Object3D\<close> the
  function writes: \<open>position\<close>, \<open>rotation\<close> (the Euler angles) and \<open>scale\<close>. The entry's
  \<open>amount\<close> object is present in every entry.
\<close>

record transform =
  tr_type :: string
  tr_amount :: xyz

record placement =
  pl_position :: vec3
  pl_rotation :: vec3
  pl_scale :: vec3

text \<open>The placement of a new \<open>THREE.Group\<close> or \<open>THREE.LOD\<close>.\<close>

definition newPlacement :: placement where
  "newPlacement =
     \<lparr>pl_position = \<lparr>v_x = Fin 0, v_y = Fin 0, v_z = Fin 0\<rparr>,
      pl_rotation = \<lparr>v_x = Fin 0, v_y = Fin 0, v_z = Fin 0\<rparr>,
      pl_scale = \<lparr>v_x = Fin 1, v_y = Fin 1, v_z = Fin 1\<rparr>\<rparr>"

definition translateAmount :: "xyz \<Rightarrow> vec3" where
  "translateAmount a =
     \<lparr>v_x = toValidFloat (xyz_x a) (Fin 0),
      v_y = toValidFloat (xyz_y a) (Fin 0),
      v_z = toValidFloat (xyz_z a) (Fin 0)\<rparr>"

definition rotateAmount :: "xyz \<Rightarrow> vec3" where
  "rotateAmount a =
     \<lparr>v_x = degToRad (validateAngle (xyz_x a) (Fin (- 360)) (Fin 360) (Fin 0)),
      v_y = degToRad (validateAngle (xyz_y a) (Fin (- 360)) (Fin 360) (Fin 0)),
      v_z = degToRad (validateAngle (xyz_z a) (Fin (- 360)) (Fin 360) (Fin 0))\<rparr>"

definition scaleAmount :: "xyz \<Rightarrow> vec3" where
  "scaleAmount a =
     \<lparr>v_x = toValidFloat (xyz_x a) (Fin 1),
      v_y = toValidFloat (xyz_y a) (Fin 1),
      v_z = toValidFloat (xyz_z a) (Fin 1)\<rparr>"

text \<open>The body of the \<open>forEach\<close> callback.\<close>

definition applyTransform :: "placement \<Rightarrow> transform \<Rightarrow> placement" where
  "applyTransform g t =
     (if tr_type t = ''translate'' then g\<lparr>pl_position := translateAmount (tr_amount t)\<rparr>
      else if tr_type t = ''rotate'' then g\<lparr>pl_rotation := rotateAmount (tr_amount t)\<rparr>
      else if tr_type t = ''scale'' then g\<lparr>pl_scale := scaleAmount (tr_amount t)\<rparr>
      else g)"

definition applyTransformations :: "placement \<Rightarrow> transform list \<Rightarrow> placement" where
  "applyTransformations g transforms = foldl applyTransform g transforms"

text \<open>The last entry of a given type in a \<open>transforms\<close> array, for the statement of C2.\<close>

definition lastOfType :: "string \<Rightarrow> transform list \<Rightarrow> transform option" where
  "lastOfType ty ts =
     (case rev (filter (\<lambda>t. tr_type t = ty) ts) of [] \<Rightarrow> None | x # xs \<Rightarrow> Some x)"

definition amountOf :: "jsval \<Rightarrow> jsval \<Rightarrow> jsval \<Rightarrow> xyz" where
  "amountOf x y z = \<lparr>xyz_x = x, xyz_y = y, xyz_z = z\<rparr>"

definition numAmount :: "real \<Rightarrow> real \<Rightarrow> real \<Rightarrow> xyz" where
  "numAmount x y z = amountOf (JNum (Fin x)) (JNum (Fin y)) (JNum (Fin z))"

section \<open>createPrimitive\<close>

text \<open>
  The fields of a primitive child. The mesh geometry is represented by what the
  texture-repeat pass reads of it, the vertex positions; vertex colours, normals, faces
  and UV coordinates are not represented. A call of \<open>createPrimitive\<close> need not return: a
  loop of it may not end, and a statement of it may throw. Such a call has no value.
\<close>

record primitiveData =
  pd_type :: string
  pd_xy1 :: "xyz option"
  pd_xy2 :: "xyz option"
  pd_xyz1 :: "xyz option"
  pd_xyz2 :: "xyz option"
  pd_xyz3 :: "xyz option"
  pd_parts_x :: jsval
  pd_parts_y :: jsval
  pd_parts_z :: jsval
  pd_top :: jsval
  pd_base :: jsval
  pd_height :: jsval
  pd_slices :: jsval
  pd_stacks :: jsval
  pd_capsclose :: jsval
  pd_thetaStart :: jsval
  pd_thetaLength :: jsval
  pd_radius :: jsval
  pd_thetastart :: jsval
  pd_thetalength :: jsval
  pd_phistart :: jsval
  pd_philength :: jsval
  pd_degree_u :: jsval
  pd_degree_v :: jsval
  pd_parts_u :: jsval
  pd_parts_v :: jsval
  pd_controlpoints :: "xyz list"
  pd_color_c :: "rgb option"
  pd_color_p :: "rgb option"

type_synonym geometry = "vec3 list"

text \<open>
  The flag declared at the head of \<open>createPrimitive\<close>. It is initialised to \<open>false\<close> and
  no statement of the function assigns it.
\<close>

definition specialTextureHandling :: bool where
  "specialTextureHandling = False"

text \<open>
  The texture lengths used for the UV coordinates: those of the material when it has
  both and both are truthy, 1 and 1 otherwise.
\<close>

definition truthyOpt :: "jsnum option \<Rightarrow> bool" where
  "truthyOpt v = (case v of None \<Rightarrow> False | Some n \<Rightarrow> truthyNum n)"

definition uvTexLengths :: "material option \<Rightarrow> jsnum \<times> jsnum" where
  "uvTexLengths material =
     (case material of
        None \<Rightarrow> (Fin 1, Fin 1)
      | Some m \<Rightarrow>
          if truthyOpt (mat_texlength_s m) \<and> truthyOpt (mat_texlength_t m)
          then (the (mat_texlength_s m), the (mat_texlength_t m))
          else (Fin 1, Fin 1))"

text \<open>
  The rectangle: \<open>THREE.PlaneGeometry(rectWidth, rectHeight)\<close> has one segment in each
  direction, so its vertices are the four corners \<open>(ix * width - width / 2,
  -(iy * height - height / 2), 0)\<close> for \<open>iy\<close>, \<open>ix\<close> in 0, 1; \<open>translate\<close> then adds the
  offsets.
\<close>

definition rectWidth :: "primitiveData \<Rightarrow> jsnum" where
  "rectWidth pd =
     Math_abs (jsub (toValidFloat (optX (pd_xy2 pd)) (Fin (1 / 2)))
                    (toValidFloat (optX (pd_xy1 pd)) (Fin (- (1 / 2)))))"

definition rectHeight :: "primitiveData \<Rightarrow> jsnum" where
  "rectHeight pd =
     Math_abs (jsub (toValidFloat (optY (pd_xy2 pd)) (Fin (1 / 2)))
                    (toValidFloat (optY (pd_xy1 pd)) (Fin (- (1 / 2)))))"

definition rectOffsetX :: "primitiveData \<Rightarrow> jsnum" where
  "rectOffsetX pd =
     jdiv (jadd (toValidFloat (optX (pd_xy1 pd)) (Fin (- (1 / 2))))
                (toValidFloat (optX (pd_xy2 pd)) (Fin (1 / 2)))) (Fin 2)"

definition rectOffsetY :: "primitiveData \<Rightarrow> jsnum" where
  "rectOffsetY pd =
     jdiv (jadd (toValidFloat (optY (pd_xy1 pd)) (Fin (- (1 / 2))))
                (toValidFloat (optY (pd_xy2 pd)) (Fin (1 / 2)))) (Fin 2)"

definition planeVertex :: "jsnum \<Rightarrow> jsnum \<Rightarrow> real \<Rightarrow> real \<Rightarrow> vec3" where
  "planeVertex w h ix iy =
     \<lparr>v_x = jsub (jmul (Fin ix) w) (jdiv w (Fin 2)),
      v_y = jneg (jsub (jmul (Fin iy) h) (jdiv h (Fin 2))),
      v_z = Fin 0\<rparr>"

definition translateVertex :: "jsnum \<Rightarrow> jsnum \<Rightarrow> jsnum \<Rightarrow> vec3 \<Rightarrow> vec3" where
  "translateVertex dx dy dz p =
     \<lparr>v_x = jadd (v_x p) dx, v_y = jadd (v_y p) dy, v_z = jadd (v_z p) dz\<rparr>"

definition rectangleGeometry :: "primitiveData \<Rightarrow> geometry" where
  "rectangleGeometry pd =
     map (translateVertex (rectOffsetX pd) (rectOffsetY pd) (Fin 0))
       [planeVertex (rectWidth pd) (rectHeight pd) 0 0,
        planeVertex (rectWidth pd) (rectHeight pd) 1 0,
        planeVertex (rectWidth pd) (rectHeight pd) 0 1,
        planeVertex (rectWidth pd) (rectHeight pd) 1 1]"

text \<open>The triangle: the three validated vertices, in order.\<close>

definition triangleGeometry :: "primitiveData \<Rightarrow> geometry" where
  "triangleGeometry pd =
     [\<lparr>v_x = toValidFloat (optX (pd_xyz1 pd)) (Fin 0),
       v_y = toValidFloat (optY (pd_xyz1 pd)) (Fin 0),
       v_z = toValidFloat (optZ (pd_xyz1 pd)) (Fin 0)\<rparr>,
      \<lparr>v_x = toValidFloat (optX (pd_xyz2 pd)) (Fin 1),
       v_y = toValidFloat (optY (pd_xyz2 pd)) (Fin 0),
       v_z = toValidFloat (optZ (pd_xyz2 pd)) (Fin 0)\<rparr>,
      \<lparr>v_x = toValidFloat (optX (pd_xyz3 pd)) (Fin (1 / 2)),
       v_y = toValidFloat (optY (pd_xyz3 pd)) (Fin 1),
       v_z = toValidFloat (optZ (pd_xyz3 pd)) (Fin 0)\<rparr>]"

subsection \<open>Loops over a counter\<close>

text \<open>
  \<open>for (let i = 0; cond(i); i++) body\<close>. The counter is a double: \<open>i++\<close> is exact below
  \<open>2^53\<close> and leaves \<open>2^53\<close> as it is, since \<open>2^53 + 1\<close> rounds back to it. The loop need
  not end, and its body may throw: the loop then has no value.
\<close>

definition increment :: "nat \<Rightarrow> nat" where
  "increment i = (if i < 2 ^ 53 then Suc i else i)"

partial_function (option) forLoop ::
  "(nat \<Rightarrow> bool) \<Rightarrow> (nat \<Rightarrow> 'a \<Rightarrow> 'a option) \<Rightarrow> nat \<Rightarrow> 'a \<Rightarrow> 'a option" where
  "forLoop cond body i acc =
     (if cond i then Option.bind (body i acc) (\<lambda>acc'. forLoop cond body (increment i) acc')
      else Some acc)"

text \<open>
  \<open>array.push(...)\<close>: it throws a \<open>RangeError\<close> when the new length would exceed
  \<open>2^32 - 1\<close>.
\<close>

definition push :: "'a list \<Rightarrow> 'a list \<Rightarrow> 'a list option" where
  "push xs new = (if 4294967295 < length xs + length new then None else Some (xs @ new))"

fun jcos :: "jsnum \<Rightarrow> jsnum" where
  "jcos (Fin x) = Fin (cos x)"
| "jcos _ = NaN"

fun jsin :: "jsnum \<Rightarrow> jsnum" where
  "jsin (Fin x) = Fin (sin x)"
| "jsin _ = NaN"

fun jfloor :: "jsnum \<Rightarrow> jsnum" where
  "jfloor (Fin x) = Fin (real_of_int \<lfloor>x\<rfloor>)"
| "jfloor a = a"

subsection \<open>The polygon\<close>

text \<open>
  The two pairs of nested loops of the polygon branch, over the stacks and the slices:
  the first fills \<open>polygon_positions\<close> (and, in step with it, \<open>polygon_colors\<close>), the second
  \<open>polygon_indices\<close>. The bounds are what \<open>toValidFloat\<close> returns, which may be \<open>Infinity\<close>.
\<close>

definition polygonPositions :: "jsnum \<Rightarrow> jsnum \<Rightarrow> jsnum \<Rightarrow> jsnum list option" where
  "polygonPositions polygon_radius polygon_stacks polygon_slices =
     forLoop (\<lambda>stack. jle (Fin (real stack)) polygon_stacks)
       (\<lambda>stack positions.
          forLoop (\<lambda>slice. jle (Fin (real slice)) polygon_slices)
            (\<lambda>slice positions'.
               (let stackRadius = jmul (jdiv (Fin (real stack)) polygon_stacks) polygon_radius;
                    theta = jmul (jmul (jdiv (Fin (real slice)) polygon_slices) (Fin pi)) (Fin 2)
                in push positions'
                     [jmul (jcos theta) stackRadius, jmul (jsin theta) stackRadius, Fin 0]))
            0 positions)
       0 []"

definition polygonIndices :: "jsnum \<Rightarrow> jsnum \<Rightarrow> jsnum list option" where
  "polygonIndices polygon_stacks polygon_slices =
     forLoop (\<lambda>stack. jlt (Fin (real stack)) polygon_stacks)
       (\<lambda>stack indices.
          forLoop (\<lambda>slice. jlt (Fin (real slice)) polygon_slices)
            (\<lambda>slice indices'.
               (let current = jadd (jmul (Fin (real stack)) (jadd polygon_slices (Fin 1)))
                                (Fin (real slice));
                    next = jadd (jadd current polygon_slices) (Fin 1)
                in Option.bind (push indices' [current, next, jadd current (Fin 1)])
                     (\<lambda>indices''. push indices'' [next, jadd next (Fin 1), jadd current (Fin 1)])))
            0 indices)
       0 []"

text \<open>\<open>new THREE.Float32BufferAttribute(polygon_positions, 3)\<close>: the positions, three by three.\<close>

fun triples :: "jsnum list \<Rightarrow> geometry" where
  "triples (x # y # z # r) = \<lparr>v_x = x, v_y = y, v_z = z\<rparr> # triples r"
| "triples _ = []"

definition polygonGeometry :: "primitiveData \<Rightarrow> geometry option" where
  "polygonGeometry pd =
     (let polygon_radius = toValidFloat (pd_radius pd) (Fin 1);
          polygon_stacks = toValidFloat (pd_stacks pd) (Fin 3);
          polygon_slices = toValidFloat (pd_slices pd) (Fin 5)
      in Option.bind (polygonPositions polygon_radius polygon_stacks polygon_slices)
           (\<lambda>positions.
              Option.bind (polygonIndices polygon_stacks polygon_slices)
                (\<lambda>indices. Some (triples positions))))"

subsection \<open>The NURBS surface\<close>

text \<open>
  The loop that collects the control points, \<open>(degreeU + 1) * (degreeV + 1)\<close> of them: a
  point the description lacks is \<open>{}\<close>, whose coordinates default to 0. Each point goes to
  the row \<open>Math.floor(i / (degreeV + 1))\<close>; the rows are represented by the list of the
  points with their row.
\<close>

definition controlPoint :: "xyz list \<Rightarrow> nat \<Rightarrow> vec3" where
  "controlPoint points i =
     (if i < length points
      then \<lparr>v_x = toValidFloat (xyz_x (points ! i)) (Fin 0),
            v_y = toValidFloat (xyz_y (points ! i)) (Fin 0),
            v_z = toValidFloat (xyz_z (points ! i)) (Fin 0)\<rparr>
      else \<lparr>v_x = Fin 0, v_y = Fin 0, v_z = Fin 0\<rparr>)"

definition nurbsControlPoints :: "primitiveData \<Rightarrow> (jsnum \<times> vec3) list option" where
  "nurbsControlPoints pd =
     (let degreeU = toValidFloat (pd_degree_u pd) (Fin 3);
          degreeV = toValidFloat (pd_degree_v pd) (Fin 3);
          numControlPoints = jmul (jadd degreeU (Fin 1)) (jadd degreeV (Fin 1))
      in forLoop (\<lambda>i. jlt (Fin (real i)) numControlPoints)
           (\<lambda>i controlPoints.
              Some (controlPoints
                    @ [(jfloor (jdiv (Fin (real i)) (jadd degreeV (Fin 1))),
                        controlPoint (pd_controlpoints pd) i)]))
           0 [])"

subsection \<open>The geometry of the other primitives\<close>

text \<open>
  \<open>lib\<close> stands for the generators of the rendering library behind the box, the
  cylinder, the sphere and the NURBS surface (\<open>MyNurbsBuilder\<close> hands the control points
  to the library): it gives the vertex positions of the geometry they build, or nothing
  when the generator does not return, as with a number of segments that is \<open>Infinity\<close>.
  The outer \<open>None\<close> is a call that does not return; \<open>Some None\<close> is an unsupported type
  (\<open>geometry\<close> stays undefined). The polygon returns before the common part and is
  treated apart.
\<close>

definition primitiveGeometry ::
  "(primitiveData \<Rightarrow> geometry option) \<Rightarrow> primitiveData \<Rightarrow> geometry option option" where
  "primitiveGeometry lib pd =
     (if pd_type pd = ''rectangle'' then Some (Some (rectangleGeometry pd))
      else if pd_type pd = ''triangle'' then Some (Some (triangleGeometry pd))
      else if pd_type pd \<in> set [''box'', ''cylinder'', ''sphere''] then map_option Some (lib pd)
      else if pd_type pd = ''nurbs''
           then Option.bind (nurbsControlPoints pd) (\<lambda>controlPoints. map_option Some (lib pd))
      else Some None)"

subsection \<open>Ids for the materials \<open>createPrimitive\<close> registers\<close>

text \<open>\<open>String(counter).padStart(2, '0')\<close> and the loop that looks for an unused id.\<close>

definition digitChar :: "nat \<Rightarrow> char" where
  "digitChar d = ''0123456789'' ! d"

fun showNat :: "nat \<Rightarrow> string" where
  "showNat n = (if n < 10 then [digitChar n] else showNat (n div 10) @ [digitChar (n mod 10)])"

declare showNat.simps [simp del]

definition padStart2 :: "string \<Rightarrow> string" where
  "padStart2 s = replicate (2 - length s) (CHR ''0'') @ s"

definition numberedId :: "string \<Rightarrow> nat \<Rightarrow> string" where
  "numberedId idBase counter = idBase @ ''_'' @ padStart2 (showNat counter)"

lemma digitsValue_append: "digitsValue acc (xs @ ys) = digitsValue (digitsValue acc xs) ys"
  by (induction xs arbitrary: acc) auto

lemma of_char_digitChar: "d < 10 \<Longrightarrow> (of_char (digitChar d) :: nat) = 48 + d"
proof -
  assume "d < 10"
  then have "d \<in> {0, 1, 2, 3, 4, 5, 6, 7, 8, 9}" by auto
  then show ?thesis by (auto simp: digitChar_def)
qed

lemma digitsValue_showNat: "digitsValue 0 (showNat n) = n"
proof (induction n rule: showNat.induct)
  case (1 n)
  show ?case
  proof (cases "n < 10")
    case True
    then show ?thesis by (simp add: showNat.simps [of n] of_char_digitChar)
  next
    case False
    with 1 have "digitsValue 0 (showNat (n div 10)) = n div 10" by simp
    with False show ?thesis
      by (simp add: showNat.simps [of n] digitsValue_append of_char_digitChar)
  qed
qed

lemma digitsValue_zeros: "digitsValue 0 (replicate k (CHR ''0'') @ s) = digitsValue 0 s"
  by (induction k) auto

lemma numberedId_inj: "numberedId b m = numberedId b n \<Longrightarrow> m = n"
proof -
  assume "numberedId b m = numberedId b n"
  then have "padStart2 (showNat m) = padStart2 (showNat n)"
    by (simp add: numberedId_def)
  then have "digitsValue 0 (padStart2 (showNat m)) = digitsValue 0 (padStart2 (showNat n))"
    by simp
  then show ?thesis
    by (simp add: padStart2_def digitsValue_zeros digitsValue_showNat)
qed

lemma finite_numbered: "finite S \<Longrightarrow> finite {k. numberedId b k \<in> S}"
proof -
  assume "finite S"
  moreover have "inj (numberedId b)" by (rule injI) (rule numberedId_inj)
  ultimately have "finite (numberedId b -` S)"
    by (intro finite_vimageI) auto
  then show ?thesis by (simp add: vimage_def)
qed

lemma registryLookup_None:
  "(registryLookup ms k = None) = (k \<notin> fst ` set ms \<union> set objectPrototypeKeys)"
proof (cases "map_of ms k")
  case None
  then have "k \<notin> fst ` set ms" by (simp add: map_of_eq_None_iff)
  with None show ?thesis by (simp add: registryLookup_def inherited_def)
next
  case (Some m)
  then have "(k, m) \<in> set ms" by (rule map_of_SomeD)
  then have "k \<in> fst ` set ms" by force
  with Some show ?thesis by (simp add: registryLookup_def)
qed

text \<open>
  \<open>let id = idBase + "_01"; let counter = 1; while (materials[id]) { counter++; id = ... }\<close>,
  entered with \<open>counter = 1\<close>. The registry is finite and the ids of distinct counters
  differ, so the loop ends.
\<close>

function freshId :: "string \<Rightarrow> registry \<Rightarrow> nat \<Rightarrow> string" where
  "freshId idBase materials counter =
     (if registryLookup materials (numberedId idBase counter) \<noteq> None
      then freshId idBase materials (Suc counter)
      else numberedId idBase counter)"
  by pat_completeness auto
termination
proof (relation "measure (\<lambda>(b, ms, c).
          card {k. c \<le> k \<and> numberedId b k \<in> fst ` set ms \<union> set objectPrototypeKeys})")
  show "wf (measure (\<lambda>(b, ms :: registry, c).
              card {k. c \<le> k \<and> numberedId b k \<in> fst ` set ms \<union> set objectPrototypeKeys}))"
    by simp
next
  fix idBase :: string and materials :: registry and counter :: nat
  assume "registryLookup materials (numberedId idBase counter) \<noteq> None"
  then have mem: "numberedId idBase counter \<in> fst ` set materials \<union> set objectPrototypeKeys"
    by (simp add: registryLookup_None)
  let ?S = "fst ` set materials \<union> set objectPrototypeKeys"
  let ?A = "{k. Suc counter \<le> k \<and> numberedId idBase k \<in> ?S}"
  let ?B = "{k. counter \<le> k \<and> numberedId idBase k \<in> ?S}"
  have "finite ?S" by simp
  then have fin: "finite ?B"
    by (intro finite_subset [OF _ finite_numbered [of ?S idBase]]) auto
  have "counter \<in> ?B" "counter \<notin> ?A" using mem by auto
  moreover have "?A \<subseteq> ?B" by auto
  ultimately have "?A \<subset> ?B" by blast
  then have "card ?A < card ?B" using fin by (rule psubset_card_mono [rotated])
  then show "((idBase, materials, Suc counter), (idBase, materials, counter))
      \<in> measure (\<lambda>(b, ms, c).
            card {k. c \<le> k \<and> numberedId b k \<in> fst ` set ms \<union> set objectPrototypeKeys})"
    by simp
qed

declare freshId.simps [simp del]

subsection \<open>The texture-repeat pass\<close>

text \<open>
  \<open>geometry.computeBoundingBox()\<close>: the component-wise minimum and maximum of the vertex
  positions, starting from the empty box (minimum \<open>Infinity\<close>, maximum \<open>-Infinity\<close>).
\<close>

definition boxMin :: "geometry \<Rightarrow> vec3" where
  "boxMin ps =
     foldl (\<lambda>b p. \<lparr>v_x = Math_min (v_x b) (v_x p), v_y = Math_min (v_y b) (v_y p),
                      v_z = Math_min (v_z b) (v_z p)\<rparr>)
       \<lparr>v_x = PInf, v_y = PInf, v_z = PInf\<rparr> ps"

definition boxMax :: "geometry \<Rightarrow> vec3" where
  "boxMax ps =
     foldl (\<lambda>b p. \<lparr>v_x = Math_max (v_x b) (v_x p), v_y = Math_max (v_y b) (v_y p),
                      v_z = Math_max (v_z b) (v_z p)\<rparr>)
       \<lparr>v_x = NInf, v_y = NInf, v_z = NInf\<rparr> ps"

text \<open>Vector operations of the triangle branch; an index past the end reads \<open>undefined\<close>.\<close>

fun jsqrt :: "jsnum \<Rightarrow> jsnum" where
  "jsqrt NaN = NaN"
| "jsqrt NInf = NaN"
| "jsqrt PInf = PInf"
| "jsqrt (Fin x) = (if x < 0 then NaN else Fin (sqrt x))"

definition vertexAt :: "geometry \<Rightarrow> nat \<Rightarrow> vec3" where
  "vertexAt ps i = (if i < length ps then ps ! i else \<lparr>v_x = NaN, v_y = NaN, v_z = NaN\<rparr>)"

definition vsub :: "vec3 \<Rightarrow> vec3 \<Rightarrow> vec3" where
  "vsub a b = \<lparr>v_x = jsub (v_x a) (v_x b), v_y = jsub (v_y a) (v_y b), v_z = jsub (v_z a) (v_z b)\<rparr>"

definition cross :: "vec3 \<Rightarrow> vec3 \<Rightarrow> vec3" where
  "cross a b =
     \<lparr>v_x = jsub (jmul (v_y a) (v_z b)) (jmul (v_z a) (v_y b)),
      v_y = jsub (jmul (v_z a) (v_x b)) (jmul (v_x a) (v_z b)),
      v_z = jsub (jmul (v_x a) (v_y b)) (jmul (v_y a) (v_x b))\<rparr>"

definition vlength :: "vec3 \<Rightarrow> jsnum" where
  "vlength a = jsqrt (jadd (jadd (jmul (v_x a) (v_x a)) (jmul (v_y a) (v_y a))) (jmul (v_z a) (v_z a)))"

definition triangleArea :: "geometry \<Rightarrow> jsnum" where
  "triangleArea ps =
     jdiv (vlength (cross (vsub (vertexAt ps 1) (vertexAt ps 0)) (vsub (vertexAt ps 2) (vertexAt ps 0))))
          (Fin 2)"

text \<open>A number read from a property that may be absent: \<open>undefined\<close> converts to NaN.\<close>

definition numberOf :: "jsnum option \<Rightarrow> jsnum" where
  "numberOf v = (case v of None \<Rightarrow> NaN | Some n \<Rightarrow> n)"

text \<open>
  The value given to \<open>meshMaterial.map.repeat.set\<close> inside \<open>if (meshMaterial.map)\<close>;
  \<open>None\<close> when no branch calls it.
\<close>

definition textureRepeat ::
  "primitiveData \<Rightarrow> geometry \<Rightarrow> material \<Rightarrow> (jsnum \<times> jsnum) option" where
  "textureRepeat pd geom meshMaterial =
     (if specialTextureHandling then
        (if pd_type pd = ''triangle'' then
           Some (jdiv (triangleArea geom) (numberOf (mat_texlength_s meshMaterial)),
                 jdiv (triangleArea geom) (numberOf (mat_texlength_t meshMaterial)))
         else if pd_type pd = ''nurbs'' then
           Some (jdiv (toValidFloat (pd_parts_u pd) (Fin 10)) (numberOf (mat_texlength_s meshMaterial)),
                 jdiv (toValidFloat (pd_parts_v pd) (Fin 10)) (numberOf (mat_texlength_t meshMaterial)))
         else None)
      else
        (let texScaleS = jsub (v_x (boxMax geom)) (v_x (boxMin geom));
             texScaleT = jsub (v_y (boxMax geom)) (v_y (boxMin geom))
         in Some (orElse (jdiv texScaleS (numberOf (mat_texlength_s meshMaterial))) (Fin 1),
                  orElse (jdiv texScaleT (numberOf (mat_texlength_t meshMaterial))) (Fin 1))))"

text \<open>The texture store after the pass: the colour map of the material, when it has one.\<close>

definition textureRepeatPass ::
  "primitiveData \<Rightarrow> geometry \<Rightarrow> material \<Rightarrow> textures \<Rightarrow> textures" where
  "textureRepeatPass pd geom meshMaterial textures =
     (case mat_map meshMaterial of
        None \<Rightarrow> textures
      | Some r \<Rightarrow>
          (case textures r of
             None \<Rightarrow> textures
           | Some t \<Rightarrow>
               textures(r \<mapsto>
                 (case textureRepeat pd geom meshMaterial of
                    None \<Rightarrow> t
                  | Some rp \<Rightarrow> t\<lparr>tex_repeat := rp\<rparr>)\<lparr>tex_needsUpdate := True\<rparr>)))"

subsection \<open>The function\<close>

text \<open>
  \<open>material.clone()\<close>: a new material object, built by the class of the material, with
  the standard fields copied; the two fields the parser attaches are not among them. An
  object that is not a material has no method \<open>clone\<close>: the call throws.
\<close>

definition cloneMaterial :: "material \<Rightarrow> string \<Rightarrow> material" where
  "cloneMaterial m uuid =
     m\<lparr>mat_uuid := uuid, mat_texlength_s := None, mat_texlength_t := None,
       mat_isMaterial := True\<rparr>"

text \<open>The two default materials of \<open>MyContents\<close>.\<close>

record contents =
  defaultMaterial :: material
  defaultMaterialVertex :: material

record mesh =
  mesh_geometry :: geometry
  mesh_material :: material
  mesh_castShadow :: bool
  mesh_receiveShadow :: bool

text \<open>
  \<open>createPrimitive(primitiveData, material, appMyContents)\<close>: the mesh or \<open>null\<close>, the
  registry \<open>appMyContents.materials\<close> and the texture store after the call; nothing when
  the call does not return. \<open>newUuid\<close> is the identifier of the material the call clones,
  if it clones one.
\<close>

definition createPrimitive ::
  "(primitiveData \<Rightarrow> geometry option) \<Rightarrow> contents \<Rightarrow> string \<Rightarrow> primitiveData
   \<Rightarrow> material option \<Rightarrow> registry \<times> textures \<Rightarrow> (mesh option \<times> registry \<times> textures) option" where
  "createPrimitive lib app newUuid pd material st =
     (if pd_type pd = ''polygon'' then
        (case polygonGeometry pd of
           None \<Rightarrow> None
         | Some geom \<Rightarrow>
             (case (case material of
                      Some m \<Rightarrow>
                        if mat_isMaterial m
                        then Some ((cloneMaterial m newUuid)\<lparr>mat_vertexColors := True\<rparr>)
                        else None
                    | None \<Rightarrow> Some (cloneMaterial (defaultMaterialVertex app) newUuid)) of
                None \<Rightarrow> None
              | Some polygonMaterial \<Rightarrow>
                  Some (Some \<lparr>mesh_geometry = geom, mesh_material = polygonMaterial,
                              mesh_castShadow = False, mesh_receiveShadow = False\<rparr>,
                        AList.update (freshId ''polygon'' (fst st) 1) polygonMaterial (fst st),
                        snd st)))
      else
        (case primitiveGeometry lib pd of
           None \<Rightarrow> None
         | Some None \<Rightarrow> Some (None, st)
         | Some (Some geom) \<Rightarrow>
             (let meshMaterial =
                    (case material of
                       Some m \<Rightarrow> m
                     | None \<Rightarrow> cloneMaterial (defaultMaterial app) newUuid);
                  materials =
                    (case material of
                       Some m \<Rightarrow> fst st
                     | None \<Rightarrow>
                         AList.update (freshId ''default_mesh_material'' (fst st) 1) meshMaterial
                           (fst st))
              in Some (Some \<lparr>mesh_geometry = geom, mesh_material = meshMaterial,
                              mesh_castShadow = False, mesh_receiveShadow = False\<rparr>,
                       materials, textureRepeatPass pd geom meshMaterial (snd st)))))"

text \<open>
  Examples: a store with one loaded texture, a material of the materials phase that
  binds it as its colour map with the given texture lengths, and two primitives.
\<close>

definition woodStore :: textures where
  "woodStore =
     [''wood'' \<mapsto> \<lparr>tex_repeat = (Fin 1, Fin 1), tex_wrapRepeat = False, tex_needsUpdate = False\<rparr>]"

definition texturedMaterial :: "real \<Rightarrow> real \<Rightarrow> material" where
  "texturedMaterial s t =
     fst (createThreeMaterialAsync
            (MyMaterials ''planks''
               (plainMaterialData\<lparr>md_textureref := Some ''wood'', md_texlength_s := JNum (Fin s),
                                    md_texlength_t := JNum (Fin t)\<rparr>)
               woodStore)
            ''planks-uuid'' woodStore)"

definition plainPrimitive :: "string \<Rightarrow> primitiveData" where
  "plainPrimitive ty =
     \<lparr>pd_type = ty, pd_xy1 = None, pd_xy2 = None, pd_xyz1 = None, pd_xyz2 = None, pd_xyz3 = None,
      pd_parts_x = JUndefined, pd_parts_y = JUndefined, pd_parts_z = JUndefined,
      pd_top = JUndefined, pd_base = JUndefined, pd_height = JUndefined, pd_slices = JUndefined,
      pd_stacks = JUndefined, pd_capsclose = JUndefined, pd_thetaStart = JUndefined,
      pd_thetaLength = JUndefined, pd_radius = JUndefined, pd_thetastart = JUndefined,
      pd_thetalength = JUndefined, pd_phistart = JUndefined, pd_philength = JUndefined,
      pd_degree_u = JUndefined, pd_degree_v = JUndefined, pd_parts_u = JUndefined,
      pd_parts_v = JUndefined, pd_controlpoints = [], pd_color_c = None, pd_color_p = None\<rparr>"

definition exampleTriangle :: primitiveData where
  "exampleTriangle =
     (plainPrimitive ''triangle'')
       \<lparr>pd_xyz1 := Some (numAmount 0 0 0), pd_xyz2 := Some (numAmount 4 0 0),
        pd_xyz3 := Some (numAmount 0 2 0)\<rparr>"

definition exampleRectangle :: primitiveData where
  "exampleRectangle =
     (plainPrimitive ''rectangle'')
       \<lparr>pd_xy1 := Some (numAmount (- 1) (- 1) 0), pd_xy2 := Some (numAmount 1 1 0)\<rparr>"

text \<open>The tiling factor of the texture \<open>wood\<close> after a call of \<open>createPrimitive\<close>.\<close>

definition woodRepeat ::
  "(mesh option \<times> registry \<times> textures) option \<Rightarrow> (jsnum \<times> jsnum) option" where
  "woodRepeat r = Option.bind r (\<lambda>x. map_option tex_repeat (snd (snd x) ''wood''))"

section \<open>GraphParser\<close>

subsection \<open>Scene objects\<close>

text \<open>
  A scene object is a tree. Every object carries the identity it received when it was
  constructed (\<open>oid\<close>, the value of an allocation counter): two references are the same
  object exactly when their identities are equal. An object holds what the parser sets
  on it: for a group the material kept in \<open>userData\<close>, for a LOD the distances of its
  levels, for a mesh its material, for a light group the light; then its placement, its
  two shadow flags and its children in the order they were added.

  \<open>add\<close> is represented by appending to the children. The library also detaches an
  object from a previous parent; that concerns only a cached node used as a level by
  several LODs and is not represented.
\<close>

datatype payload =
    GroupP "material option"
  | LodP "jsnum list"
  | MeshP material
  | LightP lightGroup

datatype obj3d =
  Obj (oid: nat) (opayload: payload) (oplacement: placement) (ocast: bool) (orecv: bool)
      (ochildren: "obj3d list")

definition addChild :: "obj3d \<Rightarrow> obj3d \<Rightarrow> obj3d" where
  "addChild g c =
     Obj (oid g) (opayload g) (oplacement g) (ocast g) (orecv g) (ochildren g @ [c])"

text \<open>\<open>lod.addLevel(object, distance)\<close>: the level is recorded and the object added.\<close>

definition addLevel :: "obj3d \<Rightarrow> obj3d \<Rightarrow> jsnum \<Rightarrow> obj3d" where
  "addLevel lod c distance =
     Obj (oid lod)
       (case opayload lod of LodP ds \<Rightarrow> LodP (ds @ [distance]) | p \<Rightarrow> p)
       (oplacement lod) (ocast lod) (orecv lod) (ochildren lod @ [c])"

text \<open>
  \<open>node.clone(true)\<close>: a copy of the whole subtree in which every object is new. The
  new objects take the identities \<open>n\<close>, \<open>n + 1\<close>, ... in the order the copies are
  constructed (an object before its children); the result is the copy and the next
  free identity. The library copies \<open>userData\<close> through JSON, so the copy of a group
  holds a description of the material where the group holds the material; the parser
  reads neither, and the copy is represented with the same payload.
\<close>

fun cloneObj :: "obj3d \<Rightarrow> nat \<Rightarrow> obj3d \<times> nat"
  and cloneList :: "obj3d list \<Rightarrow> nat \<Rightarrow> obj3d list \<times> nat" where
  "cloneObj (Obj i p pl c r ch) n =
     (case cloneList ch (Suc n) of (ch', n') \<Rightarrow> (Obj n p pl c r ch', n'))"
| "cloneList [] n = ([], n)"
| "cloneList (x # xs) n =
     (case cloneObj x n of
        (x', n1) \<Rightarrow> (case cloneList xs n1 of (xs', n2) \<Rightarrow> (x' # xs', n2)))"

text \<open>
  An object with its identity and those of its descendants erased, and the identities of
  a tree in the order of construction: two trees are copies of one another when they are
  equal once the identities are erased.
\<close>

fun eraseIds :: "obj3d \<Rightarrow> obj3d" where
  "eraseIds (Obj i p pl c r ch) = Obj 0 p pl c r (map eraseIds ch)"

fun objIds :: "obj3d \<Rightarrow> nat list" where
  "objIds (Obj i p pl c r ch) = i # concat (map objIds ch)"

text \<open>\<open>applyMaterialToNode\<close>: \<open>traverse\<close> visits the node and all its descendants.\<close>

fun applyMaterialToNode :: "obj3d \<Rightarrow> material \<Rightarrow> bool \<Rightarrow> bool \<Rightarrow> obj3d" where
  "applyMaterialToNode (Obj i p pl c r ch) material parentCastShadow parentReceiveShadow =
     (case p of
        MeshP m \<Rightarrow>
          Obj i (MeshP material) pl (parentCastShadow \<or> c) (parentReceiveShadow \<or> r)
            (map (\<lambda>x. applyMaterialToNode x material parentCastShadow parentReceiveShadow) ch)
      | _ \<Rightarrow>
          Obj i p pl c r
            (map (\<lambda>x. applyMaterialToNode x material parentCastShadow parentReceiveShadow) ch))"

subsection \<open>The graph description\<close>

text \<open>
  The entries of the \<open>graph\<close> section. A child object is read by \<open>handleChild\<close>, by
  \<open>createLOD\<close>, by \<open>createPrimitive\<close> and by \<open>createLight\<close>, each for its own fields. An
  absent id and the empty string are both falsy.
\<close>

record lodEntry =
  le_nodeId :: "string option"
  le_mindist :: jsval

record childData =
  cd_type :: string
  cd_nodeId :: "string option"
  cd_lodNodes :: "lodEntry list option"
  cd_transforms :: "transform list option"
  cd_primitive :: primitiveData
  cd_light :: lightData

record children =
  ch_direct :: "(string \<times> childData) list"
  ch_nodesList :: "string list option"
  ch_lodsList :: "string list option"

record nodeData =
  nd_transforms :: "transform list option"
  nd_materialref :: "string option"
  nd_castshadow :: jsval
  nd_receiveshadow :: jsval
  nd_children :: "children option"
  nd_lodNodes :: "lodEntry list option"

text \<open>
  \<open>graphData[nodeId]\<close>, where it is truthy. The graph object holds the node descriptions
  under their ids and the id of the root under \<open>rootid\<close>; a lookup also finds the members
  it inherits. The string under \<open>rootid\<close> and an inherited member are truthy and have none
  of the fields of a node: to \<open>createNode\<close> and \<open>createLOD\<close> they are nodes without fields.
\<close>

type_synonym graphData = "string \<rightharpoonup> nodeData"

definition plainNode :: nodeData where
  "plainNode =
     \<lparr>nd_transforms = None, nd_materialref = None, nd_castshadow = JUndefined,
      nd_receiveshadow = JUndefined, nd_children = None, nd_lodNodes = None\<rparr>"

definition graphLookup :: "string option \<Rightarrow> (string \<times> nodeData) list \<Rightarrow> graphData" where
  "graphLookup rootid entries nodeId =
     (case map_of entries nodeId of
        Some nd \<Rightarrow> Some nd
      | None \<Rightarrow>
          if (nodeId = ''rootid'' \<and> rootid \<noteq> None \<and> rootid \<noteq> Some []) \<or> inherited nodeId
          then Some plainNode else None)"

definition truthyId :: "string option \<Rightarrow> bool" where
  "truthyId i = (case i of None \<Rightarrow> False | Some s \<Rightarrow> s \<noteq> [])"

subsection \<open>The parser state\<close>

text \<open>
  The mutable state the parser works on: the registry of materials, which is the very
  object \<open>MyContents\<close> owns and \<open>createPrimitive\<close> extends; the texture store;
  \<open>processedNodes\<close> and \<open>nodes\<close>; the allocation counter of scene objects; and the
  number of materials cloned so far. The environment holds what never changes: the
  geometry generators of the library, the two default materials and the identifiers the
  library gives to the materials it clones.
\<close>

record parser =
  gp_materials :: registry
  gp_textures :: textures
  gp_processedNodes :: "string set"
  gp_nodes :: "string \<rightharpoonup> obj3d"
  gp_nextId :: nat
  gp_cloned :: nat

record env =
  env_lib :: "primitiveData \<Rightarrow> geometry option"
  env_app :: contents
  env_uuid :: "nat \<Rightarrow> string"

definition materialUUID :: "material option \<Rightarrow> string" where
  "materialUUID parentMaterial =
     (case parentMaterial of None \<Rightarrow> ''null'' | Some m \<Rightarrow> mat_uuid m)"

definition cacheKey :: "string \<Rightarrow> material option \<Rightarrow> string" where
  "cacheKey nodeId parentMaterial = nodeId @ ''_'' @ materialUUID parentMaterial"

text \<open>A new object: it takes the next identity.\<close>

definition newObject :: "payload \<Rightarrow> placement \<Rightarrow> bool \<Rightarrow> bool \<Rightarrow> parser \<Rightarrow> obj3d \<times> parser" where
  "newObject p pl c r st =
     (Obj (gp_nextId st) p pl c r [], st\<lparr>gp_nextId := Suc (gp_nextId st)\<rparr>)"

subsection \<open>createNode, createLOD and handleChild\<close>

text \<open>
  The three methods call one another. A call of \<open>createNode\<close> that does not return has
  no value, so every result is optional: \<open>None\<close> stands for a computation that does not
  return. \<open>createLOD\<close> and \<open>handleChild\<close> take the method \<open>createNode\<close> they call as the
  argument \<open>cn\<close>; \<open>createNode\<close> itself is defined below by recursion on a bound on the
  depth of nested calls.

  A loop over a list of children threads the group under construction and the parser
  state; it has no value as soon as one iteration has none.
\<close>

type_synonym createNodeFn =
  "parser \<Rightarrow> string \<Rightarrow> material option \<Rightarrow> bool \<Rightarrow> bool \<Rightarrow> (obj3d option \<times> parser) option"

fun forEach :: "('a \<Rightarrow> 's \<Rightarrow> 's option) \<Rightarrow> 'a list \<Rightarrow> 's \<Rightarrow> 's option" where
  "forEach f [] s = Some s"
| "forEach f (x # xs) s = (case f x s of None \<Rightarrow> None | Some s' \<Rightarrow> forEach f xs s')"

definition isNumber :: "jsval \<Rightarrow> bool" where
  "isNumber v = (case v of JNum n \<Rightarrow> True | _ \<Rightarrow> False)"

definition validLodEntry :: "lodEntry \<Rightarrow> bool" where
  "validLodEntry e = (truthyId (le_nodeId e) \<and> isNumber (le_mindist e))"

text \<open>One iteration of the loop over \<open>lodData.lodNodes\<close>.\<close>

definition lodLevel ::
  "createNodeFn \<Rightarrow> material option \<Rightarrow> bool \<Rightarrow> bool \<Rightarrow> lodEntry \<Rightarrow> obj3d \<times> parser
   \<Rightarrow> (obj3d \<times> parser) option" where
  "lodLevel cn parentMaterial parentCastShadow parentReceiveShadow e s =
     (if \<not> validLodEntry e then Some s
      else
        (case cn (snd s) (the (le_nodeId e)) parentMaterial parentCastShadow parentReceiveShadow of
           None \<Rightarrow> None
         | Some (None, st') \<Rightarrow> Some (fst s, st')
         | Some (Some lodChild, st') \<Rightarrow>
             Some (addLevel (fst s) lodChild (parseFloat (le_mindist e)), st')))"

text \<open>
  \<open>createLOD(graphData, lodData, ...)\<close>. The argument is what the method reads of
  \<open>lodData\<close>: its \<open>lodNodes\<close> and its \<open>transforms\<close>; a missing \<open>lodData\<close> has neither.
\<close>

definition createLOD ::
  "createNodeFn \<Rightarrow> lodEntry list option \<Rightarrow> transform list option \<Rightarrow> material option \<Rightarrow> bool
   \<Rightarrow> bool \<Rightarrow> parser \<Rightarrow> (obj3d option \<times> parser) option" where
  "createLOD cn lodNodes transforms parentMaterial parentCastShadow parentReceiveShadow st =
     (case lodNodes of
        None \<Rightarrow> Some (None, st)
      | Some entries \<Rightarrow>
          (case forEach (lodLevel cn parentMaterial parentCastShadow parentReceiveShadow) entries
                  (newObject (LodP [])
                     (case transforms of
                        None \<Rightarrow> newPlacement
                      | Some ts \<Rightarrow> applyTransformations newPlacement ts)
                     False False st) of
             None \<Rightarrow> None
           | Some (lod, st') \<Rightarrow> Some (Some lod, st')))"

text \<open>The branch of \<open>handleChild\<close> for a node reference.\<close>

definition handleNoderef ::
  "createNodeFn \<Rightarrow> childData \<Rightarrow> material option \<Rightarrow> bool \<Rightarrow> bool \<Rightarrow> obj3d \<times> parser
   \<Rightarrow> (obj3d \<times> parser) option" where
  "handleNoderef cn childData parentMaterial parentCastShadow parentReceiveShadow s =
     (if \<not> truthyId (cd_nodeId childData) then Some s
      else
        (case cn (snd s) (the (cd_nodeId childData)) parentMaterial parentCastShadow
                parentReceiveShadow of
           None \<Rightarrow> None
         | Some (None, st') \<Rightarrow> Some (fst s, st')
         | Some (Some referencedNode, st') \<Rightarrow>
             (case cloneObj referencedNode (gp_nextId st') of
                (clonedNode, n') \<Rightarrow>
                  Some (addChild (fst s)
                          (case parentMaterial of
                             None \<Rightarrow> clonedNode
                           | Some m \<Rightarrow>
                               applyMaterialToNode clonedNode m parentCastShadow
                                 parentReceiveShadow),
                        st'\<lparr>gp_nextId := n'\<rparr>))))"

text \<open>
  The branch for a primitive: the registry and the texture store pass through
  \<open>createPrimitive\<close>; when that call does not return, neither does this one.
\<close>

definition handlePrimitive ::
  "env \<Rightarrow> childData \<Rightarrow> material option \<Rightarrow> bool \<Rightarrow> bool \<Rightarrow> obj3d \<times> parser
   \<Rightarrow> (obj3d \<times> parser) option" where
  "handlePrimitive ev childData parentMaterial parentCastShadow parentReceiveShadow s =
     (case createPrimitive (env_lib ev) (env_app ev) (env_uuid ev (gp_cloned (snd s)))
             ((cd_primitive childData)\<lparr>pd_type := cd_type childData\<rparr>) parentMaterial
             (gp_materials (snd s), gp_textures (snd s)) of
        None \<Rightarrow> None
      | Some (primitive, materials', textures') \<Rightarrow>
          (case primitive of
             None \<Rightarrow>
               Some (fst s,
                     (snd s)\<lparr>gp_materials := materials', gp_textures := textures',
                             gp_cloned := Suc (gp_cloned (snd s))\<rparr>)
           | Some m \<Rightarrow>
               (case newObject (MeshP (mesh_material m)) newPlacement
                       (parentCastShadow \<or> mesh_castShadow m)
                       (parentReceiveShadow \<or> mesh_receiveShadow m)
                       ((snd s)\<lparr>gp_materials := materials', gp_textures := textures',
                                gp_cloned := Suc (gp_cloned (snd s))\<rparr>) of
                  (ob, st') \<Rightarrow> Some (addChild (fst s) ob, st'))))"

text \<open>The branch for a light; the warnings of \<open>createLight\<close> go to the console.\<close>

definition handleLight :: "childData \<Rightarrow> obj3d \<times> parser \<Rightarrow> (obj3d \<times> parser) option" where
  "handleLight childData s =
     (case fst (createLight ((cd_light childData)\<lparr>ld_type := cd_type childData\<rparr>)
                  (case cd_nodeId childData of None \<Rightarrow> [] | Some i \<Rightarrow> i)) of
        None \<Rightarrow> Some s
      | Some lg \<Rightarrow>
          (case newObject (LightP lg) newPlacement False False (snd s) of
             (ob, st') \<Rightarrow> Some (addChild (fst s) ob, st')))"

definition handleChild ::
  "createNodeFn \<Rightarrow> env \<Rightarrow> material option \<Rightarrow> bool \<Rightarrow> bool \<Rightarrow> childData \<Rightarrow> obj3d \<times> parser
   \<Rightarrow> (obj3d \<times> parser) option" where
  "handleChild cn ev parentMaterial parentCastShadow parentReceiveShadow childData s =
     (if cd_type childData = ''lod'' then
        (case createLOD cn (cd_lodNodes childData) (cd_transforms childData) parentMaterial
                parentCastShadow parentReceiveShadow (snd s) of
           None \<Rightarrow> None
         | Some (None, st') \<Rightarrow> Some (fst s, st')
         | Some (Some lod, st') \<Rightarrow> Some (addChild (fst s) lod, st'))
      else if cd_type childData = ''noderef'' then
        handleNoderef cn childData parentMaterial parentCastShadow parentReceiveShadow s
      else if cd_type childData
                \<in> set [''rectangle'', ''triangle'', ''box'', ''cylinder'', ''sphere'', ''nurbs'',
                       ''polygon''] then
        handlePrimitive ev childData parentMaterial parentCastShadow parentReceiveShadow s
      else if cd_type childData \<in> set [''pointlight'', ''spotlight'', ''directionallight''] then
        handleLight childData s
      else Some s)"

text \<open>
  The three loops of \<open>createNode\<close> over \<open>nodeData.children\<close>: the direct children (every
  key but \<open>nodesList\<close> and \<open>lodsList\<close>; a child without \<open>nodeId\<close> receives its key), the
  entries of \<open>nodesList\<close> as node references, and the entries of \<open>lodsList\<close>, each looked
  up in the graph.
\<close>

definition withNodeId :: "string \<Rightarrow> childData \<Rightarrow> childData" where
  "withNodeId childId childData =
     (if truthyId (cd_nodeId childData) then childData
      else childData\<lparr>cd_nodeId := Some childId\<rparr>)"

definition plainLight :: "string \<Rightarrow> lightData" where
  "plainLight ty =
     \<lparr>ld_type = ty, ld_color = None, ld_intensity = JUndefined, ld_distance = JUndefined,
      ld_decay = JUndefined, ld_angle = JUndefined, ld_penumbra = JUndefined,
      ld_shadowleft = JUndefined, ld_shadowright = JUndefined, ld_shadowbottom = JUndefined,
      ld_shadowtop = JUndefined, ld_enabled = JUndefined, ld_castshadow = JUndefined,
      ld_shadowmapsize = JUndefined, ld_position = None, ld_target = None\<rparr>"

text \<open>The object \<open>{ type: "noderef", nodeId: childNodeId }\<close>: it has no other field.\<close>

definition noderefChild :: "string \<Rightarrow> childData" where
  "noderefChild childNodeId =
     \<lparr>cd_type = ''noderef'', cd_nodeId = Some childNodeId, cd_lodNodes = None,
      cd_transforms = None, cd_primitive = plainPrimitive ''noderef'',
      cd_light = plainLight ''noderef''\<rparr>"

definition lodsListEntry ::
  "createNodeFn \<Rightarrow> graphData \<Rightarrow> material option \<Rightarrow> bool \<Rightarrow> bool \<Rightarrow> string \<Rightarrow> obj3d \<times> parser
   \<Rightarrow> (obj3d \<times> parser) option" where
  "lodsListEntry cn graph nodeMaterial nodeCastShadow nodeReceiveShadow lodNodeId s =
     (case createLOD cn
             (case graph lodNodeId of None \<Rightarrow> None | Some d \<Rightarrow> nd_lodNodes d)
             (case graph lodNodeId of None \<Rightarrow> None | Some d \<Rightarrow> nd_transforms d)
             nodeMaterial nodeCastShadow nodeReceiveShadow (snd s) of
        None \<Rightarrow> None
      | Some (None, st') \<Rightarrow> Some (fst s, st')
      | Some (Some lod, st') \<Rightarrow> Some (addChild (fst s) lod, st'))"

definition expandChildren ::
  "createNodeFn \<Rightarrow> env \<Rightarrow> graphData \<Rightarrow> material option \<Rightarrow> bool \<Rightarrow> bool \<Rightarrow> children
   \<Rightarrow> obj3d \<times> parser \<Rightarrow> (obj3d \<times> parser) option" where
  "expandChildren cn ev graph nodeMaterial nodeCastShadow nodeReceiveShadow ch s =
     (case forEach
             (\<lambda>(childId, childData).
                handleChild cn ev nodeMaterial nodeCastShadow nodeReceiveShadow
                  (withNodeId childId childData))
             (filter (\<lambda>(childId, childData). childId \<noteq> ''nodesList'' \<and> childId \<noteq> ''lodsList'')
                (ch_direct ch)) s of
        None \<Rightarrow> None
      | Some s1 \<Rightarrow>
          (case forEach
                  (\<lambda>childNodeId.
                     handleChild cn ev nodeMaterial nodeCastShadow nodeReceiveShadow
                       (noderefChild childNodeId))
                  (case ch_nodesList ch of None \<Rightarrow> [] | Some l \<Rightarrow> l) s1 of
             None \<Rightarrow> None
           | Some s2 \<Rightarrow>
               forEach (lodsListEntry cn graph nodeMaterial nodeCastShadow nodeReceiveShadow)
                 (case ch_lodsList ch of None \<Rightarrow> [] | Some l \<Rightarrow> l) s2))"

text \<open>
  The material of a node, \<open>this.materials[materialId] || parentMaterial\<close>: what the registry
  has under the node's \<open>materialref\<close>, an inherited member included, else the material of
  the parent.
\<close>

definition nodeMaterialOf :: "registry \<Rightarrow> nodeData \<Rightarrow> material option \<Rightarrow> material option" where
  "nodeMaterialOf materials nodeData parentMaterial =
     (if truthyId (nd_materialref nodeData) then
        (case registryLookup materials (the (nd_materialref nodeData)) of
           None \<Rightarrow> parentMaterial
         | Some m \<Rightarrow> Some m)
      else parentMaterial)"

text \<open>
  The part of \<open>createNode\<close> between the two accesses to the cache: the new group with its
  transformations, material and shadow flags, and the expansion of the children into it.
\<close>

definition expandNode ::
  "createNodeFn \<Rightarrow> env \<Rightarrow> graphData \<Rightarrow> nodeData \<Rightarrow> material option \<Rightarrow> bool \<Rightarrow> bool \<Rightarrow> parser
   \<Rightarrow> (obj3d \<times> parser) option" where
  "expandNode cn ev graph nodeData parentMaterial parentCastShadow parentReceiveShadow st =
     (let nodeMaterial = nodeMaterialOf (gp_materials st) nodeData parentMaterial;
          nodeCastShadow = (parentCastShadow \<or> parseBoolean (nd_castshadow nodeData) False);
          nodeReceiveShadow =
            (parentReceiveShadow \<or> parseBoolean (nd_receiveshadow nodeData) False);
          s0 = newObject (GroupP nodeMaterial)
                 (case nd_transforms nodeData of
                    None \<Rightarrow> newPlacement
                  | Some ts \<Rightarrow> applyTransformations newPlacement ts)
                 nodeCastShadow nodeReceiveShadow st
      in case nd_children nodeData of
           None \<Rightarrow> Some s0
         | Some ch \<Rightarrow>
             expandChildren cn ev graph nodeMaterial nodeCastShadow nodeReceiveShadow ch s0)"

text \<open>
  The body of \<open>createNode\<close>, with \<open>cn\<close> for the calls of \<open>this.createNode\<close> made while the
  children are expanded. The entry in \<open>processedNodes\<close> and \<open>nodes\<close> is written after the
  three loops.
\<close>

definition createNodeBody ::
  "createNodeFn \<Rightarrow> env \<Rightarrow> graphData \<Rightarrow> createNodeFn" where
  "createNodeBody cn ev graph st nodeId parentMaterial parentCastShadow parentReceiveShadow =
     (if cacheKey nodeId parentMaterial \<in> gp_processedNodes st then
        Some (gp_nodes st (cacheKey nodeId parentMaterial), st)
      else
        (case graph nodeId of
           None \<Rightarrow> Some (None, st)
         | Some nodeData \<Rightarrow>
             (case expandNode cn ev graph nodeData parentMaterial parentCastShadow
                     parentReceiveShadow st of
                None \<Rightarrow> None
              | Some (grp, st') \<Rightarrow>
                  Some (Some grp,
                        st'\<lparr>gp_processedNodes :=
                               insert (cacheKey nodeId parentMaterial) (gp_processedNodes st'),
                            gp_nodes :=
                              (gp_nodes st')(cacheKey nodeId parentMaterial \<mapsto> grp)\<rparr>))))"

text \<open>
  \<open>createNode\<close>: with the bound \<open>Suc k\<close>, the body whose nested calls have the bound \<open>k\<close>.
  A computation that returns has a finite depth of nested calls, and returns the same
  result under every larger bound; one that recurses for ever has no value under any
  bound.
\<close>

fun createNode :: "nat \<Rightarrow> env \<Rightarrow> graphData \<Rightarrow> createNodeFn" where
  "createNode 0 ev graph = (\<lambda>st nodeId parentMaterial parentCastShadow parentReceiveShadow. None)"
| "createNode (Suc k) ev graph = createNodeBody (createNode k ev graph) ev graph"

text \<open>
  \<open>parseGraph\<close>, for a graph object with the given \<open>rootid\<close> and node descriptions: the
  root node, which is then added to the scene.
\<close>

definition parseGraph ::
  "nat \<Rightarrow> env \<Rightarrow> string option \<Rightarrow> (string \<times> nodeData) list \<Rightarrow> parser
   \<Rightarrow> (obj3d option \<times> parser) option" where
  "parseGraph k ev rootid entries st =
     (if \<not> truthyId rootid then Some (None, st)
      else createNode k ev (graphLookup rootid entries) st (the rootid) None False False)"

text \<open>A call of \<open>createNode\<close> returns when it has a value under some bound.\<close>

definition createNodeReturns ::
  "env \<Rightarrow> graphData \<Rightarrow> parser \<Rightarrow> string \<Rightarrow> material option \<Rightarrow> bool \<Rightarrow> bool \<Rightarrow> bool" where
  "createNodeReturns ev graph st nodeId parentMaterial parentCastShadow parentReceiveShadow =
     (\<exists>k. createNode k ev graph st nodeId parentMaterial parentCastShadow parentReceiveShadow
            \<noteq> None)"

subsection \<open>Identities and the cache\<close>

text \<open>
  The identities of the objects of a tree, and the two properties of the cache that make
  identities meaningful: every cached object was allocated before the counter's present
  value, and two cache keys never hold the same object. \<open>cacheGrows st st'\<close> relates a
  state to a later one: the counter and \<open>processedNodes\<close> only grow, the entry of a
  processed key stays as it is, and an object cached in the later state is the one
  cached before under the same key or was allocated in between. \<open>step\<close> adds what a call
  keeps: a well-formed cache, and a registry that holds materials only.
\<close>

fun oids :: "obj3d \<Rightarrow> nat set" where
  "oids (Obj i p pl c r ch) = insert i (\<Union> (oids ` set ch))"

definition cacheBelow :: "parser \<Rightarrow> bool" where
  "cacheBelow st = (\<forall>key ob. gp_nodes st key = Some ob \<longrightarrow> oid ob < gp_nextId st)"

definition cacheDistinct :: "parser \<Rightarrow> bool" where
  "cacheDistinct st =
     (\<forall>k k' ob ob'. gp_nodes st k = Some ob \<and> gp_nodes st k' = Some ob' \<and> k \<noteq> k'
        \<longrightarrow> oid ob \<noteq> oid ob')"

definition wfCache :: "parser \<Rightarrow> bool" where
  "wfCache st = (cacheBelow st \<and> cacheDistinct st)"

definition cacheGrows :: "parser \<Rightarrow> parser \<Rightarrow> bool" where
  "cacheGrows st st' =
     (gp_nextId st \<le> gp_nextId st'
      \<and> gp_processedNodes st \<subseteq> gp_processedNodes st'
      \<and> (\<forall>key. key \<in> gp_processedNodes st \<longrightarrow> gp_nodes st' key = gp_nodes st key)
      \<and> (\<forall>key ob. gp_nodes st' key = Some ob \<longrightarrow>
            gp_nodes st key = Some ob \<or> (gp_nextId st \<le> oid ob \<and> oid ob < gp_nextId st')))"

text \<open>
  Every material of the registry is a material, as are the materials the materials phase
  and \<open>createPrimitive\<close> put there; and a material handed down to a node is one, or absent.
\<close>

definition realRegistry :: "parser \<Rightarrow> bool" where
  "realRegistry st = (\<forall>k m. (k, m) \<in> set (gp_materials st) \<longrightarrow> mat_isMaterial m)"

definition realOpt :: "material option \<Rightarrow> bool" where
  "realOpt m = (case m of None \<Rightarrow> True | Some x \<Rightarrow> mat_isMaterial x)"

definition step :: "parser \<Rightarrow> parser \<Rightarrow> bool" where
  "step st st' =
     (cacheGrows st st' \<and> (wfCache st \<longrightarrow> wfCache st') \<and> (realRegistry st \<longrightarrow> realRegistry st'))"

text \<open>The same for a loop iteration, which also keeps the identity of the group it fills.\<close>

definition stepG :: "obj3d \<times> parser \<Rightarrow> obj3d \<times> parser \<Rightarrow> bool" where
  "stepG s s' = (step (snd s) (snd s') \<and> oid (fst s') = oid (fst s))"

text \<open>
  What the loops rely on of the method \<open>createNode\<close> they call: a call that returns a
  node leaves that node in the cache under the key of the call.
\<close>

definition cnOK :: "createNodeFn \<Rightarrow> bool" where
  "cnOK cn =
     (\<forall>st n m c r res st'. cn st n m c r = Some (res, st') \<longrightarrow>
        step st st'
        \<and> (\<forall>grp. res = Some grp \<longrightarrow>
              gp_nodes st' (cacheKey n m) = Some grp \<and> cacheKey n m \<in> gp_processedNodes st'))"

subsection \<open>The node-reference relation\<close>

text \<open>
  The node ids a node refers to, that is, the ids \<open>createNode\<close> is called with while the
  node's children are expanded: the valid levels of a direct \<open>lod\<close> child, the id of a
  direct \<open>noderef\<close> child, the non-empty entries of \<open>nodesList\<close> and the valid levels of
  the LODs named in \<open>lodsList\<close>.
\<close>

definition lodTargets :: "lodEntry list option \<Rightarrow> string list" where
  "lodTargets lodNodes =
     (case lodNodes of
        None \<Rightarrow> []
      | Some entries \<Rightarrow> map (\<lambda>e. the (le_nodeId e)) (filter validLodEntry entries))"

definition childTargets :: "childData \<Rightarrow> string list" where
  "childTargets childData =
     (if cd_type childData = ''lod'' then lodTargets (cd_lodNodes childData)
      else if cd_type childData = ''noderef'' \<and> truthyId (cd_nodeId childData)
           then [the (cd_nodeId childData)]
      else [])"

definition references :: "graphData \<Rightarrow> nodeData \<Rightarrow> string list" where
  "references graph nodeData =
     (case nd_children nodeData of
        None \<Rightarrow> []
      | Some ch \<Rightarrow>
          concat (map (\<lambda>(childId, childData). childTargets (withNodeId childId childData))
                    (filter (\<lambda>(childId, childData).
                               childId \<noteq> ''nodesList'' \<and> childId \<noteq> ''lodsList'')
                       (ch_direct ch)))
          @ filter (\<lambda>i. i \<noteq> []) (case ch_nodesList ch of None \<Rightarrow> [] | Some l \<Rightarrow> l)
          @ concat (map (\<lambda>i. lodTargets (case graph i of None \<Rightarrow> None | Some d \<Rightarrow> nd_lodNodes d))
                      (case ch_lodsList ch of None \<Rightarrow> [] | Some l \<Rightarrow> l)))"

text \<open>
  A set of nodes is ranked when it is closed under references and every reference
  inside it leads to a node of smaller rank: the references reachable from its nodes
  form no cycle. A set of nodes is a trap when each of its nodes is described in the
  graph and refers to a node of the set: from any of its nodes a path of references
  never leaves it, as on a cycle.
\<close>

definition ranked :: "graphData \<Rightarrow> string set \<Rightarrow> (string \<Rightarrow> nat) \<Rightarrow> bool" where
  "ranked graph R rk =
     (\<forall>n nd t. n \<in> R \<and> graph n = Some nd \<and> t \<in> set (references graph nd)
        \<longrightarrow> t \<in> R \<and> rk t < rk n)"

definition trap :: "graphData \<Rightarrow> string set \<Rightarrow> bool" where
  "trap graph B =
     (\<forall>n. n \<in> B \<longrightarrow> (\<exists>nd t. graph n = Some nd \<and> t \<in> set (references graph nd) \<and> t \<in> B))"

text \<open>
  The identifiers the library generates hold digits, letters and hyphens; the
  properties below need only that they hold no underscore, so that a cache key
  determines the node id and the identifier it was built from.
\<close>

definition plainUuid :: "string \<Rightarrow> bool" where
  "plainUuid u = (CHR ''_'' \<notin> set u)"

definition plainUuids :: "env \<Rightarrow> parser \<Rightarrow> bool" where
  "plainUuids ev st =
     ((\<forall>i. plainUuid (env_uuid ev i))
      \<and> (\<forall>k mt. (k, mt) \<in> set (gp_materials st) \<longrightarrow> plainUuid (mat_uuid mt)))"

text \<open>No key of a node of \<open>B\<close> has been processed.\<close>

definition untouched :: "string set \<Rightarrow> parser \<Rightarrow> bool" where
  "untouched B st =
     (\<forall>n u. n \<in> B \<and> plainUuid u \<longrightarrow> n @ ''_'' @ u \<notin> gp_processedNodes st)"

text \<open>
  What the expansion of a node needs of the node in order to return, apart from the
  calls of \<open>createNode\<close> it makes: each primitive among its direct children has a geometry
  whose construction returns, and its \<open>materialref\<close> does not name an inherited member
  (a polygon under such a member throws when it clones it). A graph is buildable from a
  node when every node reachable from it is such.
\<close>

definition primitiveTypes :: "string list" where
  "primitiveTypes =
     [''rectangle'', ''triangle'', ''box'', ''cylinder'', ''sphere'', ''nurbs'', ''polygon'']"

definition geometryReturns :: "env \<Rightarrow> primitiveData \<Rightarrow> bool" where
  "geometryReturns ev pd =
     (if pd_type pd = ''polygon'' then polygonGeometry pd \<noteq> None
      else primitiveGeometry (env_lib ev) pd \<noteq> None)"

definition childReturns :: "env \<Rightarrow> childData \<Rightarrow> bool" where
  "childReturns ev childData =
     (cd_type childData \<in> set primitiveTypes \<longrightarrow>
        geometryReturns ev ((cd_primitive childData)\<lparr>pd_type := cd_type childData\<rparr>))"

definition nodeReturns :: "env \<Rightarrow> nodeData \<Rightarrow> bool" where
  "nodeReturns ev nodeData =
     ((truthyId (nd_materialref nodeData) \<longrightarrow> \<not> inherited (the (nd_materialref nodeData)))
      \<and> (case nd_children nodeData of
            None \<Rightarrow> True
          | Some ch \<Rightarrow> \<forall>(childId, childData) \<in> set (ch_direct ch). childReturns ev childData))"

text \<open>
  Two properties of a method \<open>createNode\<close> as the loops use it: it returns on the nodes of
  a set, from a registry of materials and under a material or none; and, for a trap
  \<open>B\<close>, a call that returns was not on a node of \<open>B\<close> and leaves the keys of \<open>B\<close>
  unprocessed.
\<close>

definition totalOn :: "createNodeFn \<Rightarrow> string set \<Rightarrow> bool" where
  "totalOn cn T =
     (\<forall>t st m c r. t \<in> T \<and> realRegistry st \<and> realOpt m \<longrightarrow> cn st t m c r \<noteq> None)"

definition trapInv :: "env \<Rightarrow> string set \<Rightarrow> parser \<Rightarrow> bool" where
  "trapInv ev B st = (untouched B st \<and> plainUuids ev st)"

definition avoids :: "env \<Rightarrow> string set \<Rightarrow> createNodeFn \<Rightarrow> bool" where
  "avoids ev B cn =
     (\<forall>st n m c r res st'.
        trapInv ev B st \<and> plainUuid (materialUUID m) \<and> cn st n m c r = Some (res, st')
        \<longrightarrow> trapInv ev B st' \<and> n \<notin> B)"

text \<open>
  What a node reference attaches for the node \<open>ref\<close> when the allocation counter stands
  at \<open>n\<close>: the deep clone, with the inherited material applied if there is one.
\<close>

definition attachedClone :: "obj3d \<Rightarrow> nat \<Rightarrow> material option \<Rightarrow> bool \<Rightarrow> bool \<Rightarrow> obj3d" where
  "attachedClone ref n parentMaterial parentCastShadow parentReceiveShadow =
     (case parentMaterial of
        None \<Rightarrow> fst (cloneObj ref n)
      | Some m \<Rightarrow>
          applyMaterialToNode (fst (cloneObj ref n)) m parentCastShadow parentReceiveShadow)"

text \<open>
  A method \<open>cn'\<close> extends \<open>cn\<close> when it returns what \<open>cn\<close> returns wherever \<open>cn\<close> returns.
\<close>

definition extends :: "createNodeFn \<Rightarrow> createNodeFn \<Rightarrow> bool" where
  "extends cn cn' = (\<forall>st n m c r x. cn st n m c r = Some x \<longrightarrow> cn' st n m c r = Some x)"

text \<open>
  The relation itself: a node of the graph is related to the nodes it refers to. The graph
  is acyclic from a node when no node reachable from it is reachable from itself. The
  number of nodes reachable from a node serves as its rank.
\<close>

definition refRel :: "graphData \<Rightarrow> (string \<times> string) set" where
  "refRel graph = {(n, t). \<exists>nd. graph n = Some nd \<and> t \<in> set (references graph nd)}"

definition acyclicFrom :: "graphData \<Rightarrow> string \<Rightarrow> bool" where
  "acyclicFrom graph rootid =
     (\<forall>t. (rootid, t) \<in> (refRel graph)\<^sup>* \<longrightarrow> (t, t) \<notin> (refRel graph)\<^sup>+)"

definition reachesCycle :: "graphData \<Rightarrow> string set" where
  "reachesCycle graph =
     {n. \<exists>x. (n, x) \<in> (refRel graph)\<^sup>* \<and> (x, x) \<in> (refRel graph)\<^sup>+}"

definition reachCount :: "graphData \<Rightarrow> string \<Rightarrow> nat" where
  "reachCount graph n = card {s. (n, s) \<in> (refRel graph)\<^sup>+}"

definition buildable :: "env \<Rightarrow> graphData \<Rightarrow> string \<Rightarrow> bool" where
  "buildable ev graph n =
     (\<forall>t nd. (n, t) \<in> (refRel graph)\<^sup>* \<and> graph t = Some nd \<longrightarrow> nodeReturns ev nd)"

subsection \<open>Examples\<close>

text \<open>
  An environment, the parser state before the graph is parsed, and two graphs: one whose
  root holds a polygon and refers to a node that refers to a leaf, and one whose only node
  lists itself in its \<open>nodesList\<close>.
\<close>

definition exampleEnv :: env where
  "exampleEnv =
     \<lparr>env_lib = (\<lambda>p. Some []),
      env_app = \<lparr>defaultMaterial = texturedMaterial 1 1,
                 defaultMaterialVertex = texturedMaterial 1 1\<rparr>,
      env_uuid = (\<lambda>i. ''clone-'' @ showNat i)\<rparr>"

definition emptyParser :: parser where
  "emptyParser =
     \<lparr>gp_materials = [], gp_textures = Map.empty, gp_processedNodes = {},
      gp_nodes = Map.empty, gp_nextId = 0, gp_cloned = 0\<rparr>"

definition nodeWithList :: "string list \<Rightarrow> nodeData" where
  "nodeWithList l =
     plainNode\<lparr>nd_children := Some \<lparr>ch_direct = [], ch_nodesList = Some l, ch_lodsList = None\<rparr>\<rparr>"

text \<open>
  A polygon child with the given numbers of stacks and slices, and a node that holds it
  and lists the given nodes.
\<close>

definition polygonChild :: "jsval \<Rightarrow> jsval \<Rightarrow> childData" where
  "polygonChild stacks slices =
     \<lparr>cd_type = ''polygon'', cd_nodeId = None, cd_lodNodes = None, cd_transforms = None,
      cd_primitive = (plainPrimitive ''polygon'')\<lparr>pd_stacks := stacks, pd_slices := slices\<rparr>,
      cd_light = plainLight ''polygon''\<rparr>"

definition discNode :: "jsval \<Rightarrow> jsval \<Rightarrow> string list \<Rightarrow> nodeData" where
  "discNode stacks slices l =
     plainNode\<lparr>nd_children :=
                 Some \<lparr>ch_direct = [(''disc'', polygonChild stacks slices)],
                       ch_nodesList = Some l, ch_lodsList = None\<rparr>\<rparr>"

definition treeGraph :: graphData where
  "treeGraph =
     graphLookup (Some ''root'')
       [(''root'', discNode (JNum (Fin 1)) (JNum (Fin 2)) [''pair'']),
        (''pair'', nodeWithList [''leaf'']),
        (''leaf'', plainNode)]"

definition loopGraph :: graphData where
  "loopGraph = graphLookup (Some ''loop'') [(''loop'', nodeWithList [''loop''])]"

text \<open>
  A graph of one node, which holds a polygon whose number of stacks is \<open>Infinity\<close> and
  whose number of slices is negative; and a graph of one node, which holds an ordinary
  polygon and names as its material \<open>constructor\<close>, a member every object inherits.
\<close>

definition discGraph :: graphData where
  "discGraph =
     graphLookup (Some ''scene'')
       [(''scene'', discNode (JStr ''Infinity'') (JNum (Fin (- 1))) [])]"

definition memberGraph :: graphData where
  "memberGraph =
     graphLookup (Some ''scene'')
       [(''scene'', (discNode (JNum (Fin 1)) (JNum (Fin 2)) [])
                      \<lparr>nd_materialref := Some ''constructor''\<rparr>)]"

definition treeRank :: "string \<Rightarrow> nat" where
  "treeRank n = (if n = ''root'' then 2 else if n = ''pair'' then 1 else 0)"

text \<open>
  The objects and states of a run on the first graph, from the state before the graph is
  parsed. The group of \<open>pair\<close> without material is the first object built; it holds a
  clone of the group of \<open>leaf\<close>. Then \<open>pair\<close> is built under the material \<open>planks\<close>, and
  then under a material with another identifier. The last object is the clone a node
  reference to \<open>pair\<close> under \<open>planks\<close> attaches to its parent.
\<close>

definition leafObj :: "nat \<Rightarrow> material option \<Rightarrow> obj3d" where
  "leafObj i m = Obj i (GroupP m) newPlacement False False []"

definition pairObj :: obj3d where
  "pairObj = Obj 0 (GroupP None) newPlacement False False [leafObj 2 None]"

definition pairExpanded :: parser where
  "pairExpanded =
     emptyParser\<lparr>gp_processedNodes := {''leaf_null''},
                 gp_nodes := [''leaf_null'' \<mapsto> leafObj 1 None],
                 gp_nextId := 3\<rparr>"

definition pairState :: parser where
  "pairState =
     emptyParser\<lparr>gp_processedNodes := {''pair_null'', ''leaf_null''},
                 gp_nodes := [''leaf_null'' \<mapsto> leafObj 1 None, ''pair_null'' \<mapsto> pairObj],
                 gp_nextId := 3\<rparr>"

definition planks :: material where
  "planks = texturedMaterial 1 1"

definition oak :: material where
  "oak = planks\<lparr>mat_uuid := ''oak-uuid''\<rparr>"

definition pairObj2 :: obj3d where
  "pairObj2 = Obj 3 (GroupP (Some planks)) newPlacement False False [leafObj 5 (Some planks)]"

definition pairState2 :: parser where
  "pairState2 =
     emptyParser\<lparr>gp_processedNodes :=
                   {''pair_planks-uuid'', ''leaf_planks-uuid'', ''pair_null'', ''leaf_null''},
                 gp_nodes := [''leaf_null'' \<mapsto> leafObj 1 None, ''pair_null'' \<mapsto> pairObj,
                              ''leaf_planks-uuid'' \<mapsto> leafObj 4 (Some planks),
                              ''pair_planks-uuid'' \<mapsto> pairObj2],
                 gp_nextId := 6\<rparr>"

definition pairObj3 :: obj3d where
  "pairObj3 = Obj 6 (GroupP (Some oak)) newPlacement False False [leafObj 8 (Some oak)]"

definition pairState3 :: parser where
  "pairState3 =
     emptyParser\<lparr>gp_processedNodes :=
                   {''pair_oak-uuid'', ''leaf_oak-uuid'', ''pair_planks-uuid'',
                    ''leaf_planks-uuid'', ''pair_null'', ''leaf_null''},
                 gp_nodes := [''leaf_null'' \<mapsto> leafObj 1 None, ''pair_null'' \<mapsto> pairObj,
                              ''leaf_planks-uuid'' \<mapsto> leafObj 4 (Some planks),
                              ''pair_planks-uuid'' \<mapsto> pairObj2,
                              ''leaf_oak-uuid'' \<mapsto> leafObj 7 (Some oak),
                              ''pair_oak-uuid'' \<mapsto> pairObj3],
                 gp_nextId := 9\<rparr>"

text \<open>The state after a call for \<open>leaf\<close> under the second material, made from \<open>pairState2\<close>.\<close>

definition leafState :: parser where
  "leafState =
     pairState2\<lparr>gp_processedNodes := insert ''leaf_oak-uuid'' (gp_processedNodes pairState2),
                gp_nodes := (gp_nodes pairState2)(''leaf_oak-uuid'' \<mapsto> leafObj 6 (Some oak)),
                gp_nextId := 7\<rparr>"

definition pairClone :: obj3d where
  "pairClone = Obj 6 (GroupP (Some planks)) newPlacement False False [leafObj 7 (Some planks)]"

section \<open>Verified properties\<close>

subsection \<open>Scalar validators\<close>

text \<open>
  The claim C4 as the specification words it (every out-of-range opacity is replaced by
  the default) fails on the code: \<open>toValidOpacity\<close> clamps. With the default 0.5, the
  opacity 2 becomes 1.
\<close>

theorem toValidOpacity_clamps_counterexample:
  "jgt (Fin 2) (Fin 1)
   \<and> toValidOpacity (JNum (Fin 2)) (Fin (1 / 2)) = Fin 1
   \<and> toValidOpacity (JNum (Fin 2)) (Fin (1 / 2)) \<noteq> Fin (1 / 2)"
  by (simp add: toValidOpacity_def isNaN_def Math_max_def Math_min_def jgt_def)

text \<open>
  C4 (amended). For every input that parses to an out-of-range number, the penumbra
  validator (range 0 to 1) and the decay validator (range 0 to 2) return their default,
  while \<open>toValidOpacity\<close> clamps to the nearest bound: below 0 it returns 0 and above 1
  it returns 1, whatever the default.
\<close>

theorem validators_out_of_range:
  assumes "parseFloat v = n"
  shows "(jlt n (Fin 0) \<longrightarrow> toValidOpacity v d = Fin 0)
       \<and> (jgt n (Fin 1) \<longrightarrow> toValidOpacity v d = Fin 1)
       \<and> (jlt n (Fin 0) \<or> jgt n (Fin 1) \<longrightarrow> validatePenumbra v d = d)
       \<and> (jlt n (Fin 0) \<or> jgt n (Fin 2) \<longrightarrow> validateDecay v d = d)"
  using assms
  by (cases n)
     (auto simp: toValidOpacity_def validatePenumbra_def validateDecay_def toValidFloat_def
         isNaN_def Math_max_def Math_min_def jgt_def Let_def)

theorem validators_out_of_range_witness:
  "parseFloat (JNum (Fin (- 1))) = Fin (- 1) \<and> jlt (Fin (- 1)) (Fin 0)
   \<and> toValidOpacity (JNum (Fin (- 1))) (Fin (1 / 2)) = Fin 0
   \<and> validatePenumbra (JNum (Fin (- 1))) (Fin (1 / 5)) = Fin (1 / 5)
   \<and> validateDecay (JNum (Fin (- 1))) (Fin 2) = Fin 2
   \<and> parseFloat (JNum (Fin 3)) = Fin 3 \<and> jgt (Fin 3) (Fin 1) \<and> jgt (Fin 3) (Fin 2)
   \<and> toValidOpacity (JNum (Fin 3)) (Fin (1 / 2)) = Fin 1
   \<and> validatePenumbra (JNum (Fin 3)) (Fin (1 / 5)) = Fin (1 / 5)
   \<and> validateDecay (JNum (Fin 3)) (Fin 1) = Fin 1"
  using validators_out_of_range [of "JNum (Fin (- 1))" "Fin (- 1)" "Fin (1 / 2)"]
        validators_out_of_range [of "JNum (Fin (- 1))" "Fin (- 1)" "Fin (1 / 5)"]
        validators_out_of_range [of "JNum (Fin (- 1))" "Fin (- 1)" "Fin 2"]
        validators_out_of_range [of "JNum (Fin 3)" "Fin 3" "Fin (1 / 2)"]
        validators_out_of_range [of "JNum (Fin 3)" "Fin 3" "Fin (1 / 5)"]
        validators_out_of_range [of "JNum (Fin 3)" "Fin 3" "Fin 1"]
  by (simp add: jgt_def)

text \<open>
  The claim C5 as the specification words it (two non-zero bounds of the same sign are
  replaced by the defaults) fails on the code: the pair (3, 7) with the defaults (-5, 5)
  becomes (-3, 7), by either validator.
\<close>

theorem axis_pair_same_sign_counterexample:
  "jgt (Fin 3) (Fin 0) \<and> jgt (Fin 7) (Fin 0)
   \<and> validateLeftRight (Fin 3) (Fin 7) (Fin (- 5)) (Fin 5) = (Fin (- 3), Fin 7)
   \<and> validateLeftRight (Fin 3) (Fin 7) (Fin (- 5)) (Fin 5) \<noteq> (Fin (- 5), Fin 5)
   \<and> validateBottomTop (Fin 3) (Fin 7) (Fin (- 5)) (Fin 5) = (Fin (- 3), Fin 7)
   \<and> validateBottomTop (Fin 3) (Fin 7) (Fin (- 5)) (Fin 5) \<noteq> (Fin (- 5), Fin 5)"
  by (simp add: validateLeftRight_def validateBottomTop_def strictEqNum_def jgt_def jge_def)

text \<open>
  C5 (amended). For every pair given to \<open>validateLeftRight\<close> or \<open>validateBottomTop\<close>: if
  either value is exactly zero, both are replaced by the defaults; if both are below
  zero or both above zero, the magnitudes are kept, the first negated and the second
  made positive; and a pair whose first value is below zero and whose second is above
  zero is returned as it is, which is the same normal form.
\<close>

theorem axis_pair:
  "(strictEqNum lo (Fin 0) \<or> strictEqNum hi (Fin 0) \<longrightarrow>
      validateLeftRight lo hi dl dh = (dl, dh) \<and> validateBottomTop lo hi dl dh = (dl, dh))
 \<and> ((jlt lo (Fin 0) \<and> jlt hi (Fin 0)) \<or> (jgt lo (Fin 0) \<and> jgt hi (Fin 0)) \<longrightarrow>
      validateLeftRight lo hi dl dh = (jneg (Math_abs lo), Math_abs hi)
    \<and> validateBottomTop lo hi dl dh = (jneg (Math_abs lo), Math_abs hi))
 \<and> (jlt lo (Fin 0) \<and> jgt hi (Fin 0) \<longrightarrow>
      validateLeftRight lo hi dl dh = (lo, hi) \<and> validateBottomTop lo hi dl dh = (lo, hi)
    \<and> (lo, hi) = (jneg (Math_abs lo), Math_abs hi))"
  by (cases lo; cases hi)
     (auto simp: validateLeftRight_def validateBottomTop_def strictEqNum_def jgt_def jge_def)

theorem axis_pair_witness:
  "strictEqNum (Fin 0) (Fin 0)
   \<and> validateLeftRight (Fin 0) (Fin 5) (Fin (- 5)) (Fin 5) = (Fin (- 5), Fin 5)
   \<and> validateBottomTop (Fin 0) (Fin 5) (Fin (- 5)) (Fin 5) = (Fin (- 5), Fin 5)
   \<and> jlt (Fin (- 3)) (Fin 0) \<and> jlt (Fin (- 7)) (Fin 0)
   \<and> validateLeftRight (Fin (- 3)) (Fin (- 7)) (Fin (- 5)) (Fin 5) = (Fin (- 3), Fin 7)
   \<and> validateBottomTop (Fin (- 3)) (Fin (- 7)) (Fin (- 5)) (Fin 5) = (Fin (- 3), Fin 7)
   \<and> jgt (Fin 7) (Fin 0)
   \<and> validateLeftRight (Fin (- 3)) (Fin 7) (Fin (- 5)) (Fin 5) = (Fin (- 3), Fin 7)
   \<and> validateBottomTop (Fin (- 3)) (Fin 7) (Fin (- 5)) (Fin 5) = (Fin (- 3), Fin 7)"
proof -
  have zero: "validateLeftRight (Fin 0) (Fin 5) (Fin (- 5)) (Fin 5) = (Fin (- 5), Fin 5)
      \<and> validateBottomTop (Fin 0) (Fin 5) (Fin (- 5)) (Fin 5) = (Fin (- 5), Fin 5)"
    using axis_pair [of "Fin 0" "Fin 5" "Fin (- 5)" "Fin 5"]
    by (simp add: strictEqNum_def)
  have same: "validateLeftRight (Fin (- 3)) (Fin (- 7)) (Fin (- 5)) (Fin 5) = (Fin (- 3), Fin 7)
      \<and> validateBottomTop (Fin (- 3)) (Fin (- 7)) (Fin (- 5)) (Fin 5) = (Fin (- 3), Fin 7)"
    using axis_pair [of "Fin (- 3)" "Fin (- 7)" "Fin (- 5)" "Fin 5"]
    by (simp add: strictEqNum_def jgt_def)
  have opposite: "validateLeftRight (Fin (- 3)) (Fin 7) (Fin (- 5)) (Fin 5) = (Fin (- 3), Fin 7)
      \<and> validateBottomTop (Fin (- 3)) (Fin 7) (Fin (- 5)) (Fin 5) = (Fin (- 3), Fin 7)"
    using axis_pair [of "Fin (- 3)" "Fin 7" "Fin (- 5)" "Fin 5"]
    by (simp add: strictEqNum_def jgt_def)
  show ?thesis
    using zero same opposite by (simp add: strictEqNum_def jgt_def)
qed

text \<open>
  The claim C6 as the specification words it (any other string falls back to the
  default) fails on the code: with the default \<open>true\<close>, which \<open>createLight\<close> passes for
  \<open>enabled\<close>, the string \<open>yes\<close> and the number 0 both give \<open>false\<close>.
\<close>

theorem parseBoolean_string_counterexample:
  "toLowerCase ''yes'' \<noteq> ''true'' \<and> toLowerCase ''yes'' \<noteq> ''1''
   \<and> parseBoolean (JStr ''yes'') True \<noteq> True
   \<and> parseBoolean (JNum (Fin 0)) True \<noteq> True"
  by (simp add: toLowerCase_def toLowerChar_def strictEqNum_def)

text \<open>
  C6 (amended). \<open>parseBoolean\<close> returns the supplied default exactly for the values that
  are neither a boolean, nor a string, nor a number. A string other than \<open>true\<close> and
  \<open>1\<close> (compared in lower case) gives \<open>false\<close> whatever the default, the number zero
  gives \<open>false\<close> whatever the default, and every other number gives \<open>true\<close>.
\<close>

theorem parseBoolean_fallback:
  "((\<forall>b. v \<noteq> JBool b) \<and> (\<forall>s. v \<noteq> JStr s) \<and> (\<forall>n. v \<noteq> JNum n) \<longrightarrow> parseBoolean v d = d)
 \<and> (toLowerCase s \<noteq> ''true'' \<and> toLowerCase s \<noteq> ''1'' \<longrightarrow> parseBoolean (JStr s) d = False)
 \<and> parseBoolean (JNum (Fin 0)) d = False
 \<and> (n \<noteq> Fin 0 \<longrightarrow> parseBoolean (JNum n) d = True)"
  by (cases v) (auto simp: strictEqNum_def)

theorem parseBoolean_fallback_witness:
  "parseBoolean JUndefined True = True \<and> parseBoolean JNull True = True
   \<and> toLowerCase ''No'' \<noteq> ''true'' \<and> toLowerCase ''No'' \<noteq> ''1''
   \<and> parseBoolean (JStr ''No'') True = False
   \<and> parseBoolean (JNum (Fin 0)) True = False
   \<and> Fin 2 \<noteq> Fin 0 \<and> parseBoolean (JNum (Fin 2)) False = True"
  using parseBoolean_fallback [of JUndefined True "''No''" "Fin 2"]
        parseBoolean_fallback [of JNull True "''No''" "Fin 2"]
        parseBoolean_fallback [of JNull False "''No''" "Fin 2"]
  by (simp add: toLowerCase_def toLowerChar_def)

subsection \<open>Lights\<close>

lemma toValidFloat_not_NaN: "d \<noteq> NaN \<Longrightarrow> toValidFloat v d \<noteq> NaN"
  by (simp add: toValidFloat_def isNaN_def Let_def)

lemma neg_branch_le: "a \<noteq> NaN \<Longrightarrow> jle (if jgt a (Fin 0) then jneg (Math_abs a) else a) (Fin 0)"
  by (cases a) (auto simp: jgt_def)

lemma pos_branch_ge: "a \<noteq> NaN \<Longrightarrow> jge (if jlt a (Fin 0) then Math_abs a else a) (Fin 0)"
  by (cases a) (auto simp: jge_def)

lemma neg_abs_pos: "jgt a (Fin 0) \<Longrightarrow> jneg (Math_abs a) = jneg a"
  by (cases a) (auto simp: jgt_def)

text \<open>
  C9. For every declaration of type \<open>directionallight\<close>, \<open>createLight\<close> returns a light
  group (it never rejects the declaration), and the shadow camera of its light has
  \<open>left\<close> and \<open>bottom\<close> at most zero and \<open>right\<close> and \<open>top\<close> at least zero: a positive
  \<open>left\<close> or \<open>bottom\<close> is negated, a negative \<open>right\<close> or \<open>top\<close> is replaced by its
  absolute value, every other input is kept, and the console receives exactly one
  warning for each bound that was corrected.
\<close>

theorem directional_light_bounds:
  assumes "ld_type d = ''directionallight''"
  shows "\<exists>g cam ws.
      createLight d lightId = (Some g, ws)
    \<and> li_class (lg_light g) = DirectionalLight cam
    \<and> jle (cam_left cam) (Fin 0) \<and> jge (cam_right cam) (Fin 0)
    \<and> jle (cam_bottom cam) (Fin 0) \<and> jge (cam_top cam) (Fin 0)
    \<and> cam_left cam = (let v = toValidFloat (ld_shadowleft d) (Fin (- 5)) in
                       if jgt v (Fin 0) then jneg v else v)
    \<and> cam_right cam = (let v = toValidFloat (ld_shadowright d) (Fin 5) in
                        if jlt v (Fin 0) then Math_abs v else v)
    \<and> cam_bottom cam = (let v = toValidFloat (ld_shadowbottom d) (Fin (- 5)) in
                         if jgt v (Fin 0) then jneg v else v)
    \<and> cam_top cam = (let v = toValidFloat (ld_shadowtop d) (Fin 5) in
                      if jlt v (Fin 0) then Math_abs v else v)
    \<and> ws = (let v = toValidFloat (ld_shadowleft d) (Fin (- 5)) in
             if jgt v (Fin 0) then [CorrectingShadowLeft v] else [])
          @ (let v = toValidFloat (ld_shadowright d) (Fin 5) in
             if jlt v (Fin 0) then [CorrectingShadowRight v] else [])
          @ (let v = toValidFloat (ld_shadowbottom d) (Fin (- 5)) in
             if jgt v (Fin 0) then [CorrectingShadowBottom v] else [])
          @ (let v = toValidFloat (ld_shadowtop d) (Fin 5) in
             if jlt v (Fin 0) then [CorrectingShadowTop v] else [])"
proof -
  have a: "toValidFloat (ld_shadowleft d) (Fin (- 5)) \<noteq> NaN"
    and b: "toValidFloat (ld_shadowright d) (Fin 5) \<noteq> NaN"
    and c: "toValidFloat (ld_shadowbottom d) (Fin (- 5)) \<noteq> NaN"
    and e: "toValidFloat (ld_shadowtop d) (Fin 5) \<noteq> NaN"
    by (simp_all add: toValidFloat_not_NaN)
  have ty: "lightOfType d
      = (Some (DirectionalLight (fst (directionalShadow d))), snd (directionalShadow d))"
    using assms by (simp add: lightOfType_def)
  show ?thesis
    using neg_branch_le [OF a] pos_branch_ge [OF b] neg_branch_le [OF c] pos_branch_ge [OF e]
    by (simp add: createLight_def ty directionalShadow_def validateShadowProperty_def Let_def
          neg_abs_pos)
qed

theorem directional_light_bounds_witness:
  "ld_type sunLight = ''directionallight''
   \<and> (\<exists>g cam. createLight sunLight ''sun''
                 = (Some g, [CorrectingShadowLeft (Fin 3), CorrectingShadowRight (Fin (- 4))])
        \<and> li_class (lg_light g) = DirectionalLight cam
        \<and> cam_left cam = Fin (- 3) \<and> cam_right cam = Fin 4
        \<and> cam_bottom cam = Fin (- 5) \<and> cam_top cam = Fin 6)"
proof -
  have ty: "ld_type sunLight = ''directionallight''"
    by (simp add: sunLight_def)
  show ?thesis
    using directional_light_bounds [OF ty, of "''sun''"]
    by (simp add: sunLight_def toValidFloat_def isNaN_def jgt_def Let_def) blast
qed

subsection \<open>Materials\<close>

lemma MyMaterials_id: "mm_materialId (MyMaterials k md t) = k"
  by (simp add: MyMaterials_def)

lemma pendingMaterials_append:
  "pendingMaterials (xs @ ys) = pendingMaterials xs @ pendingMaterials ys"
  by (induction xs rule: pendingMaterials.induct) simp_all

lemma skippedIds_append: "skippedIds (xs @ ys) = skippedIds xs @ skippedIds ys"
  by (induction xs rule: skippedIds.induct) simp_all

lemma textureLookups_none:
  "pendingMaterials (textureLookups k md t) = []" "skippedIds (textureLookups k md t) = []"
  by (simp_all add: textureLookups_def)

lemma materialsLoop_pending_valid:
  "m \<in> set (pendingMaterials (materialsLoop materials textures mds)) \<Longrightarrow>
     isValid m \<and> (\<exists>k md. (k, md) \<in> set mds \<and> m = MyMaterials k md textures)"
proof (induction mds)
  case Nil
  then show ?case by simp
next
  case (Cons p mds)
  obtain k md where p: "p = (k, md)" by (cases p)
  show ?case
  proof (cases "m \<in> set (pendingMaterials (materialsLoop materials textures mds))")
    case True
    with Cons.IH show ?thesis by auto
  next
    case False
    with Cons.prems p have "m = MyMaterials k md textures \<and> isValid m"
      by (auto simp: pendingMaterials_append textureLookups_none split: if_splits)
    with p show ?thesis by auto
  qed
qed

lemma settleMaterials_other:
  "k \<notin> mm_materialId ` set ms \<Longrightarrow>
     map_of (fst (settleMaterials uuidOf (materials, textures) ms)) k = map_of materials k"
  by (induction ms arbitrary: materials textures)
     (auto simp: update_conv' split: prod.splits)

lemma materialsLoop_skipped:
  "(k, md) \<in> set mds \<Longrightarrow> k \<noteq> [] \<Longrightarrow> registryLookup materials k = None \<Longrightarrow>
   \<not> isValid (MyMaterials k md textures) \<Longrightarrow>
   \<exists>pre post. materialsLoop materials textures mds
      = pre @ textureLookups k md textures @ [Skipped k] @ post"
proof (induction mds)
  case Nil
  then show ?case by simp
next
  case (Cons p mds)
  obtain k' md' where p: "p = (k', md')" by (cases p)
  show ?case
  proof (cases "(k, md) \<in> set mds")
    case True
    with Cons obtain pre post where
      "materialsLoop materials textures mds = pre @ textureLookups k md textures @ [Skipped k] @ post"
      by blast
    then have "materialsLoop materials textures (p # mds)
        = (materialsLoop materials textures [p] @ pre)
          @ textureLookups k md textures @ [Skipped k] @ post"
      by (simp add: p)
    then show ?thesis by blast
  next
    case False
    with Cons.prems p have e: "k' = k" "md' = md" by auto
    with Cons.prems p have "materialsLoop materials textures (p # mds)
        = [] @ textureLookups k md textures @ [Skipped k] @ materialsLoop materials textures mds"
      by simp
    then show ?thesis by blast
  qed
qed

lemma skipped_segment:
  "es = pre @ textureLookups k md t @ [Skipped k] @ post \<Longrightarrow> k \<in> set (skippedIds es)"
  by (simp add: skippedIds_append textureLookups_none)

text \<open>
  The claim C8 as the specification words it (an entry whose shininess parses to a
  negative number is skipped before any texture resolution) fails. The constructor of
  \<open>MyMaterials\<close> calls \<open>getTexture\<close> for the three references of the entry, and
  \<open>materialsRendering\<close> constructs the object before it asks \<open>isValid()\<close>: for the entry
  \<open>dull\<close> with shininess -1 and the texture reference \<open>wood\<close>, the loop looks up \<open>wood\<close>,
  finds it, and only then skips the entry.
\<close>

theorem texture_lookups_precede_skip_counterexample:
  "jlt (toValidFloat (md_shininess dullTextured) (Fin 30)) (Fin 0)
   \<and> materialsLoop [] woodStore [(''dull'', dullTextured)]
       = [TextureLookup ''dull'' (Some ''wood'') (Some ''wood''),
          TextureLookup ''dull'' None None,
          TextureLookup ''dull'' None None,
          Skipped ''dull'']"
  by (simp add: dullTextured_def plainMaterialData_def toValidFloat_def isNaN_def
        registryLookup_def inherited_def objectPrototypeKeys_def textureLookups_def
        getTexture_def woodStore_def isValid_def MyMaterials_def jge_def)

text \<open>
  C8 (amended). Let \<open>materialsData\<close> be a materials section (an object: its keys are
  distinct) with an entry whose shininess parses to a negative number. Then \<open>isValid()\<close>
  is false for the entry, \<open>createThreeMaterialAsync\<close> is called on no object of that id,
  and the materials phase leaves the registry as it was under that id: it adds no such
  key. When the loop does not pass the entry over (the id is not empty and
  \<open>this.materials[id]\<close> is falsy, inherited members included), it makes the three
  texture lookups of the constructor and then skips the entry with a warning.
\<close>

theorem negative_shininess_skipped:
  assumes "distinct (map fst materialsData)"
    and "(materialId, md) \<in> set materialsData"
    and "jlt (toValidFloat (md_shininess md) (Fin 30)) (Fin 0)"
  shows "\<not> isValid (MyMaterials materialId md textures)
       \<and> materialId
           \<notin> mm_materialId ` set (pendingMaterials (materialsLoop materials textures materialsData))
       \<and> map_of (fst (fst (materialsRendering uuidOf materials textures materialsData))) materialId
           = map_of materials materialId
       \<and> (materialId \<noteq> [] \<and> registryLookup materials materialId = None \<longrightarrow>
            materialId \<in> set (snd (materialsRendering uuidOf materials textures materialsData))
            \<and> (\<exists>pre post. materialsLoop materials textures materialsData
                  = pre @ textureLookups materialId md textures @ [Skipped materialId] @ post))"
proof -
  have inv: "\<not> isValid (MyMaterials materialId md textures)"
    using assms(3)
    by (cases "toValidFloat (md_shininess md) (Fin 30)")
       (auto simp: isValid_def MyMaterials_def jge_def)
  have nomem: "mm_materialId m \<noteq> materialId"
    if m: "m \<in> set (pendingMaterials (materialsLoop materials textures materialsData))" for m
  proof
    assume eq: "mm_materialId m = materialId"
    from materialsLoop_pending_valid [OF m] obtain k' md' where
      v: "isValid m" and mem: "(k', md') \<in> set materialsData"
      and mdef: "m = MyMaterials k' md' textures"
      by blast
    from eq mdef have k': "k' = materialId" by (simp add: MyMaterials_id)
    with assms(1) assms(2) mem have "md' = md"
      by (metis eq_key_imp_eq_value)
    with v mdef k' inv show False by simp
  qed
  have ne: "materialsData \<noteq> []" using assms(2) by auto
  have a: "materialId
      \<notin> mm_materialId ` set (pendingMaterials (materialsLoop materials textures materialsData))"
    using nomem by blast
  have b: "map_of (fst (fst (materialsRendering uuidOf materials textures materialsData)))
             materialId = map_of materials materialId"
    using ne settleMaterials_other [OF a] by (simp add: materialsRendering_def)
  have c: "materialId \<noteq> [] \<and> registryLookup materials materialId = None \<longrightarrow>
            materialId \<in> set (snd (materialsRendering uuidOf materials textures materialsData))
            \<and> (\<exists>pre post. materialsLoop materials textures materialsData
                  = pre @ textureLookups materialId md textures @ [Skipped materialId] @ post)"
  proof (intro impI)
    assume h: "materialId \<noteq> [] \<and> registryLookup materials materialId = None"
    then obtain pre post where
      seg: "materialsLoop materials textures materialsData
              = pre @ textureLookups materialId md textures @ [Skipped materialId] @ post"
      using materialsLoop_skipped [OF assms(2) _ _ inv] by blast
    from skipped_segment [OF seg] ne
    have "materialId \<in> set (snd (materialsRendering uuidOf materials textures materialsData))"
      by (simp add: materialsRendering_def)
    with seg show "materialId \<in> set (snd (materialsRendering uuidOf materials textures materialsData))
            \<and> (\<exists>pre post. materialsLoop materials textures materialsData
                  = pre @ textureLookups materialId md textures @ [Skipped materialId] @ post)"
      by blast
  qed
  from inv a b c show ?thesis by blast
qed

lemma example_loop:
  "materialsLoop [] Map.empty exampleMaterials
     = textureLookups ''wood'' (plainMaterialData\<lparr>md_shininess := JNum (Fin 10)\<rparr>) Map.empty
       @ [Created (MyMaterials ''wood'' (plainMaterialData\<lparr>md_shininess := JNum (Fin 10)\<rparr>)
                     Map.empty)]
       @ textureLookups ''dull'' (plainMaterialData\<lparr>md_shininess := JNum (Fin (- 1))\<rparr>) Map.empty
       @ [Skipped ''dull'']"
  by (simp add: exampleMaterials_def registryLookup_def inherited_def objectPrototypeKeys_def
        isValid_def MyMaterials_def plainMaterialData_def toValidFloat_def isNaN_def jge_def)

theorem negative_shininess_skipped_witness:
  "distinct (map fst exampleMaterials)
   \<and> (''dull'', plainMaterialData\<lparr>md_shininess := JNum (Fin (- 1))\<rparr>) \<in> set exampleMaterials
   \<and> toValidFloat (JNum (Fin (- 1))) (Fin 30) = Fin (- 1)
   \<and> \<not> isValid (MyMaterials ''dull'' (plainMaterialData\<lparr>md_shininess := JNum (Fin (- 1))\<rparr>)
                  Map.empty)
   \<and> registryLookup [] ''dull'' = None
   \<and> map_of (fst (fst (materialsRendering (\<lambda>k. k) [] Map.empty exampleMaterials))) ''dull'' = None
   \<and> ''wood'' \<in> fst ` set (fst (fst (materialsRendering (\<lambda>k. k) [] Map.empty exampleMaterials)))
   \<and> ''dull'' \<in> set (snd (materialsRendering (\<lambda>k. k) [] Map.empty exampleMaterials))
   \<and> materialsLoop [] Map.empty exampleMaterials
       = textureLookups ''wood'' (plainMaterialData\<lparr>md_shininess := JNum (Fin 10)\<rparr>) Map.empty
         @ [Created (MyMaterials ''wood'' (plainMaterialData\<lparr>md_shininess := JNum (Fin 10)\<rparr>)
                       Map.empty)]
         @ textureLookups ''dull'' (plainMaterialData\<lparr>md_shininess := JNum (Fin (- 1))\<rparr>)
             Map.empty
         @ [Skipped ''dull'']"
proof -
  have d: "distinct (map fst exampleMaterials)"
    by (simp add: exampleMaterials_def)
  have m: "(''dull'', plainMaterialData\<lparr>md_shininess := JNum (Fin (- 1))\<rparr>)
             \<in> set exampleMaterials"
    by (simp add: exampleMaterials_def)
  have v: "toValidFloat (JNum (Fin (- 1))) (Fin 30) = Fin (- 1)"
    by (simp add: toValidFloat_def isNaN_def)
  have s: "jlt (toValidFloat (md_shininess (plainMaterialData\<lparr>md_shininess := JNum (Fin (- 1))\<rparr>))
                  (Fin 30)) (Fin 0)"
    by (simp add: v)
  have e: "registryLookup [] ''dull'' = None"
    by (simp add: registryLookup_def inherited_def objectPrototypeKeys_def)
  have w: "''wood''
             \<in> fst ` set (fst (fst (materialsRendering (\<lambda>k. k) [] Map.empty exampleMaterials)))"
  proof -
    have "exampleMaterials \<noteq> []" by (simp add: exampleMaterials_def)
    then show ?thesis
      by (simp add: materialsRendering_def example_loop pendingMaterials_append
            textureLookups_none rejected_def MyMaterials_def getTexture_def
            plainMaterialData_def createThreeMaterialAsync_def)
  qed
  note t = negative_shininess_skipped [OF d m s, of Map.empty "[]" "\<lambda>k. k"]
  from t have i: "\<not> isValid (MyMaterials ''dull''
      (plainMaterialData\<lparr>md_shininess := JNum (Fin (- 1))\<rparr>) Map.empty)" by blast
  from t have r: "map_of (fst (fst (materialsRendering (\<lambda>k. k) [] Map.empty exampleMaterials)))
      ''dull'' = None" by simp
  from t e have k: "''dull'' \<in> set (snd (materialsRendering (\<lambda>k. k) [] Map.empty exampleMaterials))"
    by blast
  from d m v i e r w k example_loop show ?thesis by blast
qed

subsection \<open>Transformations\<close>

lemma lastOfType_snoc:
  "lastOfType ty (ts @ [t]) = (if tr_type t = ty then Some t else lastOfType ty ts)"
  by (auto simp: lastOfType_def split: list.splits)

lemma applyTransformations_snoc:
  "applyTransformations g (ts @ [t]) = applyTransform (applyTransformations g ts) t"
  by (simp add: applyTransformations_def)

text \<open>
  The claim C2 as the specification words it (the operations compose, so that the group
  reflects every entry and not only the last of each type) fails on the code. Two
  translations, by (1, 0, 0) and then by (2, 0, 0), leave a new group exactly where the
  second one alone leaves it, at (2, 0, 0); and a translation followed by a scaling gives
  the same position as the scaling followed by the translation.
\<close>

theorem translate_overwrites_counterexample:
  "applyTransformations newPlacement
      [\<lparr>tr_type = ''translate'', tr_amount = numAmount 1 0 0\<rparr>,
       \<lparr>tr_type = ''translate'', tr_amount = numAmount 2 0 0\<rparr>]
   = applyTransformations newPlacement
      [\<lparr>tr_type = ''translate'', tr_amount = numAmount 2 0 0\<rparr>]
  \<and> pl_position (applyTransformations newPlacement
      [\<lparr>tr_type = ''translate'', tr_amount = numAmount 1 0 0\<rparr>,
       \<lparr>tr_type = ''translate'', tr_amount = numAmount 2 0 0\<rparr>])
     = \<lparr>v_x = Fin 2, v_y = Fin 0, v_z = Fin 0\<rparr>
  \<and> pl_position (applyTransformations newPlacement
      [\<lparr>tr_type = ''translate'', tr_amount = numAmount 1 0 0\<rparr>,
       \<lparr>tr_type = ''scale'', tr_amount = numAmount 2 2 2\<rparr>])
     = pl_position (applyTransformations newPlacement
      [\<lparr>tr_type = ''scale'', tr_amount = numAmount 2 2 2\<rparr>,
       \<lparr>tr_type = ''translate'', tr_amount = numAmount 1 0 0\<rparr>])"
  by (simp add: applyTransformations_def applyTransform_def newPlacement_def numAmount_def
        amountOf_def translateAmount_def scaleAmount_def toValidFloat_def isNaN_def)

text \<open>
  C2 (amended). \<open>applyTransformations\<close> visits the entries in declaration order, and each
  \<open>translate\<close>, \<open>rotate\<close> or \<open>scale\<close> entry overwrites the group's position, rotation or
  scale with its own validated amount. The resulting state is therefore given by the
  last entry of each type alone: the position is the amount of the last \<open>translate\<close>
  entry, the rotation that of the last \<open>rotate\<close> entry, the scale that of the last
  \<open>scale\<close> entry, and a field with no entry of its type keeps the value it had.
\<close>

theorem applyTransformations_last_wins:
  "applyTransformations g ts =
     \<lparr>pl_position = (case lastOfType ''translate'' ts of
                        None \<Rightarrow> pl_position g | Some t \<Rightarrow> translateAmount (tr_amount t)),
      pl_rotation = (case lastOfType ''rotate'' ts of
                        None \<Rightarrow> pl_rotation g | Some t \<Rightarrow> rotateAmount (tr_amount t)),
      pl_scale = (case lastOfType ''scale'' ts of
                        None \<Rightarrow> pl_scale g | Some t \<Rightarrow> scaleAmount (tr_amount t))\<rparr>"
proof (induction ts rule: rev_induct)
  case Nil
  show ?case by (simp add: applyTransformations_def lastOfType_def)
next
  case (snoc t ts)
  show ?case
    unfolding applyTransformations_snoc snoc.IH
    by (simp add: applyTransform_def lastOfType_snoc)
qed

theorem applyTransformations_last_wins_witness:
  "applyTransformations newPlacement
      [\<lparr>tr_type = ''translate'', tr_amount = numAmount 1 0 0\<rparr>,
       \<lparr>tr_type = ''rotate'', tr_amount = numAmount 90 0 0\<rparr>,
       \<lparr>tr_type = ''translate'', tr_amount = numAmount 2 5 0\<rparr>]
   = \<lparr>pl_position = \<lparr>v_x = Fin 2, v_y = Fin 5, v_z = Fin 0\<rparr>,
      pl_rotation = rotateAmount (numAmount 90 0 0),
      pl_scale = \<lparr>v_x = Fin 1, v_y = Fin 1, v_z = Fin 1\<rparr>\<rparr>"
  using applyTransformations_last_wins [of newPlacement
      "[\<lparr>tr_type = ''translate'', tr_amount = numAmount 1 0 0\<rparr>,
        \<lparr>tr_type = ''rotate'', tr_amount = numAmount 90 0 0\<rparr>,
        \<lparr>tr_type = ''translate'', tr_amount = numAmount 2 5 0\<rparr>]"]
  by (simp add: lastOfType_def newPlacement_def translateAmount_def numAmount_def amountOf_def
        toValidFloat_def isNaN_def)

subsection \<open>The texture-repeat pass of createPrimitive\<close>

lemmas num_simps = toValidFloat_def isNaN_def Math_max_def Math_min_def jsub_def orElse_def
  truthyNum_def numberOf_def infOfSign_def Let_def

lemma wood_map: "mat_map (texturedMaterial s t) = Some ''wood''"
  and wood_s: "mat_texlength_s (texturedMaterial s t) = Some (Fin s)"
  and wood_t: "mat_texlength_t (texturedMaterial s t) = Some (Fin t)"
  by (simp_all add: texturedMaterial_def createThreeMaterialAsync_def MyMaterials_def
        plainMaterialData_def getTexture_def woodStore_def toValidFloat_def isNaN_def)

text \<open>The flag is never set, so every kind that reaches the pass takes the bounding-box branch.\<close>

lemma box_repeat:
  "textureRepeat pd geom m =
     Some (orElse (jdiv (jsub (v_x (boxMax geom)) (v_x (boxMin geom)))
                        (numberOf (mat_texlength_s m))) (Fin 1),
           orElse (jdiv (jsub (v_y (boxMax geom)) (v_y (boxMin geom)))
                        (numberOf (mat_texlength_t m))) (Fin 1))"
  by (simp add: textureRepeat_def specialTextureHandling_def Let_def)

lemma createPrimitive_repeat:
  "pd_type pd \<noteq> ''polygon'' \<Longrightarrow> primitiveGeometry lib pd = Some (Some geom) \<Longrightarrow>
   mat_map m = Some ''wood'' \<Longrightarrow> tx ''wood'' = Some t \<Longrightarrow>
   woodRepeat (createPrimitive lib app u pd (Some m) (ms, tx)) = textureRepeat pd geom m"
  by (simp add: woodRepeat_def createPrimitive_def textureRepeatPass_def box_repeat)

lemma tri_geom: "triangleGeometry exampleTriangle =
    [\<lparr>v_x = Fin 0, v_y = Fin 0, v_z = Fin 0\<rparr>, \<lparr>v_x = Fin 4, v_y = Fin 0, v_z = Fin 0\<rparr>,
     \<lparr>v_x = Fin 0, v_y = Fin 2, v_z = Fin 0\<rparr>]"
  by (simp add: triangleGeometry_def exampleTriangle_def plainPrimitive_def numAmount_def
        amountOf_def optX_def optY_def optZ_def toValidFloat_def isNaN_def)

lemma tri_area: "triangleArea (triangleGeometry exampleTriangle) = Fin 4"
  by (simp add: tri_geom triangleArea_def vertexAt_def vsub_def cross_def vlength_def jsub_def)

lemma tri_type: "pd_type exampleTriangle = ''triangle''"
  by (simp add: exampleTriangle_def plainPrimitive_def)

lemma tri_textureRepeat:
  "textureRepeat exampleTriangle (triangleGeometry exampleTriangle) (texturedMaterial 1 1)
     = Some (Fin 4, Fin 2)"
  by (simp add: box_repeat tri_geom boxMin_def boxMax_def wood_s wood_t num_simps)

lemma rect_geom: "rectangleGeometry exampleRectangle =
    [\<lparr>v_x = Fin (- 1), v_y = Fin 1, v_z = Fin 0\<rparr>, \<lparr>v_x = Fin 1, v_y = Fin 1, v_z = Fin 0\<rparr>,
     \<lparr>v_x = Fin (- 1), v_y = Fin (- 1), v_z = Fin 0\<rparr>,
     \<lparr>v_x = Fin 1, v_y = Fin (- 1), v_z = Fin 0\<rparr>]"
  by (simp add: rectangleGeometry_def exampleRectangle_def plainPrimitive_def numAmount_def
        amountOf_def optX_def optY_def rectWidth_def rectHeight_def rectOffsetX_def
        rectOffsetY_def planeVertex_def translateVertex_def toValidFloat_def isNaN_def jsub_def)

lemma plain_type: "pd_type (plainPrimitive ty) = ty"
  by (simp add: plainPrimitive_def)

lemma rect_type: "pd_type exampleRectangle = ''rectangle''"
  by (simp add: exampleRectangle_def plainPrimitive_def)

lemma rect_textureRepeat:
  "textureRepeat exampleRectangle (rectangleGeometry exampleRectangle) (texturedMaterial 0 1)
     = Some (PInf, Fin 2)"
  by (simp add: box_repeat rect_geom boxMin_def boxMax_def wood_s wood_t num_simps)

text \<open>
  C3 (the code departs from the claim). The claim gives a triangle the repeat
  (area / texlength_s, area / texlength_t) and a NURBS surface
  (parts_u / texlength_s, parts_v / texlength_t). In the code the flag that selects these
  two branches is never set: for every primitive, of every type, the pass computes the
  bounding-box quotients. For the triangle (0,0,0), (4,0,0), (0,2,0), of area 4, under a
  material with a bound map and texture lengths 1 and 1, \<open>createPrimitive\<close> sets the
  repeat (4, 2), the bounding-box extent, where the claim says (4, 4); and a NURBS
  surface with the default 10 parts over a unit square gets (1, 1), not (10, 10).
\<close>

theorem special_repeat_never_taken:
  "textureRepeat pd geom m =
     Some (orElse (jdiv (jsub (v_x (boxMax geom)) (v_x (boxMin geom)))
                        (numberOf (mat_texlength_s m))) (Fin 1),
           orElse (jdiv (jsub (v_y (boxMax geom)) (v_y (boxMin geom)))
                        (numberOf (mat_texlength_t m))) (Fin 1))
   \<and> triangleArea (triangleGeometry exampleTriangle) = Fin 4
   \<and> woodRepeat (createPrimitive lib app u exampleTriangle (Some (texturedMaterial 1 1))
                    ([], woodStore))
       = Some (Fin 4, Fin 2)
   \<and> toValidFloat (pd_parts_u (plainPrimitive ''nurbs'')) (Fin 10) = Fin 10
   \<and> woodRepeat (createPrimitive (\<lambda>p. Some (rectangleGeometry (plainPrimitive ''rectangle'')))
                    app u (plainPrimitive ''nurbs'') (Some (texturedMaterial 1 1))
                    ([], woodStore))
       = Some (Fin 1, Fin 1)"
proof -
  have tri: "woodRepeat (createPrimitive lib app u exampleTriangle (Some (texturedMaterial 1 1))
                           ([], woodStore))
               = Some (Fin 4, Fin 2)"
    by (subst createPrimitive_repeat [where geom = "triangleGeometry exampleTriangle"])
       (simp_all add: tri_type primitiveGeometry_def wood_map woodStore_def tri_textureRepeat)
  have parts: "toValidFloat (pd_parts_u (plainPrimitive ''nurbs'')) (Fin 10) = Fin 10"
    by (simp add: plainPrimitive_def toValidFloat_def isNaN_def)
  have sq: "rectangleGeometry (plainPrimitive ''rectangle'') =
      [\<lparr>v_x = Fin (- (1 / 2)), v_y = Fin (1 / 2), v_z = Fin 0\<rparr>,
       \<lparr>v_x = Fin (1 / 2), v_y = Fin (1 / 2), v_z = Fin 0\<rparr>,
       \<lparr>v_x = Fin (- (1 / 2)), v_y = Fin (- (1 / 2)), v_z = Fin 0\<rparr>,
       \<lparr>v_x = Fin (1 / 2), v_y = Fin (- (1 / 2)), v_z = Fin 0\<rparr>]"
    by (simp add: rectangleGeometry_def plainPrimitive_def optX_def optY_def rectWidth_def
          rectHeight_def rectOffsetX_def rectOffsetY_def planeVertex_def translateVertex_def
          toValidFloat_def isNaN_def jsub_def)
  have nrep: "textureRepeat (plainPrimitive ''nurbs'')
                (rectangleGeometry (plainPrimitive ''rectangle'')) (texturedMaterial 1 1)
              = Some (Fin 1, Fin 1)"
    by (simp add: box_repeat sq boxMin_def boxMax_def wood_s wood_t num_simps)
  have cps: "nurbsControlPoints (plainPrimitive ''nurbs'') \<noteq> None"
    by (simp add: nurbsControlPoints_def plainPrimitive_def toValidFloat_def isNaN_def
          forLoop.simps increment_def Let_def)
  have nurbs: "woodRepeat (createPrimitive
                             (\<lambda>p. Some (rectangleGeometry (plainPrimitive ''rectangle'')))
                             app u (plainPrimitive ''nurbs'') (Some (texturedMaterial 1 1))
                             ([], woodStore))
               = Some (Fin 1, Fin 1)"
    using cps
    by (subst createPrimitive_repeat
          [where geom = "rectangleGeometry (plainPrimitive ''rectangle'')"])
       (auto simp add: primitiveGeometry_def wood_map woodStore_def nrep plain_type)
  show ?thesis by (intro conjI box_repeat tri_area tri parts nurbs)
qed

text \<open>
  What a zero texture length gives in the bounding-box branch: 1 only when the extent is
  zero as well (zero over zero is NaN, which is falsy); with a positive extent the
  quotient is \<open>Infinity\<close>, which is truthy, and the fallback is not taken.
\<close>

lemma zero_divisor_quotient:
  "orElse (jdiv (Fin e) (Fin 0)) (Fin 1) = (if e = 0 then Fin 1 else if e < 0 then NInf else PInf)"
  by (simp add: orElse_def truthyNum_def infOfSign_def)

text \<open>
  C7 (the code departs from the claim). The claim makes a zero \<open>texlength_s\<close> give the
  repeat component 1 whatever the extent of the bounding box. The code evaluates
  \<open>texScaleS / texlength_s || 1\<close>: for the rectangle from (-1, -1) to (1, 1), of extent 2
  by 2, under a material with a bound map and texture lengths 0 and 1, \<open>createPrimitive\<close>
  sets the repeat (Infinity, 2).
\<close>

theorem zero_texlength_gives_infinite_repeat:
  "mat_texlength_s (texturedMaterial 0 1) = Some (Fin 0)
   \<and> woodRepeat (createPrimitive lib app u exampleRectangle (Some (texturedMaterial 0 1))
                    ([], woodStore))
       = Some (PInf, Fin 2)"
proof -
  have "woodRepeat (createPrimitive lib app u exampleRectangle (Some (texturedMaterial 0 1))
                      ([], woodStore))
          = Some (PInf, Fin 2)"
    by (subst createPrimitive_repeat [where geom = "rectangleGeometry exampleRectangle"])
       (simp_all add: rect_type primitiveGeometry_def wood_map woodStore_def rect_textureRepeat)
  then show ?thesis by (simp add: wood_s)
qed

subsection \<open>The node graph: identities and the cache\<close>

lemma clone_props:
  "cloneObj x n = (x', n') \<Longrightarrow> n < n' \<and> oid x' = n \<and> oids x' \<subseteq> {n..<n'}"
  "cloneList xs n = (xs', n') \<Longrightarrow> n \<le> n' \<and> (\<forall>y \<in> set xs'. oids y \<subseteq> {n..<n'})"
proof (induction x n and xs n arbitrary: x' n' and xs' n' rule: cloneObj_cloneList.induct)
  case (1 i p pl c r ch n)
  obtain ch' m where c: "cloneList ch (Suc n) = (ch', m)" by (cases "cloneList ch (Suc n)")
  with 1 have "Suc n \<le> m" "\<forall>y \<in> set ch'. oids y \<subseteq> {Suc n..<m}" by auto
  moreover from 1(2) c have "x' = Obj n p pl c r ch'" "n' = m" by auto
  ultimately show ?case by fastforce
next
  case (2 n)
  then show ?case by auto
next
  case (3 x xs n)
  obtain y n1 where a: "cloneObj x n = (y, n1)" by (cases "cloneObj x n")
  obtain ys n2 where b: "cloneList xs n1 = (ys, n2)" by (cases "cloneList xs n1")
  from 3(1) [OF a] have ha: "n < n1" "oids y \<subseteq> {n..<n1}" by auto
  from 3(2) [OF a [symmetric] b] have hb: "n1 \<le> n2" "\<forall>z \<in> set ys. oids z \<subseteq> {n1..<n2}" by auto
  from 3(3) a b have e: "xs' = y # ys" "n' = n2" by auto
  show ?case using ha hb e by fastforce
qed

lemma step_refl: "step st st"
  by (simp add: step_def cacheGrows_def)

lemma cacheGrows_trans:
  assumes "cacheGrows a b" and "cacheGrows b c"
  shows "cacheGrows a c"
  unfolding cacheGrows_def
proof (intro conjI allI impI)
  show "gp_nextId a \<le> gp_nextId c"
    using assms by (auto simp: cacheGrows_def)
  show "gp_processedNodes a \<subseteq> gp_processedNodes c"
    using assms by (auto simp: cacheGrows_def)
  fix key assume "key \<in> gp_processedNodes a"
  moreover from this assms(1) have "key \<in> gp_processedNodes b" by (auto simp: cacheGrows_def)
  ultimately show "gp_nodes c key = gp_nodes a key"
    using assms by (simp add: cacheGrows_def)
next
  fix key ob assume k: "gp_nodes c key = Some ob"
  from assms have le: "gp_nextId a \<le> gp_nextId b" "gp_nextId b \<le> gp_nextId c"
    by (auto simp: cacheGrows_def)
  from k assms(2) consider "gp_nodes b key = Some ob"
    | "gp_nextId b \<le> oid ob \<and> oid ob < gp_nextId c"
    unfolding cacheGrows_def by blast
  then show "gp_nodes a key = Some ob \<or> (gp_nextId a \<le> oid ob \<and> oid ob < gp_nextId c)"
  proof cases
    case 1
    with assms(1) have "gp_nodes a key = Some ob \<or> (gp_nextId a \<le> oid ob \<and> oid ob < gp_nextId b)"
      unfolding cacheGrows_def by blast
    with le show ?thesis by auto
  next
    case 2
    with le show ?thesis by auto
  qed
qed

lemma step_trans: "step a b \<Longrightarrow> step b c \<Longrightarrow> step a c"
  unfolding step_def using cacheGrows_trans by blast

lemma stepG_refl: "stepG s s"
  by (simp add: stepG_def step_refl)

lemma stepG_trans: "stepG a b \<Longrightarrow> stepG b c \<Longrightarrow> stepG a c"
  unfolding stepG_def using step_trans by auto

lemma forEach_stepG:
  assumes "\<And>x s s'. x \<in> set xs \<Longrightarrow> f x s = Some s' \<Longrightarrow> stepG s s'"
  shows "forEach f xs s = Some s' \<Longrightarrow> stepG s s'"
  using assms
proof (induction xs arbitrary: s)
  case Nil
  then show ?case by (simp add: stepG_refl)
next
  case (Cons x xs)
  from Cons.prems(1) obtain s1 where a: "f x s = Some s1" and b: "forEach f xs s1 = Some s'"
    by (auto split: option.splits)
  have "stepG s s1" using Cons.prems(2) [of x s s1] a by simp
  moreover have "stepG s1 s'"
  proof (rule Cons.IH [OF b])
    fix y t t' assume "y \<in> set xs" "f y t = Some t'"
    then show "stepG t t'" using Cons.prems(2) [of y t t'] by simp
  qed
  ultimately show ?case by (rule stepG_trans)
qed

lemma step_fields:
  "gp_nodes st' = gp_nodes st \<Longrightarrow> gp_processedNodes st' = gp_processedNodes st \<Longrightarrow>
   gp_nextId st \<le> gp_nextId st' \<Longrightarrow> (realRegistry st \<Longrightarrow> realRegistry st') \<Longrightarrow> step st st'"
  by (fastforce simp: step_def cacheGrows_def wfCache_def cacheBelow_def cacheDistinct_def)

lemma step_alloc: "gp_nextId st \<le> n \<Longrightarrow> step st (st\<lparr>gp_nextId := n\<rparr>)"
  by (rule step_fields) (simp_all add: realRegistry_def)

lemma set_update_subset: "set (AList.update k v al) \<subseteq> insert (k, v) (set al)"
  by (induction al) auto

lemma createPrimitive_registry:
  assumes "createPrimitive lib app u pd pm (ms, tx) = Some (res, ms', tx')"
    and "(k, mt) \<in> set ms'"
  shows "(k, mt) \<in> set ms \<or> (mat_uuid mt = u \<and> mat_isMaterial mt)"
proof -
  have "ms' = ms \<or> (\<exists>k' m0. ms' = AList.update k' (cloneMaterial m0 u) ms)
        \<or> (\<exists>k' m0. ms' = AList.update k' ((cloneMaterial m0 u)\<lparr>mat_vertexColors := True\<rparr>) ms)"
    using assms(1)
    by (auto simp: createPrimitive_def Let_def split: if_splits option.splits)
  with assms(2) set_update_subset show ?thesis
    by (fastforce simp: cloneMaterial_def)
qed

lemma oid_addChild: "oid (addChild g c) = oid g"
  by (simp add: addChild_def)

lemma oid_addLevel: "oid (addLevel g c d) = oid g"
  by (simp add: addLevel_def)

lemma cnOK_step: "cnOK cn \<Longrightarrow> cn st n m c r = Some (res, st') \<Longrightarrow> step st st'"
  unfolding cnOK_def by blast

lemma lodLevel_stepG:
  assumes "cnOK cn" and "lodLevel cn pm pc pr e s = Some s'"
  shows "stepG s s'"
proof (cases "validLodEntry e")
  case False
  with assms(2) show ?thesis by (simp add: lodLevel_def stepG_refl)
next
  case True
  with assms(2) obtain res st' where
    c: "cn (snd s) (the (le_nodeId e)) pm pc pr = Some (res, st')"
    by (auto simp: lodLevel_def split: option.splits)
  have st: "step (snd s) st'" by (rule cnOK_step [OF assms(1) c])
  from assms(2) True c have "snd s' = st' \<and> oid (fst s') = oid (fst s)"
    by (auto simp: lodLevel_def oid_addLevel split: option.splits)
  with st show ?thesis by (simp add: stepG_def)
qed

lemma createLOD_step:
  assumes "cnOK cn" and "createLOD cn lns ts pm pc pr st = Some (res, st')"
  shows "step st st'"
proof (cases lns)
  case None
  with assms(2) show ?thesis by (simp add: createLOD_def step_refl)
next
  case (Some entries)
  let ?s0 = "newObject (LodP []) (case ts of None \<Rightarrow> newPlacement
                | Some ts \<Rightarrow> applyTransformations newPlacement ts) False False st"
  from assms(2) Some obtain lod where
    f: "forEach (lodLevel cn pm pc pr) entries ?s0 = Some (lod, st')"
    by (auto simp: createLOD_def split: option.splits)
  have "stepG ?s0 (lod, st')"
    by (rule forEach_stepG [OF _ f]) (rule lodLevel_stepG [OF assms(1)])
  then have "step (snd ?s0) st'" by (simp add: stepG_def)
  moreover have "step st (snd ?s0)"
    by (simp add: newObject_def step_alloc)
  ultimately show ?thesis using step_trans by blast
qed

lemma handleNoderef_stepG:
  assumes "cnOK cn" and "handleNoderef cn cd pm pc pr s = Some s'"
  shows "stepG s s'"
proof (cases "truthyId (cd_nodeId cd)")
  case False
  with assms(2) show ?thesis by (simp add: handleNoderef_def stepG_refl)
next
  case True
  with assms(2) obtain res st' where
    c: "cn (snd s) (the (cd_nodeId cd)) pm pc pr = Some (res, st')"
    by (auto simp: handleNoderef_def split: option.splits)
  have st: "step (snd s) st'" by (rule cnOK_step [OF assms(1) c])
  show ?thesis
  proof (cases res)
    case None
    with assms(2) True c have "s' = (fst s, st')" by (simp add: handleNoderef_def)
    with st show ?thesis by (simp add: stepG_def)
  next
    case (Some ref)
    obtain cl n' where cl: "cloneObj ref (gp_nextId st') = (cl, n')"
      by (cases "cloneObj ref (gp_nextId st')")
    from clone_props(1) [OF cl] have "gp_nextId st' \<le> n'" by simp
    then have "step st' (st'\<lparr>gp_nextId := n'\<rparr>)" by (rule step_alloc)
    with st have "step (snd s) (st'\<lparr>gp_nextId := n'\<rparr>)" using step_trans by blast
    moreover from assms(2) True c Some cl
    have "snd s' = st'\<lparr>gp_nextId := n'\<rparr> \<and> oid (fst s') = oid (fst s)"
      by (auto simp: handleNoderef_def oid_addChild split: option.splits)
    ultimately show ?thesis by (simp add: stepG_def)
  qed
qed

lemma handlePrimitive_stepG:
  assumes "handlePrimitive ev cd pm pc pr s = Some s'"
  shows "stepG s s'"
proof -
  from assms obtain res ms' tx' where
    c: "createPrimitive (env_lib ev) (env_app ev) (env_uuid ev (gp_cloned (snd s)))
          ((cd_primitive cd)\<lparr>pd_type := cd_type cd\<rparr>) pm (gp_materials (snd s), gp_textures (snd s))
        = Some (res, ms', tx')"
    by (auto simp: handlePrimitive_def split: option.splits)
  from assms c have e: "gp_processedNodes (snd s') = gp_processedNodes (snd s)"
    "gp_nodes (snd s') = gp_nodes (snd s)" "gp_nextId (snd s) \<le> gp_nextId (snd s')"
    "gp_materials (snd s') = ms'" "oid (fst s') = oid (fst s)"
    by (auto simp: handlePrimitive_def newObject_def oid_addChild split: option.splits)
  have "realRegistry (snd s')" if "realRegistry (snd s)"
    unfolding realRegistry_def
  proof (intro allI impI)
    fix k m assume "(k, m) \<in> set (gp_materials (snd s'))"
    with e have "(k, m) \<in> set ms'" by simp
    from createPrimitive_registry [OF c this] that show "mat_isMaterial m"
      by (auto simp: realRegistry_def)
  qed
  with e have "step (snd s) (snd s')" by (intro step_fields) simp_all
  with e show ?thesis by (simp add: stepG_def)
qed

lemma handleLight_stepG:
  assumes "handleLight cd s = Some s'"
  shows "stepG s s'"
  using assms
  by (auto simp: handleLight_def stepG_def newObject_def oid_addChild step_refl realRegistry_def
        intro!: step_fields split: prod.splits option.splits)

lemma handleChild_stepG:
  assumes "cnOK cn" and "handleChild cn ev pm pc pr cd s = Some s'"
  shows "stepG s s'"
proof -
  consider (lod) "cd_type cd = ''lod''"
    | (ref) "cd_type cd \<noteq> ''lod''" "cd_type cd = ''noderef''"
    | (prim) "cd_type cd \<noteq> ''lod''" "cd_type cd \<noteq> ''noderef''"
        "cd_type cd \<in> set [''rectangle'', ''triangle'', ''box'', ''cylinder'', ''sphere'', ''nurbs'', ''polygon'']"
    | (light) "cd_type cd \<noteq> ''lod''" "cd_type cd \<noteq> ''noderef''"
        "cd_type cd \<notin> set [''rectangle'', ''triangle'', ''box'', ''cylinder'', ''sphere'', ''nurbs'', ''polygon'']"
        "cd_type cd \<in> set [''pointlight'', ''spotlight'', ''directionallight'']"
    | (other) "cd_type cd \<noteq> ''lod''" "cd_type cd \<noteq> ''noderef''"
        "cd_type cd \<notin> set [''rectangle'', ''triangle'', ''box'', ''cylinder'', ''sphere'', ''nurbs'', ''polygon'']"
        "cd_type cd \<notin> set [''pointlight'', ''spotlight'', ''directionallight'']"
    by blast
  then show ?thesis
  proof cases
    case lod
    with assms(2) obtain res st' where
      c: "createLOD cn (cd_lodNodes cd) (cd_transforms cd) pm pc pr (snd s) = Some (res, st')"
      by (auto simp: handleChild_def split: option.splits)
    have "step (snd s) st'" by (rule createLOD_step [OF assms(1) c])
    moreover from assms(2) lod c have "snd s' = st' \<and> oid (fst s') = oid (fst s)"
      by (auto simp: handleChild_def oid_addChild split: option.splits)
    ultimately show ?thesis by (simp add: stepG_def)
  next
    case ref
    with assms(2) have "handleNoderef cn cd pm pc pr s = Some s'"
      by (simp add: handleChild_def)
    then show ?thesis by (rule handleNoderef_stepG [OF assms(1)])
  next
    case prim
    with assms(2) have "handlePrimitive ev cd pm pc pr s = Some s'"
      by (simp add: handleChild_def)
    then show ?thesis by (rule handlePrimitive_stepG)
  next
    case light
    with assms(2) have "handleLight cd s = Some s'"
      by (simp add: handleChild_def)
    then show ?thesis by (rule handleLight_stepG)
  next
    case other
    with assms(2) have "s' = s" by (simp add: handleChild_def)
    then show ?thesis by (simp add: stepG_refl)
  qed
qed

lemma lodsListEntry_stepG:
  assumes "cnOK cn" and "lodsListEntry cn g pm pc pr i s = Some s'"
  shows "stepG s s'"
proof -
  from assms(2) obtain res st' where
    c: "createLOD cn (case g i of None \<Rightarrow> None | Some d \<Rightarrow> nd_lodNodes d)
          (case g i of None \<Rightarrow> None | Some d \<Rightarrow> nd_transforms d) pm pc pr (snd s) = Some (res, st')"
    by (auto simp: lodsListEntry_def split: option.splits)
  have "step (snd s) st'" by (rule createLOD_step [OF assms(1) c])
  moreover from assms(2) c have "snd s' = st' \<and> oid (fst s') = oid (fst s)"
    by (auto simp: lodsListEntry_def oid_addChild split: option.splits)
  ultimately show ?thesis by (simp add: stepG_def)
qed

lemma expandChildren_stepG:
  assumes "cnOK cn" and "expandChildren cn ev g pm pc pr ch s = Some s'"
  shows "stepG s s'"
proof -
  from assms(2) obtain s1 s2 where
    a: "forEach (\<lambda>(childId, childData). handleChild cn ev pm pc pr (withNodeId childId childData))
          (filter (\<lambda>(childId, childData). childId \<noteq> ''nodesList'' \<and> childId \<noteq> ''lodsList'')
             (ch_direct ch)) s = Some s1"
    and b: "forEach (\<lambda>childNodeId. handleChild cn ev pm pc pr (noderefChild childNodeId))
          (case ch_nodesList ch of None \<Rightarrow> [] | Some l \<Rightarrow> l) s1 = Some s2"
    and c: "forEach (lodsListEntry cn g pm pc pr)
          (case ch_lodsList ch of None \<Rightarrow> [] | Some l \<Rightarrow> l) s2 = Some s'"
    by (auto simp: expandChildren_def split: option.splits)
  have "stepG s s1"
    by (rule forEach_stepG [OF _ a]) (auto intro: handleChild_stepG [OF assms(1)])
  moreover have "stepG s1 s2"
    by (rule forEach_stepG [OF _ b]) (auto intro: handleChild_stepG [OF assms(1)])
  moreover have "stepG s2 s'"
    by (rule forEach_stepG [OF _ c]) (auto intro: lodsListEntry_stepG [OF assms(1)])
  ultimately show ?thesis using stepG_trans by blast
qed

lemma step_cache_write:
  assumes s: "step st0 stc"
    and n: "gp_nextId st0 = Suc (gp_nextId st)"
    and e: "gp_nodes st0 = gp_nodes st" "gp_processedNodes st0 = gp_processedNodes st"
    and ms: "gp_materials st0 = gp_materials st"
    and g: "oid grp = gp_nextId st"
    and fresh: "key \<notin> gp_processedNodes st"
  shows "step st (stc\<lparr>gp_processedNodes := insert key (gp_processedNodes stc),
                      gp_nodes := (gp_nodes stc)(key \<mapsto> grp)\<rparr>)"
proof -
  let ?st' = "stc\<lparr>gp_processedNodes := insert key (gp_processedNodes stc),
                  gp_nodes := (gp_nodes stc)(key \<mapsto> grp)\<rparr>"
  from s have cg: "cacheGrows st0 stc" by (simp add: step_def)
  then have le: "Suc (gp_nextId st) \<le> gp_nextId stc"
    and sub: "gp_processedNodes st \<subseteq> gp_processedNodes stc"
    and keep: "\<And>k. k \<in> gp_processedNodes st \<Longrightarrow> gp_nodes stc k = gp_nodes st k"
    and fr: "\<And>k ob. gp_nodes stc k = Some ob \<Longrightarrow>
                gp_nodes st k = Some ob \<or> (Suc (gp_nextId st) \<le> oid ob \<and> oid ob < gp_nextId stc)"
    using n e by (auto simp: cacheGrows_def)
  have grows: "cacheGrows st ?st'"
    unfolding cacheGrows_def
  proof (intro conjI allI impI)
    show "gp_nextId st \<le> gp_nextId ?st'" using le by simp
    show "gp_processedNodes st \<subseteq> gp_processedNodes ?st'" using sub by auto
    show "gp_nodes ?st' k = gp_nodes st k" if "k \<in> gp_processedNodes st" for k
      using that fresh keep by auto
    fix k ob assume a: "gp_nodes ?st' k = Some ob"
    show "gp_nodes st k = Some ob \<or> (gp_nextId st \<le> oid ob \<and> oid ob < gp_nextId ?st')"
    proof (cases "k = key")
      case True
      with a have "ob = grp" by simp
      with g le show ?thesis by simp
    next
      case False
      with a have "gp_nodes stc k = Some ob" by simp
      from fr [OF this] show ?thesis by auto
    qed
  qed
  have wf: "wfCache ?st'" if w: "wfCache st"
  proof -
    from w n e have "wfCache st0"
      by (fastforce simp: wfCache_def cacheBelow_def cacheDistinct_def)
    with s have wc: "wfCache stc" by (simp add: step_def)
    from w have below: "\<And>k ob. gp_nodes st k = Some ob \<Longrightarrow> oid ob < gp_nextId st"
      by (auto simp: wfCache_def cacheBelow_def)
    have ne: "oid ob \<noteq> oid grp" if "gp_nodes stc k = Some ob" for k ob
      using fr [OF that] below [of k ob] g by auto
    have "cacheBelow ?st'"
      unfolding cacheBelow_def
    proof (intro allI impI)
      fix k ob assume a: "gp_nodes ?st' k = Some ob"
      show "oid ob < gp_nextId ?st'"
      proof (cases "k = key")
        case True
        with a g le show ?thesis by simp
      next
        case False
        with a wc show ?thesis by (auto simp: wfCache_def cacheBelow_def)
      qed
    qed
    moreover have "cacheDistinct ?st'"
      unfolding cacheDistinct_def
    proof (intro allI impI)
      fix k k' ob ob'
      assume a: "gp_nodes ?st' k = Some ob \<and> gp_nodes ?st' k' = Some ob' \<and> k \<noteq> k'"
      show "oid ob \<noteq> oid ob'"
      proof (cases "k = key")
        case True
        with a have "ob = grp" "gp_nodes stc k' = Some ob'" by auto
        with ne [of k' ob'] show ?thesis by auto
      next
        case False
        note kf = this
        show ?thesis
        proof (cases "k' = key")
          case True
          with a kf have "ob' = grp" "gp_nodes stc k = Some ob" by auto
          with ne [of k ob] show ?thesis by auto
        next
          case False
          with a kf have "gp_nodes stc k = Some ob" "gp_nodes stc k' = Some ob'" "k \<noteq> k'" by auto
          with wc show ?thesis unfolding wfCache_def cacheDistinct_def by blast
        qed
      qed
    qed
    ultimately show ?thesis by (simp add: wfCache_def)
  qed
  have real: "realRegistry ?st'" if "realRegistry st"
  proof -
    from that ms have "realRegistry st0" by (simp add: realRegistry_def)
    with s have "realRegistry stc" by (simp add: step_def)
    then show ?thesis by (simp add: realRegistry_def)
  qed
  from grows wf real show ?thesis by (simp add: step_def)
qed

lemma expandNode_stepG:
  assumes "cnOK cn" and "expandNode cn ev g nd m c r st = Some (grp, stc)"
  shows "step (st\<lparr>gp_nextId := Suc (gp_nextId st)\<rparr>) stc \<and> oid grp = gp_nextId st"
proof -
  let ?s0 = "newObject (GroupP (nodeMaterialOf (gp_materials st) nd m))
               (case nd_transforms nd of None \<Rightarrow> newPlacement
                | Some ts \<Rightarrow> applyTransformations newPlacement ts)
               (c \<or> parseBoolean (nd_castshadow nd) False)
               (r \<or> parseBoolean (nd_receiveshadow nd) False) st"
  have "stepG ?s0 (grp, stc)"
  proof (cases "nd_children nd")
    case None
    with assms(2) show ?thesis by (simp add: expandNode_def Let_def stepG_refl)
  next
    case (Some ch)
    with assms(2) have
      "expandChildren cn ev g (nodeMaterialOf (gp_materials st) nd m)
         (c \<or> parseBoolean (nd_castshadow nd) False)
         (r \<or> parseBoolean (nd_receiveshadow nd) False) ch ?s0 = Some (grp, stc)"
      by (simp add: expandNode_def Let_def)
    then show ?thesis by (rule expandChildren_stepG [OF assms(1)])
  qed
  then show ?thesis by (simp add: stepG_def newObject_def)
qed

lemma createNodeBody_result:
  assumes "createNodeBody cn ev g st n m c r = Some (res, st')"
  obtains (hit) "cacheKey n m \<in> gp_processedNodes st" "res = gp_nodes st (cacheKey n m)" "st' = st"
    | (missing) "cacheKey n m \<notin> gp_processedNodes st" "g n = None" "res = None" "st' = st"
    | (built) nd grp stc where "cacheKey n m \<notin> gp_processedNodes st" "g n = Some nd"
        "res = Some grp" "expandNode cn ev g nd m c r st = Some (grp, stc)"
        "st' = stc\<lparr>gp_processedNodes := insert (cacheKey n m) (gp_processedNodes stc),
                     gp_nodes := (gp_nodes stc)(cacheKey n m \<mapsto> grp)\<rparr>"
proof (cases "cacheKey n m \<in> gp_processedNodes st")
  case True
  with assms have "res = gp_nodes st (cacheKey n m)" "st' = st"
    by (auto simp: createNodeBody_def)
  with True show ?thesis by (rule hit)
next
  case False
  show ?thesis
  proof (cases "g n")
    case None
    with assms False have "res = None" "st' = st"
      by (auto simp: createNodeBody_def)
    with False None show ?thesis by (rule missing)
  next
    case (Some nd)
    with assms False obtain grp stc where
      e: "expandNode cn ev g nd m c r st = Some (grp, stc)"
      by (cases "expandNode cn ev g nd m c r st") (auto simp: createNodeBody_def)
    with assms False Some have "res = Some grp"
      "st' = stc\<lparr>gp_processedNodes := insert (cacheKey n m) (gp_processedNodes stc),
                   gp_nodes := (gp_nodes stc)(cacheKey n m \<mapsto> grp)\<rparr>"
      by (auto simp: createNodeBody_def)
    with False Some e show ?thesis by (intro built [of nd grp stc]) simp_all
  qed
qed

lemma createNodeBody_ok:
  assumes "cnOK cn"
  shows "cnOK (createNodeBody cn ev g)"
  unfolding cnOK_def
proof (intro allI impI)
  fix st n m c r res st'
  assume a: "createNodeBody cn ev g st n m c r = Some (res, st')"
  from a show "step st st' \<and> (\<forall>grp. res = Some grp \<longrightarrow>
              gp_nodes st' (cacheKey n m) = Some grp \<and> cacheKey n m \<in> gp_processedNodes st')"
  proof (cases rule: createNodeBody_result)
    case hit
    then show ?thesis by (simp add: step_refl)
  next
    case missing
    then show ?thesis by (simp add: step_refl)
  next
    case (built nd grp stc)
    from expandNode_stepG [OF assms built(4)]
    have s: "step (st\<lparr>gp_nextId := Suc (gp_nextId st)\<rparr>) stc" and o: "oid grp = gp_nextId st"
      by simp_all
    have "step st st'"
      unfolding built(5)
      by (rule step_cache_write [OF s _ _ _ _ o]) (simp_all add: built)
    with built show ?thesis by simp
  qed
qed

lemma createNode_ok: "cnOK (createNode k ev g)"
proof (induction k)
  case 0
  show ?case by (simp add: cnOK_def)
next
  case (Suc k)
  then show ?case by (simp add: createNodeBody_ok)
qed

subsection \<open>The node graph: calls that return\<close>

lemma stepG_real: "stepG s s' \<Longrightarrow> realRegistry (snd s) \<Longrightarrow> realRegistry (snd s')"
  by (simp add: stepG_def step_def)

lemma forEach_total:
  assumes "\<And>x s. x \<in> set xs \<Longrightarrow> I s \<Longrightarrow> f x s \<noteq> None"
    and "\<And>x s s'. x \<in> set xs \<Longrightarrow> I s \<Longrightarrow> f x s = Some s' \<Longrightarrow> I s'"
  shows "I s \<Longrightarrow> forEach f xs s \<noteq> None"
  using assms
proof (induction xs arbitrary: s)
  case Nil
  show ?case by simp
next
  case (Cons x xs)
  from Cons.prems(2) [of x s] Cons.prems(1) obtain s1 where a: "f x s = Some s1" by auto
  from Cons.prems(3) [of x s s1] Cons.prems(1) a have i: "I s1" by simp
  have "forEach f xs s1 \<noteq> None"
  proof (rule Cons.IH [OF i])
    fix y t assume "y \<in> set xs" "I t"
    then show "f y t \<noteq> None" using Cons.prems(2) [of y t] by simp
  next
    fix y t t' assume "y \<in> set xs" "I t" "f y t = Some t'"
    then show "I t'" using Cons.prems(3) [of y t t'] by simp
  qed
  with a show ?case by simp
qed

lemma lodLevel_total:
  assumes "totalOn cn T" and "validLodEntry e \<Longrightarrow> the (le_nodeId e) \<in> T"
    and "realRegistry (snd s)" and "realOpt pm"
  shows "lodLevel cn pm pc pr e s \<noteq> None"
proof (cases "validLodEntry e")
  case False
  then show ?thesis by (simp add: lodLevel_def)
next
  case True
  with assms have "cn (snd s) (the (le_nodeId e)) pm pc pr \<noteq> None"
    unfolding totalOn_def by blast
  with True show ?thesis
    by (auto simp: lodLevel_def split: option.splits)
qed

lemma createLOD_total:
  assumes "cnOK cn" and "totalOn cn T" and "set (lodTargets lns) \<subseteq> T"
    and "realRegistry st" and "realOpt pm"
  shows "createLOD cn lns ts pm pc pr st \<noteq> None"
proof (cases lns)
  case None
  then show ?thesis by (simp add: createLOD_def)
next
  case (Some entries)
  let ?s0 = "newObject (LodP []) (case ts of None \<Rightarrow> newPlacement
                | Some ts \<Rightarrow> applyTransformations newPlacement ts) False False st"
  have r0: "realRegistry (snd ?s0)"
    using assms(4) by (simp add: newObject_def realRegistry_def)
  have "forEach (lodLevel cn pm pc pr) entries ?s0 \<noteq> None"
  proof (rule forEach_total [where I = "\<lambda>s :: obj3d \<times> parser. realRegistry (snd s)", OF _ _ r0])
    fix e and s :: "obj3d \<times> parser"
    assume "e \<in> set entries" and r: "realRegistry (snd s)"
    with assms(3) Some have "validLodEntry e \<Longrightarrow> the (le_nodeId e) \<in> T"
      by (auto simp: lodTargets_def)
    then show "lodLevel cn pm pc pr e s \<noteq> None"
      by (rule lodLevel_total [OF assms(2) _ r assms(5)])
  next
    fix e and s s' :: "obj3d \<times> parser"
    assume "realRegistry (snd s)" "lodLevel cn pm pc pr e s = Some s'"
    then show "realRegistry (snd s')"
      using lodLevel_stepG [OF assms(1)] stepG_real by blast
  qed
  then show ?thesis using Some
    by (auto simp: createLOD_def split: option.splits)
qed

lemma handleNoderef_total:
  assumes "totalOn cn T" and "truthyId (cd_nodeId cd) \<Longrightarrow> the (cd_nodeId cd) \<in> T"
    and "realRegistry (snd s)" and "realOpt pm"
  shows "handleNoderef cn cd pm pc pr s \<noteq> None"
proof (cases "truthyId (cd_nodeId cd)")
  case False
  then show ?thesis by (simp add: handleNoderef_def)
next
  case True
  with assms have "cn (snd s) (the (cd_nodeId cd)) pm pc pr \<noteq> None"
    unfolding totalOn_def by blast
  with True show ?thesis
    by (auto simp: handleNoderef_def split: option.splits prod.splits)
qed

lemma createPrimitive_total:
  assumes "geometryReturns ev pd" and "realOpt pm"
  shows "createPrimitive (env_lib ev) app u pd pm st \<noteq> None"
proof (cases "pd_type pd = ''polygon''")
  case True
  with assms(1) obtain geom where "polygonGeometry pd = Some geom"
    by (auto simp: geometryReturns_def)
  with True assms(2) show ?thesis
    by (auto simp: createPrimitive_def realOpt_def split: option.splits)
next
  case False
  with assms(1) obtain geom where "primitiveGeometry (env_lib ev) pd = Some geom"
    by (auto simp: geometryReturns_def)
  with False show ?thesis
    by (cases geom) (simp_all add: createPrimitive_def Let_def)
qed

lemma handlePrimitive_total:
  assumes "geometryReturns ev ((cd_primitive cd)\<lparr>pd_type := cd_type cd\<rparr>)" and "realOpt pm"
  shows "handlePrimitive ev cd pm pc pr s \<noteq> None"
  using createPrimitive_total [OF assms, of "env_app ev" "env_uuid ev (gp_cloned (snd s))"
      "(gp_materials (snd s), gp_textures (snd s))"]
  by (auto simp: handlePrimitive_def newObject_def split: prod.splits option.splits)

lemma handleLight_total: "handleLight cd s \<noteq> None"
  by (auto simp: handleLight_def split: prod.splits option.splits)

lemma handleChild_total:
  assumes "cnOK cn" and "totalOn cn T" and "set (childTargets cd) \<subseteq> T"
    and "childReturns ev cd" and "realRegistry (snd s)" and "realOpt pm"
  shows "handleChild cn ev pm pc pr cd s \<noteq> None"
proof -
  have lod: "createLOD cn (cd_lodNodes cd) (cd_transforms cd) pm pc pr (snd s) \<noteq> None"
    if "cd_type cd = ''lod''"
    using that assms(3)
    by (intro createLOD_total [OF assms(1) assms(2) _ assms(5) assms(6)])
       (simp add: childTargets_def)
  have ref: "handleNoderef cn cd pm pc pr s \<noteq> None" if "cd_type cd = ''noderef''"
    using that assms(3)
    by (intro handleNoderef_total [OF assms(2) _ assms(5) assms(6)]) (simp add: childTargets_def)
  have prim: "handlePrimitive ev cd pm pc pr s \<noteq> None"
    if "cd_type cd \<in> set [''rectangle'', ''triangle'', ''box'', ''cylinder'', ''sphere'',
                          ''nurbs'', ''polygon'']"
    using that assms(4)
    by (intro handlePrimitive_total [OF _ assms(6)]) (simp add: childReturns_def primitiveTypes_def)
  show ?thesis
    using lod ref prim handleLight_total [of cd s]
    by (auto simp: handleChild_def split: option.splits)
qed

lemma lodsListEntry_total:
  assumes "cnOK cn" and "totalOn cn T"
    and "set (lodTargets (case g i of None \<Rightarrow> None | Some d \<Rightarrow> nd_lodNodes d)) \<subseteq> T"
    and "realRegistry (snd s)" and "realOpt pm"
  shows "lodsListEntry cn g pm pc pr i s \<noteq> None"
  using createLOD_total [OF assms, of "case g i of None \<Rightarrow> None | Some d \<Rightarrow> nd_transforms d" pc pr]
  by (auto simp: lodsListEntry_def split: option.splits)

lemma references_direct:
  assumes "nd_children nd = Some ch" and "(i, cd) \<in> set (ch_direct ch)"
    and "i \<noteq> ''nodesList''" and "i \<noteq> ''lodsList''"
    and "t \<in> set (childTargets (withNodeId i cd))"
  shows "t \<in> set (references g nd)"
  using assms by (force simp: references_def)

lemma references_nodesList:
  assumes "nd_children nd = Some ch" and "ch_nodesList ch = Some l" and "i \<in> set l" and "i \<noteq> []"
  shows "i \<in> set (references g nd)"
  using assms by (simp add: references_def)

lemma references_lodsList:
  assumes "nd_children nd = Some ch" and "ch_lodsList ch = Some l" and "i \<in> set l"
    and "t \<in> set (lodTargets (case g i of None \<Rightarrow> None | Some d \<Rightarrow> nd_lodNodes d))"
  shows "t \<in> set (references g nd)"
  using assms by (force simp: references_def)

lemma childReturns_withNodeId: "childReturns ev (withNodeId i cd) = childReturns ev cd"
  by (simp add: childReturns_def withNodeId_def)

lemma childReturns_noderef: "childReturns ev (noderefChild i)"
  by (simp add: childReturns_def noderefChild_def primitiveTypes_def)

lemma expandChildren_total:
  assumes "cnOK cn" and "totalOn cn T" and "nd_children nd = Some ch"
    and "set (references g nd) \<subseteq> T"
    and "\<And>i cd. (i, cd) \<in> set (ch_direct ch) \<Longrightarrow> childReturns ev cd"
    and "realRegistry (snd s)" and "realOpt pm"
  shows "expandChildren cn ev g pm pc pr ch s \<noteq> None"
proof -
  let ?direct = "filter (\<lambda>(childId, childData). childId \<noteq> ''nodesList'' \<and> childId \<noteq> ''lodsList'')
                   (ch_direct ch)"
  let ?nodes = "case ch_nodesList ch of None \<Rightarrow> [] | Some l \<Rightarrow> l"
  let ?lods = "case ch_lodsList ch of None \<Rightarrow> [] | Some l \<Rightarrow> l"
  let ?I = "\<lambda>s :: obj3d \<times> parser. realRegistry (snd s)"
  let ?f1 = "\<lambda>(childId, childData). handleChild cn ev pm pc pr (withNodeId childId childData)"
  let ?f2 = "\<lambda>childNodeId. handleChild cn ev pm pc pr (noderefChild childNodeId)"
  have keep: "realRegistry (snd t')"
    if "handleChild cn ev pm pc pr cd t = Some t'" "realRegistry (snd t)" for cd t t'
    using that handleChild_stepG [OF assms(1)] stepG_real by blast
  have a: "forEach ?f1 ?direct s \<noteq> None" if "?I s" for s :: "obj3d \<times> parser"
  proof (rule forEach_total [where I = ?I, OF _ _ that])
    fix x and s :: "obj3d \<times> parser"
    assume x: "x \<in> set ?direct" and r: "realRegistry (snd s)"
    obtain i cd where xe: "x = (i, cd)" by (cases x)
    from x xe assms(4) have "set (childTargets (withNodeId i cd)) \<subseteq> T"
      using references_direct [OF assms(3), of i cd _ g] by auto
    moreover from x xe assms(5) have "childReturns ev (withNodeId i cd)"
      by (auto simp: childReturns_withNodeId)
    ultimately have "handleChild cn ev pm pc pr (withNodeId i cd) s \<noteq> None"
      by (rule handleChild_total [OF assms(1) assms(2) _ _ r assms(7)])
    then show "?f1 x s \<noteq> None" using xe by simp
  next
    fix x and s s' :: "obj3d \<times> parser"
    assume "realRegistry (snd s)" "?f1 x s = Some s'"
    then show "realRegistry (snd s')" using keep by (cases x) auto
  qed
  have b: "forEach ?f2 ?nodes s \<noteq> None" if "?I s" for s :: "obj3d \<times> parser"
  proof (rule forEach_total [where I = ?I, OF _ _ that])
    fix i and s :: "obj3d \<times> parser"
    assume x: "i \<in> set ?nodes" and r: "realRegistry (snd s)"
    with assms(4) have "i \<noteq> [] \<Longrightarrow> i \<in> T"
      using references_nodesList [OF assms(3), of _ i g] by (cases "ch_nodesList ch") auto
    then have "set (childTargets (noderefChild i)) \<subseteq> T"
      by (auto simp: childTargets_def noderefChild_def truthyId_def)
    then show "handleChild cn ev pm pc pr (noderefChild i) s \<noteq> None"
      by (rule handleChild_total [OF assms(1) assms(2) _ childReturns_noderef r assms(7)])
  next
    fix x and s s' :: "obj3d \<times> parser"
    assume "realRegistry (snd s)" "?f2 x s = Some s'"
    then show "realRegistry (snd s')" using keep by auto
  qed
  have c: "forEach (lodsListEntry cn g pm pc pr) ?lods s \<noteq> None" if "?I s"
    for s :: "obj3d \<times> parser"
  proof (rule forEach_total [where I = ?I, OF _ _ that])
    fix i and s :: "obj3d \<times> parser"
    assume x: "i \<in> set ?lods" and r: "realRegistry (snd s)"
    with assms(4)
    have "set (lodTargets (case g i of None \<Rightarrow> None | Some d \<Rightarrow> nd_lodNodes d)) \<subseteq> T"
      using references_lodsList [OF assms(3), of _ i _ g] by (cases "ch_lodsList ch") auto
    then show "lodsListEntry cn g pm pc pr i s \<noteq> None"
      by (rule lodsListEntry_total [OF assms(1) assms(2) _ r assms(7)])
  next
    fix x and s s' :: "obj3d \<times> parser"
    assume "realRegistry (snd s)" "lodsListEntry cn g pm pc pr x s = Some s'"
    then show "realRegistry (snd s')"
      using lodsListEntry_stepG [OF assms(1)] stepG_real by blast
  qed
  from a [OF assms(6)] obtain s1 where a1: "forEach ?f1 ?direct s = Some s1" by auto
  have "stepG s s1"
    by (rule forEach_stepG [OF _ a1]) (auto intro: handleChild_stepG [OF assms(1)])
  with assms(6) have r1: "realRegistry (snd s1)" by (rule stepG_real [rotated])
  from b [OF r1] obtain s2 where b1: "forEach ?f2 ?nodes s1 = Some s2" by auto
  have "stepG s1 s2"
    by (rule forEach_stepG [OF _ b1]) (auto intro: handleChild_stepG [OF assms(1)])
  with r1 have r2: "realRegistry (snd s2)" by (rule stepG_real [rotated])
  from a1 b1 c [OF r2] show ?thesis
    by (simp add: expandChildren_def)
qed

lemma nodeMaterial_real:
  assumes "realRegistry st" and "realOpt m"
    and "truthyId (nd_materialref nd) \<longrightarrow> \<not> inherited (the (nd_materialref nd))"
  shows "realOpt (nodeMaterialOf (gp_materials st) nd m)"
proof (cases "truthyId (nd_materialref nd)")
  case False
  with assms(2) show ?thesis by (simp add: nodeMaterialOf_def)
next
  case True
  show ?thesis
  proof (cases "map_of (gp_materials st) (the (nd_materialref nd))")
    case None
    with True assms(2) assms(3) show ?thesis
      by (simp add: nodeMaterialOf_def registryLookup_def)
  next
    case (Some mt)
    then have "(the (nd_materialref nd), mt) \<in> set (gp_materials st)" by (rule map_of_SomeD)
    with assms(1) have "mat_isMaterial mt" by (auto simp: realRegistry_def)
    with True Some show ?thesis by (simp add: nodeMaterialOf_def registryLookup_def realOpt_def)
  qed
qed

lemma expandNode_total:
  assumes "cnOK cn" and "totalOn cn T" and "set (references g nd) \<subseteq> T"
    and "nodeReturns ev nd" and "realRegistry st" and "realOpt m"
  shows "expandNode cn ev g nd m c r st \<noteq> None"
proof (cases "nd_children nd")
  case None
  then show ?thesis by (simp add: expandNode_def Let_def)
next
  case (Some ch)
  from assms(4) have mr: "realOpt (nodeMaterialOf (gp_materials st) nd m)"
    by (intro nodeMaterial_real [OF assms(5) assms(6)]) (simp add: nodeReturns_def)
  from assms(4) Some have ch: "\<And>i cd. (i, cd) \<in> set (ch_direct ch) \<Longrightarrow> childReturns ev cd"
    by (auto simp: nodeReturns_def)
  have r0: "realRegistry (snd (newObject p pl a b st))" for p pl a b
    using assms(5) by (simp add: newObject_def realRegistry_def)
  from expandChildren_total [OF assms(1) assms(2) Some assms(3) ch r0 mr] Some
  show ?thesis by (simp add: expandNode_def Let_def)
qed

lemma createNodeBody_total:
  assumes "cnOK cn" and "totalOn cn T"
    and "\<And>nd. g n = Some nd \<Longrightarrow> set (references g nd) \<subseteq> T \<and> nodeReturns ev nd"
    and "realRegistry st" and "realOpt m"
  shows "createNodeBody cn ev g st n m c r \<noteq> None"
proof (cases "g n")
  case None
  then show ?thesis by (simp add: createNodeBody_def)
next
  case (Some nd)
  from assms(3) [OF Some] have "set (references g nd) \<subseteq> T" "nodeReturns ev nd" by simp_all
  from expandNode_total [OF assms(1) assms(2) this assms(4) assms(5), of c r] Some
  show ?thesis by (auto simp: createNodeBody_def split: option.splits)
qed

lemma createNode_ranked_total:
  assumes "ranked g R rk" and "\<And>t nd. t \<in> R \<Longrightarrow> g t = Some nd \<Longrightarrow> nodeReturns ev nd"
  shows "n \<in> R \<Longrightarrow> rk n < k \<Longrightarrow> realRegistry st \<Longrightarrow> realOpt m \<Longrightarrow>
         createNode k ev g st n m c r \<noteq> None"
proof (induction k arbitrary: n st m c r)
  case 0
  then show ?case by simp
next
  case (Suc k)
  let ?T = "{t. t \<in> R \<and> rk t < k}"
  have tot: "totalOn (createNode k ev g) ?T"
    unfolding totalOn_def using Suc.IH by blast
  have "set (references g nd) \<subseteq> ?T \<and> nodeReturns ev nd" if "g n = Some nd" for nd
    using assms that Suc.prems(1) Suc.prems(2) unfolding ranked_def by fastforce
  with createNode_ok tot
  have "createNodeBody (createNode k ev g) ev g st n m c r \<noteq> None"
    using Suc.prems(3) Suc.prems(4) by (rule createNodeBody_total)
  then show ?case by simp
qed

subsection \<open>The node graph: calls that do not return\<close>

lemma forEach_inv:
  assumes "\<And>x s s'. x \<in> set xs \<Longrightarrow> I (snd s) \<Longrightarrow> f x s = Some s' \<Longrightarrow> I (snd s') \<and> Q x"
  shows "I (snd s) \<Longrightarrow> forEach f xs s = Some s' \<Longrightarrow> I (snd s') \<and> (\<forall>x \<in> set xs. Q x)"
  using assms
proof (induction xs arbitrary: s)
  case Nil
  then show ?case by simp
next
  case (Cons x xs)
  from Cons.prems(2) obtain s1 where a: "f x s = Some s1" and b: "forEach f xs s1 = Some s'"
    by (auto split: option.splits)
  have h: "I (snd s1) \<and> Q x" using Cons.prems(3) [of x s s1] Cons.prems(1) a by simp
  have "I (snd s') \<and> (\<forall>y \<in> set xs. Q y)"
  proof (rule Cons.IH [OF _ b])
    show "I (snd s1)" using h by simp
    fix y t t' assume "y \<in> set xs" "I (snd t)" "f y t = Some t'"
    then show "I (snd t') \<and> Q y" using Cons.prems(3) [of y t t'] by simp
  qed
  with h show ?case by simp
qed

lemma key_inj:
  assumes "plainUuid u" and "plainUuid u'" and "n @ ''_'' @ u = n' @ ''_'' @ u'"
  shows "n = n' \<and> u = u'"
proof -
  have tw: "takeWhile (\<lambda>c. c \<noteq> CHR ''_'') (rev (a @ ''_'' @ v)) = rev v" if "plainUuid v" for a v
  proof -
    have "rev (a @ ''_'' @ v) = rev v @ (CHR ''_'' # rev a)" by simp
    moreover have "\<And>x. x \<in> set (rev v) \<Longrightarrow> x \<noteq> CHR ''_''"
      using that by (auto simp: plainUuid_def)
    ultimately show ?thesis by (simp add: takeWhile_tail takeWhile_eq_all_conv)
  qed
  from assms(3) have "takeWhile (\<lambda>c. c \<noteq> CHR ''_'') (rev (n @ ''_'' @ u))
                    = takeWhile (\<lambda>c. c \<noteq> CHR ''_'') (rev (n' @ ''_'' @ u'))" by simp
  with tw [OF assms(1)] tw [OF assms(2)] have "u = u'" by simp
  with assms(3) show ?thesis by simp
qed

lemma plain_null: "plainUuid (materialUUID None)"
  by (simp add: plainUuid_def materialUUID_def)

lemma trapInv_nextId: "trapInv ev B st \<Longrightarrow> trapInv ev B (st\<lparr>gp_nextId := n\<rparr>)"
  by (simp add: trapInv_def untouched_def plainUuids_def)

lemma avoidsD:
  "avoids ev B cn \<Longrightarrow> trapInv ev B st \<Longrightarrow> plainUuid (materialUUID m) \<Longrightarrow>
   cn st n m c r = Some (res, st') \<Longrightarrow> trapInv ev B st' \<and> n \<notin> B"
  unfolding avoids_def by blast

lemma lodLevel_trap:
  assumes "avoids ev B cn" and "plainUuid (materialUUID pm)"
    and "trapInv ev B (snd s)" and "lodLevel cn pm pc pr e s = Some s'"
  shows "trapInv ev B (snd s') \<and> (validLodEntry e \<longrightarrow> the (le_nodeId e) \<notin> B)"
proof (cases "validLodEntry e")
  case False
  with assms show ?thesis by (simp add: lodLevel_def)
next
  case True
  with assms(4) obtain res st' where
    c: "cn (snd s) (the (le_nodeId e)) pm pc pr = Some (res, st')"
    by (auto simp: lodLevel_def split: option.splits)
  from avoidsD [OF assms(1) assms(3) assms(2) c]
  have "trapInv ev B st'" "the (le_nodeId e) \<notin> B" by simp_all
  moreover from assms(4) True c have "snd s' = st'"
    by (auto simp: lodLevel_def split: option.splits)
  ultimately show ?thesis by simp
qed

lemma createLOD_trap:
  assumes "avoids ev B cn" and "plainUuid (materialUUID pm)"
    and "trapInv ev B st" and "createLOD cn lns ts pm pc pr st = Some (res, st')"
  shows "trapInv ev B st' \<and> (\<forall>t \<in> set (lodTargets lns). t \<notin> B)"
proof (cases lns)
  case None
  with assms show ?thesis by (simp add: createLOD_def lodTargets_def)
next
  case (Some entries)
  let ?s0 = "newObject (LodP []) (case ts of None \<Rightarrow> newPlacement
                | Some ts \<Rightarrow> applyTransformations newPlacement ts) False False st"
  from assms(4) Some obtain lod where
    f: "forEach (lodLevel cn pm pc pr) entries ?s0 = Some (lod, st')"
    by (auto simp: createLOD_def split: option.splits)
  have i0: "trapInv ev B (snd ?s0)"
    using assms(3) by (simp add: newObject_def trapInv_nextId)
  have "trapInv ev B (snd (lod, st'))
        \<and> (\<forall>e \<in> set entries. validLodEntry e \<longrightarrow> the (le_nodeId e) \<notin> B)"
    by (rule forEach_inv [where I = "trapInv ev B"
            and Q = "\<lambda>e. validLodEntry e \<longrightarrow> the (le_nodeId e) \<notin> B", OF _ i0 f])
       (rule lodLevel_trap [OF assms(1) assms(2)])
  with Some show ?thesis by (auto simp: lodTargets_def)
qed

lemma handleNoderef_trap:
  assumes "avoids ev B cn" and "plainUuid (materialUUID pm)"
    and "trapInv ev B (snd s)" and "handleNoderef cn cd pm pc pr s = Some s'"
  shows "trapInv ev B (snd s') \<and> (truthyId (cd_nodeId cd) \<longrightarrow> the (cd_nodeId cd) \<notin> B)"
proof (cases "truthyId (cd_nodeId cd)")
  case False
  with assms show ?thesis by (simp add: handleNoderef_def)
next
  case True
  with assms(4) obtain res st' where
    c: "cn (snd s) (the (cd_nodeId cd)) pm pc pr = Some (res, st')"
    by (auto simp: handleNoderef_def split: option.splits)
  from avoidsD [OF assms(1) assms(3) assms(2) c]
  have i: "trapInv ev B st'" and nb: "the (cd_nodeId cd) \<notin> B" by simp_all
  from assms(4) True c have "snd s' = st' \<or> (\<exists>n'. snd s' = st'\<lparr>gp_nextId := n'\<rparr>)"
    by (auto simp: handleNoderef_def split: option.splits prod.splits)
  with i have "trapInv ev B (snd s')" by (auto simp: trapInv_nextId)
  with nb show ?thesis by simp
qed

lemma handlePrimitive_trap:
  assumes "trapInv ev B (snd s)" and "handlePrimitive ev cd pm pc pr s = Some s'"
  shows "trapInv ev B (snd s')"
proof -
  from assms(2) obtain res ms' tx' where
    c: "createPrimitive (env_lib ev) (env_app ev) (env_uuid ev (gp_cloned (snd s)))
          ((cd_primitive cd)\<lparr>pd_type := cd_type cd\<rparr>) pm (gp_materials (snd s), gp_textures (snd s))
        = Some (res, ms', tx')"
    by (auto simp: handlePrimitive_def split: option.splits)
  from assms(2) c have e: "gp_processedNodes (snd s') = gp_processedNodes (snd s)"
    "gp_materials (snd s') = ms'"
    by (auto simp: handlePrimitive_def newObject_def split: option.splits)
  have "plainUuid (mat_uuid mt)" if "(k, mt) \<in> set ms'" for k mt
    using createPrimitive_registry [OF c that] assms(1)
    by (auto simp: trapInv_def plainUuids_def)
  with assms(1) e show ?thesis
    by (auto simp: trapInv_def plainUuids_def untouched_def)
qed

lemma handleLight_trap:
  assumes "trapInv ev B (snd s)" and "handleLight cd s = Some s'"
  shows "trapInv ev B (snd s')"
  using assms
  by (auto simp: handleLight_def newObject_def trapInv_nextId split: option.splits)

lemma handleChild_trap:
  assumes "avoids ev B cn" and "plainUuid (materialUUID pm)"
    and "trapInv ev B (snd s)" and "handleChild cn ev pm pc pr cd s = Some s'"
  shows "trapInv ev B (snd s') \<and> (\<forall>t \<in> set (childTargets cd). t \<notin> B)"
proof -
  consider (lod) "cd_type cd = ''lod''"
    | (ref) "cd_type cd \<noteq> ''lod''" "cd_type cd = ''noderef''"
    | (prim) "cd_type cd \<noteq> ''lod''" "cd_type cd \<noteq> ''noderef''"
        "cd_type cd \<in> set [''rectangle'', ''triangle'', ''box'', ''cylinder'', ''sphere'', ''nurbs'', ''polygon'']"
    | (light) "cd_type cd \<noteq> ''lod''" "cd_type cd \<noteq> ''noderef''"
        "cd_type cd \<notin> set [''rectangle'', ''triangle'', ''box'', ''cylinder'', ''sphere'', ''nurbs'', ''polygon'']"
        "cd_type cd \<in> set [''pointlight'', ''spotlight'', ''directionallight'']"
    | (other) "cd_type cd \<noteq> ''lod''" "cd_type cd \<noteq> ''noderef''"
        "cd_type cd \<notin> set [''rectangle'', ''triangle'', ''box'', ''cylinder'', ''sphere'', ''nurbs'', ''polygon'']"
        "cd_type cd \<notin> set [''pointlight'', ''spotlight'', ''directionallight'']"
    by blast
  then show ?thesis
  proof cases
    case lod
    with assms(4) obtain res st' where
      c: "createLOD cn (cd_lodNodes cd) (cd_transforms cd) pm pc pr (snd s) = Some (res, st')"
      by (auto simp: handleChild_def split: option.splits)
    from createLOD_trap [OF assms(1) assms(2) assms(3) c]
    have "trapInv ev B st'" "\<forall>t \<in> set (lodTargets (cd_lodNodes cd)). t \<notin> B" by simp_all
    moreover from assms(4) lod c have "snd s' = st'"
      by (auto simp: handleChild_def split: option.splits)
    ultimately show ?thesis using lod by (simp add: childTargets_def)
  next
    case ref
    with assms(4) have "handleNoderef cn cd pm pc pr s = Some s'"
      by (simp add: handleChild_def)
    from handleNoderef_trap [OF assms(1) assms(2) assms(3) this] ref
    show ?thesis by (simp add: childTargets_def)
  next
    case prim
    with assms(4) have "handlePrimitive ev cd pm pc pr s = Some s'"
      by (simp add: handleChild_def)
    from handlePrimitive_trap [OF assms(3) this] prim
    show ?thesis by (simp add: childTargets_def)
  next
    case light
    with assms(4) have "handleLight cd s = Some s'"
      by (simp add: handleChild_def)
    from handleLight_trap [OF assms(3) this] light
    show ?thesis by (simp add: childTargets_def)
  next
    case other
    with assms(4) have "s' = s" by (simp add: handleChild_def)
    with assms(3) other show ?thesis by (simp add: childTargets_def)
  qed
qed

lemma lodsListEntry_trap:
  assumes "avoids ev B cn" and "plainUuid (materialUUID pm)"
    and "trapInv ev B (snd s)" and "lodsListEntry cn g pm pc pr i s = Some s'"
  shows "trapInv ev B (snd s')
       \<and> (\<forall>t \<in> set (lodTargets (case g i of None \<Rightarrow> None | Some d \<Rightarrow> nd_lodNodes d)). t \<notin> B)"
proof -
  from assms(4) obtain res st' where
    c: "createLOD cn (case g i of None \<Rightarrow> None | Some d \<Rightarrow> nd_lodNodes d)
          (case g i of None \<Rightarrow> None | Some d \<Rightarrow> nd_transforms d) pm pc pr (snd s) = Some (res, st')"
    by (auto simp: lodsListEntry_def split: option.splits)
  from createLOD_trap [OF assms(1) assms(2) assms(3) c]
  have "trapInv ev B st'"
    "\<forall>t \<in> set (lodTargets (case g i of None \<Rightarrow> None | Some d \<Rightarrow> nd_lodNodes d)). t \<notin> B"
    by simp_all
  moreover from assms(4) c have "snd s' = st'"
    by (auto simp: lodsListEntry_def split: option.splits)
  ultimately show ?thesis by simp
qed

lemma references_cases:
  assumes "nd_children nd = Some ch" and "t \<in> set (references g nd)"
  shows "(\<exists>i cd. (i, cd) \<in> set (filter (\<lambda>(childId, childData).
                     childId \<noteq> ''nodesList'' \<and> childId \<noteq> ''lodsList'') (ch_direct ch))
             \<and> t \<in> set (childTargets (withNodeId i cd)))
       \<or> (t \<in> set (case ch_nodesList ch of None \<Rightarrow> [] | Some l \<Rightarrow> l) \<and> t \<noteq> [])
       \<or> (\<exists>i \<in> set (case ch_lodsList ch of None \<Rightarrow> [] | Some l \<Rightarrow> l).
             t \<in> set (lodTargets (case g i of None \<Rightarrow> None | Some d \<Rightarrow> nd_lodNodes d)))"
  using assms by (auto simp: references_def)

lemma expandChildren_trap:
  assumes "avoids ev B cn" and "plainUuid (materialUUID pm)"
    and "trapInv ev B (snd s)" and "expandChildren cn ev g pm pc pr ch s = Some s'"
    and "nd_children nd = Some ch"
  shows "trapInv ev B (snd s') \<and> (\<forall>t \<in> set (references g nd). t \<notin> B)"
proof -
  let ?direct = "filter (\<lambda>(childId, childData). childId \<noteq> ''nodesList'' \<and> childId \<noteq> ''lodsList'')
                   (ch_direct ch)"
  let ?nodes = "case ch_nodesList ch of None \<Rightarrow> [] | Some l \<Rightarrow> l"
  let ?lods = "case ch_lodsList ch of None \<Rightarrow> [] | Some l \<Rightarrow> l"
  from assms(4) obtain s1 s2 where
    a: "forEach (\<lambda>(childId, childData). handleChild cn ev pm pc pr (withNodeId childId childData))
          ?direct s = Some s1"
    and b: "forEach (\<lambda>childNodeId. handleChild cn ev pm pc pr (noderefChild childNodeId))
          ?nodes s1 = Some s2"
    and c: "forEach (lodsListEntry cn g pm pc pr) ?lods s2 = Some s'"
    by (auto simp: expandChildren_def split: option.splits)
  have ra: "trapInv ev B (snd s1)
      \<and> (\<forall>x \<in> set ?direct. \<forall>t \<in> set (childTargets (withNodeId (fst x) (snd x))). t \<notin> B)"
    by (rule forEach_inv [where I = "trapInv ev B"
            and Q = "\<lambda>x. \<forall>t \<in> set (childTargets (withNodeId (fst x) (snd x))). t \<notin> B",
            OF _ assms(3) a])
       (auto dest: handleChild_trap [OF assms(1) assms(2)])
  have rb: "trapInv ev B (snd s2)
      \<and> (\<forall>i \<in> set ?nodes. \<forall>t \<in> set (childTargets (noderefChild i)). t \<notin> B)"
    by (rule forEach_inv [where I = "trapInv ev B"
            and Q = "\<lambda>i. \<forall>t \<in> set (childTargets (noderefChild i)). t \<notin> B", OF _ _ b])
       (use ra in \<open>auto dest: handleChild_trap [OF assms(1) assms(2)]\<close>)
  have rc: "trapInv ev B (snd s')
      \<and> (\<forall>i \<in> set ?lods.
            \<forall>t \<in> set (lodTargets (case g i of None \<Rightarrow> None | Some d \<Rightarrow> nd_lodNodes d)). t \<notin> B)"
    by (rule forEach_inv [where I = "trapInv ev B"
            and Q = "\<lambda>i. \<forall>t \<in> set (lodTargets (case g i of None \<Rightarrow> None
                                                   | Some d \<Rightarrow> nd_lodNodes d)). t \<notin> B",
            OF _ _ c])
       (use rb in \<open>auto dest: lodsListEntry_trap [OF assms(1) assms(2)]\<close>)
  have "t \<notin> B" if "t \<in> set (references g nd)" for t
  proof -
    from references_cases [OF assms(5) that]
    consider (d) i cd where "(i, cd) \<in> set ?direct" "t \<in> set (childTargets (withNodeId i cd))"
      | (n) "t \<in> set ?nodes" "t \<noteq> []"
      | (l) i where "i \<in> set ?lods"
          "t \<in> set (lodTargets (case g i of None \<Rightarrow> None | Some d \<Rightarrow> nd_lodNodes d))"
      by blast
    then show ?thesis
    proof cases
      case d
      with ra show ?thesis by fastforce
    next
      case n
      then have "t \<in> set (childTargets (noderefChild t))"
        by (simp add: childTargets_def noderefChild_def truthyId_def)
      with rb n show ?thesis by blast
    next
      case l
      with rc show ?thesis by blast
    qed
  qed
  with rc show ?thesis by blast
qed

lemma nodeMaterial_plain:
  assumes "plainUuids ev st" and "plainUuid (materialUUID m)"
  shows "plainUuid (materialUUID (nodeMaterialOf (gp_materials st) nd m))"
proof (cases "truthyId (nd_materialref nd)")
  case False
  with assms(2) show ?thesis by (simp add: nodeMaterialOf_def)
next
  case True
  show ?thesis
  proof (cases "map_of (gp_materials st) (the (nd_materialref nd))")
    case None
    with True assms(2) show ?thesis
      by (simp add: nodeMaterialOf_def registryLookup_def materialUUID_def inheritedMember_def
            plainUuid_def)
  next
    case (Some mt)
    then have "(the (nd_materialref nd), mt) \<in> set (gp_materials st)" by (rule map_of_SomeD)
    with assms(1) have "plainUuid (mat_uuid mt)" by (auto simp: plainUuids_def)
    with True Some show ?thesis
      by (simp add: nodeMaterialOf_def registryLookup_def materialUUID_def)
  qed
qed

lemma expandNode_trap:
  assumes "avoids ev B cn" and "plainUuid (materialUUID m)"
    and "trapInv ev B st" and "expandNode cn ev g nd m c r st = Some (grp, stc)"
  shows "trapInv ev B stc \<and> (\<forall>t \<in> set (references g nd). t \<notin> B)"
proof -
  let ?s0 = "newObject (GroupP (nodeMaterialOf (gp_materials st) nd m))
               (case nd_transforms nd of None \<Rightarrow> newPlacement
                | Some ts \<Rightarrow> applyTransformations newPlacement ts)
               (c \<or> parseBoolean (nd_castshadow nd) False)
               (r \<or> parseBoolean (nd_receiveshadow nd) False) st"
  have i0: "trapInv ev B (snd ?s0)"
    using assms(3) by (simp add: newObject_def trapInv_nextId)
  have npl: "plainUuid (materialUUID (nodeMaterialOf (gp_materials st) nd m))"
    using assms(2) assms(3) nodeMaterial_plain [of ev st m nd] by (simp add: trapInv_def)
  show ?thesis
  proof (cases "nd_children nd")
    case None
    with assms(4) i0 show ?thesis by (auto simp: expandNode_def Let_def references_def)
  next
    case (Some ch)
    with assms(4) have
      "expandChildren cn ev g (nodeMaterialOf (gp_materials st) nd m)
         (c \<or> parseBoolean (nd_castshadow nd) False)
         (r \<or> parseBoolean (nd_receiveshadow nd) False) ch ?s0 = Some (grp, stc)"
      by (simp add: expandNode_def Let_def)
    from expandChildren_trap [OF assms(1) npl i0 this Some] show ?thesis by simp
  qed
qed

lemma createNodeBody_avoids:
  assumes "avoids ev B cn" and "trap g B"
  shows "avoids ev B (createNodeBody cn ev g)"
  unfolding avoids_def
proof (intro allI impI)
  fix st n m c r res st'
  assume "trapInv ev B st \<and> plainUuid (materialUUID m)
          \<and> createNodeBody cn ev g st n m c r = Some (res, st')"
  then have inv: "trapInv ev B st" and pl: "plainUuid (materialUUID m)"
    and a: "createNodeBody cn ev g st n m c r = Some (res, st')" by simp_all
  from a show "trapInv ev B st' \<and> n \<notin> B"
  proof (cases rule: createNodeBody_result)
    case hit
    from inv pl hit(1) have "n \<notin> B"
      by (auto simp: trapInv_def untouched_def cacheKey_def)
    with inv hit show ?thesis by simp
  next
    case missing
    with assms(2) have "n \<notin> B" by (auto simp: trap_def)
    with inv missing show ?thesis by simp
  next
    case (built nd grp stc)
    from expandNode_trap [OF assms(1) pl inv built(4)]
    have ch: "trapInv ev B stc \<and> (\<forall>t \<in> set (references g nd). t \<notin> B)" .
    have nb: "n \<notin> B"
    proof
      assume "n \<in> B"
      with assms(2) built(2) obtain t where "t \<in> set (references g nd)" "t \<in> B"
        by (auto simp: trap_def)
      with ch show False by blast
    qed
    have "untouched B st'"
      unfolding untouched_def
    proof (intro allI impI)
      fix b u assume bu: "b \<in> B \<and> plainUuid u"
      with ch have "b @ ''_'' @ u \<notin> gp_processedNodes stc"
        by (auto simp: trapInv_def untouched_def)
      moreover have "b @ ''_'' @ u \<noteq> cacheKey n m"
      proof
        assume "b @ ''_'' @ u = cacheKey n m"
        then have "b @ ''_'' @ u = n @ ''_'' @ materialUUID m" by (simp add: cacheKey_def)
        from key_inj [OF _ pl this] bu have "b = n" by simp
        with bu nb show False by simp
      qed
      ultimately show "b @ ''_'' @ u \<notin> gp_processedNodes st'"
        by (simp add: built(5))
    qed
    moreover from ch have "plainUuids ev st'"
      by (simp add: trapInv_def plainUuids_def built(5))
    ultimately show ?thesis using nb by (simp add: trapInv_def)
  qed
qed

lemma createNode_avoids:
  assumes "trap g B"
  shows "avoids ev B (createNode k ev g)"
proof (induction k)
  case 0
  show ?case by (simp add: avoids_def)
next
  case (Suc k)
  from createNodeBody_avoids [OF Suc assms] show ?case by simp
qed

lemma createNode_trap_diverges:
  assumes "trap g B" and "n \<in> B" and "untouched B st" and "plainUuids ev st"
    and "plainUuid (materialUUID m)"
  shows "createNode k ev g st n m c r = None"
proof (rule ccontr)
  assume "createNode k ev g st n m c r \<noteq> None"
  then obtain res st' where a: "createNode k ev g st n m c r = Some (res, st')" by auto
  from assms(3) assms(4) have "trapInv ev B st" by (simp add: trapInv_def)
  from avoidsD [OF createNode_avoids [OF assms(1)] this assms(5) a] assms(2)
  show False by simp
qed

subsection \<open>The node graph: larger bounds on the depth\<close>

lemma forEach_mono:
  assumes "\<And>x s y. f x s = Some y \<Longrightarrow> f' x s = Some y"
  shows "forEach f xs s = Some y \<Longrightarrow> forEach f' xs s = Some y"
proof (induction xs arbitrary: s)
  case Nil
  then show ?case by simp
next
  case (Cons x xs)
  from Cons.prems obtain s1 where a: "f x s = Some s1" and b: "forEach f xs s1 = Some y"
    by (auto split: option.splits)
  from assms [OF a] Cons.IH [OF b] show ?case by simp
qed

lemma lodLevel_mono:
  "extends cn cn' \<Longrightarrow> lodLevel cn m c r e s = Some y \<Longrightarrow> lodLevel cn' m c r e s = Some y"
  unfolding lodLevel_def extends_def
  by (auto split: if_splits option.splits prod.splits)

lemma createLOD_mono:
  assumes "extends cn cn'" and "createLOD cn lns ts m c r st = Some y"
  shows "createLOD cn' lns ts m c r st = Some y"
proof (cases lns)
  case None
  with assms(2) show ?thesis by (simp add: createLOD_def)
next
  case (Some entries)
  let ?s0 = "newObject (LodP []) (case ts of None \<Rightarrow> newPlacement
                      | Some ts \<Rightarrow> applyTransformations newPlacement ts) False False st"
  from assms(2) Some obtain lod st' where
    a: "forEach (lodLevel cn m c r) entries ?s0 = Some (lod, st')" and y: "y = (Some lod, st')"
    by (auto simp: createLOD_def split: option.splits)
  have "forEach (lodLevel cn' m c r) entries ?s0 = Some (lod, st')"
    by (rule forEach_mono [OF _ a]) (rule lodLevel_mono [OF assms(1)])
  with Some y show ?thesis by (simp add: createLOD_def)
qed

lemma handleNoderef_mono:
  "extends cn cn' \<Longrightarrow> handleNoderef cn cd m c r s = Some y
    \<Longrightarrow> handleNoderef cn' cd m c r s = Some y"
  unfolding handleNoderef_def extends_def
  by (auto split: if_splits option.splits prod.splits)

lemma handleChild_mono:
  assumes "extends cn cn'" and "handleChild cn ev m c r cd s = Some y"
  shows "handleChild cn' ev m c r cd s = Some y"
proof (cases "cd_type cd = ''lod''")
  case True
  with assms(2) obtain z where
    a: "createLOD cn (cd_lodNodes cd) (cd_transforms cd) m c r (snd s) = Some z"
    by (auto simp: handleChild_def split: option.splits)
  from createLOD_mono [OF assms(1) a] assms(2) a True show ?thesis
    by (simp add: handleChild_def)
next
  case False
  show ?thesis
  proof (cases "cd_type cd = ''noderef''")
    case True
    with False assms(2) have "handleNoderef cn cd m c r s = Some y"
      by (simp add: handleChild_def)
    from handleNoderef_mono [OF assms(1) this] False True show ?thesis
      by (simp add: handleChild_def)
  next
    case nr: False
    with False assms(2) show ?thesis by (simp add: handleChild_def)
  qed
qed

lemma lodsListEntry_mono:
  assumes "extends cn cn'" and "lodsListEntry cn g m c r l s = Some y"
  shows "lodsListEntry cn' g m c r l s = Some y"
proof -
  let ?lns = "case g l of None \<Rightarrow> None | Some d \<Rightarrow> nd_lodNodes d"
  let ?ts = "case g l of None \<Rightarrow> None | Some d \<Rightarrow> nd_transforms d"
  from assms(2) obtain z where a: "createLOD cn ?lns ?ts m c r (snd s) = Some z"
    by (auto simp: lodsListEntry_def split: option.splits)
  from createLOD_mono [OF assms(1) a] assms(2) a show ?thesis
    by (simp add: lodsListEntry_def)
qed

lemma expandChildren_mono:
  assumes "extends cn cn'" and "expandChildren cn ev g m c r ch s = Some y"
  shows "expandChildren cn' ev g m c r ch s = Some y"
proof -
  let ?d = "filter (\<lambda>(childId, childData). childId \<noteq> ''nodesList'' \<and> childId \<noteq> ''lodsList'')
                (ch_direct ch)"
  let ?n = "case ch_nodesList ch of None \<Rightarrow> [] | Some l \<Rightarrow> l"
  let ?l = "case ch_lodsList ch of None \<Rightarrow> [] | Some l \<Rightarrow> l"
  let ?f1 = "\<lambda>cn. (\<lambda>(childId, childData). handleChild cn ev m c r (withNodeId childId childData))"
  let ?f2 = "\<lambda>cn. (\<lambda>childNodeId. handleChild cn ev m c r (noderefChild childNodeId))"
  from assms(2) obtain s1 s2 where
    a: "forEach (?f1 cn) ?d s = Some s1" and b: "forEach (?f2 cn) ?n s1 = Some s2"
    and c: "forEach (lodsListEntry cn g m c r) ?l s2 = Some y"
    by (auto simp: expandChildren_def split: option.splits)
  have a': "forEach (?f1 cn') ?d s = Some s1"
    by (rule forEach_mono [OF _ a]) (auto intro: handleChild_mono [OF assms(1)])
  have b': "forEach (?f2 cn') ?n s1 = Some s2"
    by (rule forEach_mono [OF _ b]) (auto intro: handleChild_mono [OF assms(1)])
  have c': "forEach (lodsListEntry cn' g m c r) ?l s2 = Some y"
    by (rule forEach_mono [OF _ c]) (rule lodsListEntry_mono [OF assms(1)])
  from a' b' c' show ?thesis by (simp add: expandChildren_def)
qed

lemma expandNode_mono:
  "extends cn cn' \<Longrightarrow> expandNode cn ev g nd m c r st = Some y
    \<Longrightarrow> expandNode cn' ev g nd m c r st = Some y"
  unfolding expandNode_def Let_def
  by (cases "nd_children nd") (auto intro: expandChildren_mono)

lemma createNodeBody_mono:
  assumes "extends cn cn'"
  shows "extends (createNodeBody cn ev g) (createNodeBody cn' ev g)"
  unfolding extends_def
proof (intro allI impI)
  fix st n m c r x
  assume a: "createNodeBody cn ev g st n m c r = Some x"
  show "createNodeBody cn' ev g st n m c r = Some x"
  proof (cases "cacheKey n m \<in> gp_processedNodes st")
    case True
    with a show ?thesis by (simp add: createNodeBody_def)
  next
    case False
    show ?thesis
    proof (cases "g n")
      case None
      with a False show ?thesis by (simp add: createNodeBody_def)
    next
      case (Some nd)
      with a False obtain z where e: "expandNode cn ev g nd m c r st = Some z"
        by (auto simp: createNodeBody_def split: option.splits)
      from expandNode_mono [OF assms e] a e False Some show ?thesis
        by (simp add: createNodeBody_def)
    qed
  qed
qed

lemma createNode_extends_Suc: "extends (createNode k ev g) (createNode (Suc k) ev g)"
proof (induction k)
  case 0
  show ?case by (simp add: extends_def)
next
  case (Suc k)
  from createNodeBody_mono [OF Suc] show ?case by simp
qed

lemma createNode_mono:
  "createNode k ev g st n m c r = Some x \<Longrightarrow> createNode (k + j) ev g st n m c r = Some x"
proof (induction j)
  case 0
  then show ?case by simp
next
  case (Suc j)
  then have "createNode (k + j) ev g st n m c r = Some x" by simp
  with createNode_extends_Suc [of "k + j" ev g] have "createNode (Suc (k + j)) ev g st n m c r = Some x"
    unfolding extends_def by blast
  then show ?case by simp
qed

lemma createNode_same:
  assumes "createNode k ev g st n m c r = Some x" and "createNode k' ev g st n m c r = Some y"
  shows "x = y"
proof (cases "k \<le> k'")
  case True
  then obtain j where "k' = k + j" using le_Suc_ex by blast
  with createNode_mono [OF assms(1), of j] assms(2) show ?thesis by simp
next
  case False
  then have "k' \<le> k" by simp
  then obtain j where "k = k' + j" using le_Suc_ex by blast
  with createNode_mono [OF assms(2), of j] assms(1) show ?thesis by simp
qed

subsection \<open>The node graph: cycles and ranks\<close>

lemma finite_refRel:
  assumes "finite (dom g)"
  shows "finite (refRel g)"
proof -
  have "refRel g \<subseteq> (\<Union>n \<in> dom g. {n} \<times> set (references g (the (g n))))"
    by (auto simp: refRel_def)
  moreover have "finite (\<Union>n \<in> dom g. {n} \<times> set (references g (the (g n))))"
    using assms by (intro finite_UN_I) auto
  ultimately show ?thesis by (rule finite_subset)
qed

lemma finite_reach:
  assumes "finite (dom g)"
  shows "finite {s. (n, s) \<in> (refRel g)\<^sup>+}"
proof -
  have "{s. (n, s) \<in> (refRel g)\<^sup>+} \<subseteq> Range (refRel g)"
    by (auto elim: tranclE)
  moreover have "finite (Range (refRel g))"
    using finite_refRel [OF assms] by (rule finite_Range)
  ultimately show ?thesis by (rule finite_subset)
qed

lemma acyclic_ranked:
  assumes "finite (dom g)" and "acyclicFrom g rootid"
  shows "ranked g {t. (rootid, t) \<in> (refRel g)\<^sup>*} (reachCount g)"
  unfolding ranked_def
proof (intro allI impI conjI)
  fix n nd t
  assume a: "n \<in> {t. (rootid, t) \<in> (refRel g)\<^sup>*} \<and> g n = Some nd \<and> t \<in> set (references g nd)"
  then have e: "(n, t) \<in> refRel g" by (auto simp: refRel_def)
  from a have rn: "(rootid, n) \<in> (refRel g)\<^sup>*" by simp
  from rn e have rt: "(rootid, t) \<in> (refRel g)\<^sup>*" by (rule rtrancl_into_rtrancl)
  then show "t \<in> {t. (rootid, t) \<in> (refRel g)\<^sup>*}" by simp
  from assms(2) rt have nt: "(t, t) \<notin> (refRel g)\<^sup>+" by (simp add: acyclicFrom_def)
  let ?A = "{s. (t, s) \<in> (refRel g)\<^sup>+}"
  let ?B = "{s. (n, s) \<in> (refRel g)\<^sup>+}"
  have "?A \<subseteq> ?B" using e by (auto intro: trancl_into_trancl2)
  moreover have "t \<in> ?B" using e by auto
  moreover have "t \<notin> ?A" using nt by simp
  ultimately have "?A \<subset> ?B" by blast
  then have "card ?A < card ?B"
    using finite_reach [OF assms(1)] by (rule psubset_card_mono [rotated])
  then show "reachCount g t < reachCount g n" by (simp add: reachCount_def)
qed

lemma cycle_trap: "trap g (reachesCycle g)"
  unfolding trap_def
proof (intro allI impI)
  fix n
  assume "n \<in> reachesCycle g"
  then obtain x where nx: "(n, x) \<in> (refRel g)\<^sup>*" and xx: "(x, x) \<in> (refRel g)\<^sup>+"
    by (auto simp: reachesCycle_def)
  have "(n, x) \<in> (refRel g)\<^sup>+"
  proof (cases "n = x")
    case True
    with xx show ?thesis by simp
  next
    case False
    with nx show ?thesis by (auto elim: rtranclE intro: rtrancl_into_trancl1)
  qed
  then obtain t where nt: "(n, t) \<in> refRel g" and tx: "(t, x) \<in> (refRel g)\<^sup>*"
    by (auto dest: tranclD)
  from nt obtain nd where "g n = Some nd" "t \<in> set (references g nd)"
    by (auto simp: refRel_def)
  moreover from tx xx have "t \<in> reachesCycle g" by (auto simp: reachesCycle_def)
  ultimately show "\<exists>nd t. g n = Some nd \<and> t \<in> set (references g nd) \<and> t \<in> reachesCycle g"
    by blast
qed

lemma ranked_closed:
  assumes "ranked g R rk"
  shows "(n, t) \<in> (refRel g)\<^sup>* \<Longrightarrow> n \<in> R \<Longrightarrow> t \<in> R"
proof (induction rule: rtrancl_induct)
  case base
  then show ?case by simp
next
  case (step y z)
  then have "y \<in> R" by simp
  with step(2) assms show ?case unfolding ranked_def refRel_def by blast
qed

lemma ranked_decreases:
  assumes "ranked g R rk"
  shows "(n, t) \<in> (refRel g)\<^sup>+ \<Longrightarrow> n \<in> R \<Longrightarrow> t \<in> R \<and> rk t < rk n"
proof (induction rule: trancl_induct)
  case (base y)
  with assms show ?case unfolding ranked_def refRel_def by blast
next
  case (step y z)
  then have y: "y \<in> R" "rk y < rk n" by simp_all
  from step(2) y(1) assms have "z \<in> R \<and> rk z < rk y" unfolding ranked_def refRel_def by blast
  with y show ?case by simp
qed

lemma ranked_acyclic:
  assumes "ranked g R rk" and "n \<in> R"
  shows "acyclicFrom g n"
  unfolding acyclicFrom_def
proof (intro allI impI notI)
  fix t
  assume "(n, t) \<in> (refRel g)\<^sup>*" and c: "(t, t) \<in> (refRel g)\<^sup>+"
  from ranked_closed [OF assms(1) this(1) assms(2)] have "t \<in> R" .
  from ranked_decreases [OF assms(1) c this] show False by simp
qed

subsection \<open>The node graph: calls on an acyclic graph\<close>

lemma createNode_returns:
  assumes "finite (dom g)" and "acyclicFrom g n" and "buildable ev g n"
    and "realRegistry st" and "realOpt m"
  shows "createNode (Suc (reachCount g n) + j) ev g st n m c r \<noteq> None"
proof -
  let ?R = "{t. (n, t) \<in> (refRel g)\<^sup>*}"
  have rk: "ranked g ?R (reachCount g)"
    using assms(1) assms(2) by (rule acyclic_ranked)
  have nr: "nodeReturns ev nd" if "t \<in> ?R" "g t = Some nd" for t nd
    using assms(3) that unfolding buildable_def by blast
  show ?thesis
    by (rule createNode_ranked_total [OF rk nr]) (use assms(4) assms(5) in simp_all)
qed

lemma no_references_acyclic:
  assumes "\<And>t nd. g t = Some nd \<Longrightarrow> references g nd = []"
  shows "acyclicFrom g n"
proof -
  have "refRel g = {}" using assms by (auto simp: refRel_def)
  then show ?thesis by (simp add: acyclicFrom_def)
qed

subsection \<open>The loops of \<open>createPrimitive\<close>\<close>

lemma forLoop_stops:
  assumes "forLoop cond body i acc = Some y"
  shows "\<exists>j. \<not> cond j"
proof (rule forLoop.raw_induct [where P = "\<lambda>cond body i acc y. \<exists>j. \<not> cond j", OF _ assms])
  fix f :: "(nat \<Rightarrow> bool) \<Rightarrow> (nat \<Rightarrow> 'a \<Rightarrow> 'a option) \<Rightarrow> nat \<Rightarrow> 'a \<Rightarrow> 'a option"
    and cond body i acc y
  assume "\<And>cond body i acc y. f cond body i acc = Some y \<Longrightarrow> \<exists>j. \<not> cond j"
    and "(if cond i then Option.bind (body i acc) (f cond body (increment i)) else Some acc)
           = Some y"
  then show "\<exists>j. \<not> cond j"
    by (auto simp: bind_eq_Some_conv split: if_splits)
qed

lemma forLoop_never:
  assumes "\<And>i. cond i"
  shows "forLoop cond body i acc = None"
  using forLoop_stops [of cond body i acc] assms by (cases "forLoop cond body i acc") auto

lemma polygon_unbounded:
  assumes "toValidFloat (pd_stacks pd) (Fin 3) = PInf"
  shows "polygonGeometry pd = None"
proof -
  have "polygonPositions rd PInf sl = None" for rd sl
    unfolding polygonPositions_def by (rule forLoop_never) simp
  with assms show ?thesis by (simp add: polygonGeometry_def Let_def)
qed

lemma small_polygon:
  "polygonGeometry ((plainPrimitive ''polygon'')\<lparr>pd_stacks := JNum (Fin 1),
                                                  pd_slices := JNum (Fin 2)\<rparr>) \<noteq> None"
  by (simp add: polygonGeometry_def polygonPositions_def polygonIndices_def plainPrimitive_def
        toValidFloat_def isNaN_def forLoop.simps increment_def push_def Let_def)

lemma inf_stacks: "toValidFloat (JStr ''Infinity'') d = PInf"
  by (simp add: toValidFloat_def parseFloatString_def splitSign_def isWhiteSpace_def isNaN_def
        Let_def)

lemma disc_stuck:
  "polygonGeometry ((plainPrimitive ''polygon'')\<lparr>pd_stacks := JStr ''Infinity'',
                                                  pd_slices := slices\<rparr>) = None"
  by (rule polygon_unbounded) (simp add: inf_stacks plainPrimitive_def)

lemma disc_expand:
  "expandNode cn ev g (discNode (JStr ''Infinity'') slices l) m c r st = None"
  using disc_stuck [of slices]
  by (simp add: expandNode_def expandChildren_def discNode_def plainNode_def polygonChild_def
        withNodeId_def truthyId_def handleChild_def handlePrimitive_def createPrimitive_def
        newObject_def plainPrimitive_def Let_def)

subsection \<open>The example graphs\<close>

lemma digitChar_plain: "d < 10 \<Longrightarrow> digitChar d \<noteq> CHR ''_''"
proof -
  assume "d < 10"
  then have "d \<in> {0, 1, 2, 3, 4, 5, 6, 7, 8, 9}" by auto
  then show ?thesis by (auto simp: digitChar_def)
qed

lemma showNat_plain: "CHR ''_'' \<notin> set (showNat n)"
proof (induction n rule: showNat.induct)
  case (1 n)
  show ?case
  proof (cases "n < 10")
    case True
    then show ?thesis using digitChar_plain [of n] by (simp add: showNat.simps [of n])
  next
    case False
    with 1 have "CHR ''_'' \<notin> set (showNat (n div 10))" by simp
    with False show ?thesis
      using digitChar_plain [of "n mod 10"] by (simp add: showNat.simps [of n])
  qed
qed

lemma finite_graphLookup: "finite (dom (graphLookup rootid entries))"
proof -
  have "dom (graphLookup rootid entries)
          \<subseteq> fst ` set entries \<union> {''rootid''} \<union> set objectPrototypeKeys"
    by (auto simp: graphLookup_def inherited_def dom_def map_of_eq_None_iff
          split: option.splits if_splits)
  moreover have "finite (fst ` set entries \<union> {''rootid''} \<union> set objectPrototypeKeys)" by simp
  ultimately show ?thesis by (rule finite_subset)
qed

lemma plainNode_references: "references g plainNode = []"
  by (simp add: references_def plainNode_def)

lemma plainNode_returns: "nodeReturns ev plainNode"
  by (simp add: nodeReturns_def plainNode_def truthyId_def)

lemma nodeWithList_references: "references g (nodeWithList l) = filter (\<lambda>i. i \<noteq> []) l"
  by (simp add: references_def nodeWithList_def plainNode_def)

lemma nodeWithList_returns: "nodeReturns ev (nodeWithList l)"
  by (simp add: nodeReturns_def nodeWithList_def plainNode_def truthyId_def)

lemma discNode_references: "references g (discNode st sl l) = filter (\<lambda>i. i \<noteq> []) l"
  by (simp add: references_def discNode_def plainNode_def polygonChild_def childTargets_def
        withNodeId_def)

lemma tree_nodes:
  assumes "treeGraph n = Some nd"
  shows "(n = ''root'' \<and> nd = discNode (JNum (Fin 1)) (JNum (Fin 2)) [''pair''])
       \<or> (n = ''pair'' \<and> nd = nodeWithList [''leaf'']) \<or> nd = plainNode"
  using assms by (auto simp: treeGraph_def graphLookup_def split: if_splits)

lemma tree_ranked: "ranked treeGraph UNIV treeRank"
  unfolding ranked_def
proof (intro allI impI)
  fix n nd t
  assume a: "n \<in> UNIV \<and> treeGraph n = Some nd \<and> t \<in> set (references treeGraph nd)"
  with tree_nodes [of n nd] show "t \<in> UNIV \<and> treeRank t < treeRank n"
    by (auto simp: discNode_references nodeWithList_references plainNode_references treeRank_def)
qed

lemma discNode_returns:
  assumes "polygonGeometry ((plainPrimitive ''polygon'')\<lparr>pd_stacks := stacks,
                                                          pd_slices := slices\<rparr>) \<noteq> None"
  shows "nodeReturns exampleEnv (discNode stacks slices l)"
  using assms
  by (simp add: nodeReturns_def discNode_def plainNode_def truthyId_def childReturns_def
        geometryReturns_def polygonChild_def plainPrimitive_def)

lemma tree_buildable: "buildable exampleEnv treeGraph n"
  unfolding buildable_def
proof (intro allI impI)
  fix t nd
  assume "(n, t) \<in> (refRel treeGraph)\<^sup>* \<and> treeGraph t = Some nd"
  then have "treeGraph t = Some nd" by simp
  from tree_nodes [OF this] consider
    "nd = discNode (JNum (Fin 1)) (JNum (Fin 2)) [''pair'']" | "nd = nodeWithList [''leaf'']"
    | "nd = plainNode" by blast
  then show "nodeReturns exampleEnv nd"
  proof cases
    case 1
    then show ?thesis by (simp add: discNode_returns [OF small_polygon])
  next
    case 2
    then show ?thesis by (simp add: nodeWithList_returns)
  next
    case 3
    then show ?thesis by (simp add: plainNode_returns)
  qed
qed

lemma tree_finite: "finite (dom treeGraph)"
  by (simp add: treeGraph_def finite_graphLookup)

lemma tree_acyclic: "acyclicFrom treeGraph n"
  by (rule ranked_acyclic [OF tree_ranked]) simp

lemma wfCache_empty: "wfCache emptyParser"
  by (simp add: wfCache_def cacheBelow_def cacheDistinct_def emptyParser_def)

lemma empty_untouched: "untouched B emptyParser"
  by (simp add: untouched_def emptyParser_def)

lemma example_plainUuids: "plainUuids exampleEnv emptyParser"
  by (simp add: plainUuids_def emptyParser_def exampleEnv_def plainUuid_def showNat_plain)

lemma null_plain: "plainUuid (materialUUID None)"
  by (simp add: plainUuid_def materialUUID_def)

lemma empty_real: "realRegistry emptyParser"
  by (simp add: realRegistry_def emptyParser_def)

lemma none_real: "realOpt None"
  by (simp add: realOpt_def)

lemma oak_real: "realOpt (Some oak)"
  by (simp add: realOpt_def oak_def planks_def texturedMaterial_def createThreeMaterialAsync_def)

lemma loop_cycle: "(''loop'', ''loop'') \<in> (refRel loopGraph)\<^sup>+"
proof -
  have "(''loop'', ''loop'') \<in> refRel loopGraph"
    by (simp add: refRel_def loopGraph_def graphLookup_def nodeWithList_references)
  then show ?thesis by (rule r_into_trancl)
qed

lemma planks_uuid: "mat_uuid planks = ''planks-uuid''"
  by (simp add: planks_def texturedMaterial_def createThreeMaterialAsync_def)

lemma oak_uuid: "mat_uuid oak = ''oak-uuid''"
  by (simp add: oak_def)

lemma tree_pair: "treeGraph ''pair'' = Some (nodeWithList [''leaf''])"
  and tree_leaf: "treeGraph ''leaf'' = Some plainNode"
  by (simp_all add: treeGraph_def graphLookup_def)

lemma leaf_call:
  assumes "cacheKey ''leaf'' m \<notin> gp_processedNodes st"
  shows "createNode (Suc 0) ev treeGraph st ''leaf'' m False False
     = Some (Some (leafObj (gp_nextId st) m),
             st\<lparr>gp_nextId := Suc (gp_nextId st),
                gp_processedNodes := insert (cacheKey ''leaf'' m) (gp_processedNodes st),
                gp_nodes := (gp_nodes st)(cacheKey ''leaf'' m \<mapsto> leafObj (gp_nextId st) m)\<rparr>)"
  using assms
  by (simp add: createNodeBody_def expandNode_def tree_leaf plainNode_def nodeMaterialOf_def
        truthyId_def newObject_def leafObj_def Let_def)

lemma leaf_clone: "cloneObj (leafObj i m) n = (leafObj n m, Suc n)"
  by (simp add: leafObj_def)

lemma leaf_material: "applyMaterialToNode (leafObj i m) mt c r = leafObj i m"
  by (simp add: leafObj_def)

lemma pair_children:
  assumes "cacheKey ''leaf'' m \<notin> gp_processedNodes st"
  shows "expandNode (createNode (Suc 0) ev treeGraph) ev treeGraph (nodeWithList [''leaf''])
             m False False st
           = Some (Obj (gp_nextId st) (GroupP m) newPlacement False False
                     [leafObj (gp_nextId st + 2) m],
                   st\<lparr>gp_nextId := gp_nextId st + 3,
                      gp_processedNodes := insert (cacheKey ''leaf'' m) (gp_processedNodes st),
                      gp_nodes := (gp_nodes st)(cacheKey ''leaf'' m \<mapsto>
                                     leafObj (gp_nextId st + 1) m)\<rparr>)"
proof -
  let ?s0 = "st\<lparr>gp_nextId := Suc (gp_nextId st)\<rparr>"
  have l: "createNode (Suc 0) ev treeGraph ?s0 ''leaf'' m False False
     = Some (Some (leafObj (Suc (gp_nextId st)) m),
             ?s0\<lparr>gp_nextId := Suc (Suc (gp_nextId st)),
                gp_processedNodes := insert (cacheKey ''leaf'' m) (gp_processedNodes st),
                gp_nodes := (gp_nodes st)(cacheKey ''leaf'' m \<mapsto>
                               leafObj (Suc (gp_nextId st)) m)\<rparr>)"
    using leaf_call [of m ?s0 ev] assms by simp
  have h: "handleChild (createNode (Suc 0) ev treeGraph) ev m False False
             (noderefChild ''leaf'')
             (Obj (gp_nextId st) (GroupP m) newPlacement False False [], ?s0)
           = Some (Obj (gp_nextId st) (GroupP m) newPlacement False False
                     [leafObj (gp_nextId st + 2) m],
                   st\<lparr>gp_nextId := gp_nextId st + 3,
                      gp_processedNodes := insert (cacheKey ''leaf'' m) (gp_processedNodes st),
                      gp_nodes := (gp_nodes st)(cacheKey ''leaf'' m \<mapsto>
                                     leafObj (gp_nextId st + 1) m)\<rparr>)"
    using l
    by (cases m) (simp_all add: handleChild_def handleNoderef_def noderefChild_def truthyId_def
          addChild_def leaf_clone leaf_material del: createNode.simps)
  show ?thesis
    using h
    by (simp add: expandNode_def expandChildren_def nodeWithList_def plainNode_def
          nodeMaterialOf_def truthyId_def newObject_def Let_def del: createNode.simps)
qed

lemma pair_call:
  assumes "cacheKey ''pair'' m \<notin> gp_processedNodes st"
    and "cacheKey ''leaf'' m \<notin> gp_processedNodes st"
  shows "createNode (Suc (Suc 0)) ev treeGraph st ''pair'' m False False
     = Some (Some (Obj (gp_nextId st) (GroupP m) newPlacement False False
                     [leafObj (gp_nextId st + 2) m]),
             st\<lparr>gp_nextId := gp_nextId st + 3,
                gp_processedNodes :=
                  insert (cacheKey ''pair'' m) (insert (cacheKey ''leaf'' m) (gp_processedNodes st)),
                gp_nodes := (gp_nodes st)
                  (cacheKey ''leaf'' m \<mapsto> leafObj (gp_nextId st + 1) m,
                   cacheKey ''pair'' m \<mapsto> Obj (gp_nextId st) (GroupP m) newPlacement False False
                     [leafObj (gp_nextId st + 2) m])\<rparr>)"
proof -
  have "createNodeBody (createNode (Suc 0) ev treeGraph) ev treeGraph st ''pair'' m False False
      = Some (Some (Obj (gp_nextId st) (GroupP m) newPlacement False False
                     [leafObj (gp_nextId st + 2) m]),
             st\<lparr>gp_nextId := gp_nextId st + 3,
                gp_processedNodes :=
                  insert (cacheKey ''pair'' m) (insert (cacheKey ''leaf'' m) (gp_processedNodes st)),
                gp_nodes := (gp_nodes st)
                  (cacheKey ''leaf'' m \<mapsto> leafObj (gp_nextId st + 1) m,
                   cacheKey ''pair'' m \<mapsto> Obj (gp_nextId st) (GroupP m) newPlacement False False
                     [leafObj (gp_nextId st + 2) m])\<rparr>)"
    using pair_children [OF assms(2), of ev] assms(1) tree_pair
    by (simp add: createNodeBody_def del: createNode.simps)
  then show ?thesis by simp
qed

lemma pair_first:
  "createNode (Suc (Suc 0)) exampleEnv treeGraph emptyParser ''pair'' None False False
     = Some (Some pairObj, pairState)"
  using pair_call [of None emptyParser exampleEnv]
  by (simp add: cacheKey_def materialUUID_def emptyParser_def pairObj_def pairState_def
        eval_nat_numeral del: createNode.simps)

lemma pair_second:
  "createNode (Suc (Suc 0)) exampleEnv treeGraph pairState ''pair'' (Some planks) False False
     = Some (Some pairObj2, pairState2)"
  using pair_call [of "Some planks" pairState exampleEnv]
  by (simp add: cacheKey_def materialUUID_def emptyParser_def pairObj2_def pairState_def
        pairState2_def planks_uuid eval_nat_numeral del: createNode.simps)

lemma pair_third:
  "createNode (Suc (Suc 0)) exampleEnv treeGraph pairState2 ''pair'' (Some oak) False False
     = Some (Some pairObj3, pairState3)"
  using pair_call [of "Some oak" pairState2 exampleEnv]
  by (simp add: cacheKey_def materialUUID_def emptyParser_def pairObj3_def pairState2_def
        pairState3_def oak_uuid del: createNode.simps)

lemma leaf_oak:
  "createNode (Suc 0) exampleEnv treeGraph pairState2 ''leaf'' (Some oak) False False
     = Some (Some (leafObj 6 (Some oak)), leafState)"
  using leaf_call [of "Some oak" pairState2 exampleEnv]
  by (simp add: cacheKey_def materialUUID_def emptyParser_def leafState_def pairState2_def
        oak_uuid eval_nat_numeral del: createNode.simps)

lemma pair_expand:
  "expandNode (createNode (Suc 0) exampleEnv treeGraph) exampleEnv treeGraph
     (nodeWithList [''leaf'']) None False False emptyParser = Some (pairObj, pairExpanded)"
  using pair_children [of None emptyParser exampleEnv]
  by (simp add: cacheKey_def materialUUID_def emptyParser_def pairObj_def pairExpanded_def
        eval_nat_numeral del: createNode.simps)

lemma member_expand:
  assumes "gp_materials st = []"
  shows "expandNode cn ev g ((discNode (JNum (Fin 1)) (JNum (Fin 2)) l)
                               \<lparr>nd_materialref := Some ''constructor''\<rparr>) m c r st = None"
proof -
  from small_polygon obtain geom where
    "polygonGeometry ((plainPrimitive ''polygon'')\<lparr>pd_stacks := JNum (Fin 1),
                                                    pd_slices := JNum (Fin 2)\<rparr>) = Some geom"
    by auto
  then show ?thesis
    using assms
    by (simp add: expandNode_def expandChildren_def discNode_def plainNode_def polygonChild_def
        withNodeId_def truthyId_def handleChild_def handlePrimitive_def createPrimitive_def
        newObject_def plainPrimitive_def Let_def nodeMaterialOf_def registryLookup_def
        inherited_def objectPrototypeKeys_def inheritedMember_def)
qed

lemma disc_never: "createNode k ev discGraph emptyParser ''scene'' None c r = None"
proof (cases k)
  case 0
  then show ?thesis by simp
next
  case (Suc j)
  have "discGraph ''scene'' = Some (discNode (JStr ''Infinity'') (JNum (Fin (- 1))) [])"
    by (simp add: discGraph_def graphLookup_def)
  with Suc show ?thesis by (simp add: createNodeBody_def disc_expand emptyParser_def)
qed

lemma member_never: "createNode k ev memberGraph emptyParser ''scene'' None c r = None"
proof (cases k)
  case 0
  then show ?thesis by simp
next
  case (Suc j)
  have g: "memberGraph ''scene''
      = Some ((discNode (JNum (Fin 1)) (JNum (Fin 2)) [])\<lparr>nd_materialref := Some ''constructor''\<rparr>)"
    by (simp add: memberGraph_def graphLookup_def)
  have k: "cacheKey ''scene'' None \<notin> gp_processedNodes emptyParser"
    by (simp add: emptyParser_def)
  have m: "gp_materials emptyParser = []" by (simp add: emptyParser_def)
  from Suc g k show ?thesis by (simp add: createNodeBody_def member_expand [OF m])
qed

lemma disc_acyclic: "acyclicFrom discGraph n"
proof (rule no_references_acyclic)
  fix t nd
  assume "discGraph t = Some nd"
  then show "references discGraph nd = []"
    by (auto simp: discGraph_def graphLookup_def discNode_references plainNode_references
          split: if_splits)
qed

lemma member_acyclic: "acyclicFrom memberGraph n"
proof (rule no_references_acyclic)
  fix t nd
  have r: "references g (x\<lparr>nd_materialref := y\<rparr>) = references g x" for g x y
    by (simp add: references_def)
  assume "memberGraph t = Some nd"
  then show "references memberGraph nd = []"
    by (auto simp: memberGraph_def graphLookup_def r discNode_references plainNode_references
          split: if_splits)
qed

subsection \<open>The node graph: memoization\<close>

lemma cacheKey_same_node: "cacheKey n m = cacheKey n m' \<longleftrightarrow> materialUUID m = materialUUID m'"
  by (simp add: cacheKey_def)

lemma createNode_cached:
  assumes "cacheKey n m \<in> gp_processedNodes st"
  shows "createNode (Suc j) ev g st n m c r = Some (gp_nodes st (cacheKey n m), st)"
  using assms by (simp add: createNodeBody_def)

lemma createNode_result_cached:
  assumes "createNode k ev g st n m c r = Some (Some grp, st')"
  shows "gp_nodes st' (cacheKey n m) = Some grp \<and> cacheKey n m \<in> gp_processedNodes st'"
  using createNode_ok [of k ev g] assms unfolding cnOK_def by blast

lemma createNode_step:
  assumes "createNode k ev g st n m c r = Some (res, st')"
  shows "step st st'"
  using createNode_ok [of k ev g] assms unfolding cnOK_def by blast

lemma repeat_returns_cached:
  assumes "createNode k ev g st n m c r = Some (Some grp, st1)" and "cacheGrows st1 st2"
  shows "createNode (Suc j) ev g st2 n m c' r' = Some (Some grp, st2)"
proof -
  from createNode_result_cached [OF assms(1)] assms(2)
  have "gp_nodes st2 (cacheKey n m) = Some grp" "cacheKey n m \<in> gp_processedNodes st2"
    by (auto simp: cacheGrows_def)
  then show ?thesis
    using createNode_cached [of n m st2 j ev g c' r'] by simp
qed

lemma other_material_distinct:
  assumes first: "createNode k ev g st n m c r = Some (Some grp, st1)"
    and w: "wfCache st" and ne: "materialUUID m' \<noteq> materialUUID m"
    and second: "createNode i ev g st1 n m' c2 r2 = Some (Some grp', st2)"
  shows "oid grp' \<noteq> oid grp"
    and "cacheKey n m' \<notin> gp_processedNodes st1 \<Longrightarrow>
           oid grp' = gp_nextId st1 \<and> gp_nextId st1 < gp_nextId st2"
proof -
  from createNode_result_cached [OF first]
  have c1: "gp_nodes st1 (cacheKey n m) = Some grp" by simp
  from ne have kne: "cacheKey n m' \<noteq> cacheKey n m" by (simp add: cacheKey_same_node)
  from createNode_step [OF first] w have w1: "wfCache st1" by (simp add: step_def)
  from createNode_step [OF second] have g2: "cacheGrows st1 st2" by (simp add: step_def)
  from createNode_result_cached [OF second]
  have c2: "gp_nodes st2 (cacheKey n m') = Some grp'" by simp
  from w1 c1 have lt: "oid grp < gp_nextId st1" by (auto simp: wfCache_def cacheBelow_def)
  from g2 c2 consider (old) "gp_nodes st1 (cacheKey n m') = Some grp'"
    | (new) "gp_nextId st1 \<le> oid grp'" "oid grp' < gp_nextId st2"
    unfolding cacheGrows_def by blast
  then show "oid grp' \<noteq> oid grp"
  proof cases
    case old
    with w1 c1 kne show ?thesis unfolding wfCache_def cacheDistinct_def by blast
  next
    case new
    with lt show ?thesis by simp
  qed
  show "oid grp' = gp_nextId st1 \<and> gp_nextId st1 < gp_nextId st2"
    if np: "cacheKey n m' \<notin> gp_processedNodes st1"
  proof (cases i)
    case 0
    with second show ?thesis by simp
  next
    case (Suc i')
    with second have b: "createNodeBody (createNode i' ev g) ev g st1 n m' c2 r2 = Some (Some grp', st2)"
      by simp
    from b show ?thesis
    proof (cases rule: createNodeBody_result)
      case hit
      with np show ?thesis by simp
    next
      case missing
      then show ?thesis by simp
    next
      case (built nd grp0 stc)
      from expandNode_stepG [OF createNode_ok built(4)] built(3)
      have "oid grp' = gp_nextId st1" "Suc (gp_nextId st1) \<le> gp_nextId stc"
        by (simp_all add: step_def cacheGrows_def)
      with built(5) show ?thesis by simp
    qed
  qed
qed

lemma oids_applyMaterial: "oids (applyMaterialToNode x mt pc pr) = oids x"
proof (induction x mt pc pr rule: applyMaterialToNode.induct)
  case (1 i p pl c r ch material parentCastShadow parentReceiveShadow)
  then show ?case by (cases p) auto
qed

lemma oid_applyMaterial: "oid (applyMaterialToNode x mt pc pr) = oid x"
  by (cases x) (simp split: payload.splits)

lemma oid_in_oids: "oid x \<in> oids x"
  by (cases x) simp

lemma noderef_attaches_clone:
  assumes ref: "createNode k ev g st n m c r = Some (Some grp, st1)"
    and w: "wfCache st" and ty: "cd_type cd = ''noderef''" and id: "cd_nodeId cd = Some n"
    and ne: "n \<noteq> []"
  shows "handleChild (createNode k ev g) ev m c r cd (parent, st)
           = Some (addChild parent (attachedClone grp (gp_nextId st1) m c r),
                   st1\<lparr>gp_nextId := snd (cloneObj grp (gp_nextId st1))\<rparr>)"
    and "oids (attachedClone grp (gp_nextId st1) m c r)
           \<subseteq> {gp_nextId st1 ..< snd (cloneObj grp (gp_nextId st1))}"
    and "oid (attachedClone grp (gp_nextId st1) m c r) \<noteq> oid grp"
    and "gp_nodes st1 key = Some ob \<Longrightarrow> oid ob \<notin> oids (attachedClone grp (gp_nextId st1) m c r)"
proof -
  obtain cl0 n' where cl: "cloneObj grp (gp_nextId st1) = (cl0, n')"
    by (cases "cloneObj grp (gp_nextId st1)")
  let ?cl = "attachedClone grp (gp_nextId st1) m c r"
  from clone_props(1) [OF cl] cl show o: "oids ?cl \<subseteq> {gp_nextId st1 ..< snd (cloneObj grp (gp_nextId st1))}"
    by (cases m) (simp_all add: attachedClone_def oids_applyMaterial)
  from createNode_step [OF ref] w have w1: "wfCache st1" by (simp add: step_def)
  then have below: "\<And>key ob. gp_nodes st1 key = Some ob \<Longrightarrow> oid ob < gp_nextId st1"
    by (auto simp: wfCache_def cacheBelow_def)
  from createNode_result_cached [OF ref] have "gp_nodes st1 (cacheKey n m) = Some grp" by simp
  from below [OF this] o oid_in_oids [of ?cl] show "oid ?cl \<noteq> oid grp" by auto
  show "handleChild (createNode k ev g) ev m c r cd (parent, st)
             = Some (addChild parent ?cl, st1\<lparr>gp_nextId := snd (cloneObj grp (gp_nextId st1))\<rparr>)"
    using ref ty id ne cl
    by (cases m) (simp_all add: handleChild_def handleNoderef_def truthyId_def attachedClone_def)
  show "oid ob \<notin> oids ?cl" if "gp_nodes st1 key = Some ob"
    using below [OF that] o by auto
qed

lemma lod_attaches_cached:
  assumes ref: "createNode k ev g st n m c r = Some (Some grp, st1)" and ne: "n \<noteq> []"
  shows "lodLevel (createNode k ev g) m c r \<lparr>le_nodeId = Some n, le_mindist = JNum d\<rparr> (lod, st)
           = Some (addLevel lod grp d, st1)
       \<and> ochildren (addLevel lod grp d) = ochildren lod @ [grp]
       \<and> gp_nodes st1 (cacheKey n m) = Some grp"
  using ref ne createNode_result_cached [OF ref]
  by (simp add: lodLevel_def validLodEntry_def truthyId_def isNumber_def addLevel_def)

lemma upt_cons: "m = Suc n + k \<Longrightarrow> n # [Suc n ..< m] = [n ..< m]"
  by (simp add: upt_conv_Cons)



lemma clone_copies:
  "eraseIds (fst (cloneObj x n)) = eraseIds x
   \<and> objIds (fst (cloneObj x n)) = [n ..< snd (cloneObj x n)]
   \<and> snd (cloneObj x n) = n + length (objIds x)"
  "map eraseIds (fst (cloneList xs n)) = map eraseIds xs
   \<and> concat (map objIds (fst (cloneList xs n))) = [n ..< snd (cloneList xs n)]
   \<and> snd (cloneList xs n) = n + length (concat (map objIds xs))"
proof (induction x n and xs n rule: cloneObj_cloneList.induct)
  case (1 i p pl c r ch n)
  obtain ch' m where c: "cloneList ch (Suc n) = (ch', m)" by (cases "cloneList ch (Suc n)")
  with 1 have h: "map eraseIds ch' = map eraseIds ch" "concat (map objIds ch') = [Suc n ..< m]"
    "m = Suc n + length (concat (map objIds ch))" by simp_all
  from h(3) have "n # [Suc n ..< m] = [n ..< m]" by (rule upt_cons)
  with c h(1,2) have "eraseIds (fst (cloneObj (Obj i p pl c r ch) n)) = eraseIds (Obj i p pl c r ch)"
    "objIds (fst (cloneObj (Obj i p pl c r ch) n)) = [n ..< snd (cloneObj (Obj i p pl c r ch) n)]"
    by simp_all
  moreover from c h(3) have "snd (cloneObj (Obj i p pl c r ch) n)
      = n + length (objIds (Obj i p pl c r ch))" by simp
  ultimately show ?case by blast
next
  case (2 n)
  show ?case by simp
next
  case (3 x xs n)
  obtain y n1 where a: "cloneObj x n = (y, n1)" by (cases "cloneObj x n")
  obtain ys n2 where b: "cloneList xs n1 = (ys, n2)" by (cases "cloneList xs n1")
  from 3(1) a have ha: "eraseIds y = eraseIds x" "objIds y = [n ..< n1]"
    "n1 = n + length (objIds x)" by simp_all
  from 3(2) [OF a [symmetric]] b have hb: "map eraseIds ys = map eraseIds xs"
    "concat (map objIds ys) = [n1 ..< n2]" "n2 = n1 + length (concat (map objIds xs))"
    by simp_all
  have "[n ..< n1] @ [n1 ..< n2] = [n ..< n2]"
    using ha(3) hb(3) by (metis le_add1 upt_add_eq_append)
  with a b ha hb show ?case by (simp del: upt_Suc)
qed

lemma applyMaterial_copies:
  "eraseIds (applyMaterialToNode x mt pc pr) = applyMaterialToNode (eraseIds x) mt pc pr
   \<and> objIds (applyMaterialToNode x mt pc pr) = objIds x"
proof (induction x mt pc pr rule: applyMaterialToNode.induct)
  case (1 i p pl c r ch material parentCastShadow parentReceiveShadow)
  have "x \<in> set ch \<Longrightarrow>
      eraseIds (applyMaterialToNode x material parentCastShadow parentReceiveShadow)
        = applyMaterialToNode (eraseIds x) material parentCastShadow parentReceiveShadow
      \<and> objIds (applyMaterialToNode x material parentCastShadow parentReceiveShadow)
        = objIds x" for x
    using 1 by (cases p) auto
  then have e: "map (\<lambda>x. eraseIds (applyMaterialToNode x material parentCastShadow
                  parentReceiveShadow)) ch
      = map (\<lambda>x. applyMaterialToNode (eraseIds x) material parentCastShadow
                  parentReceiveShadow) ch"
    and o: "map (\<lambda>x. objIds (applyMaterialToNode x material parentCastShadow
                  parentReceiveShadow)) ch = map objIds ch"
    by simp_all
  show ?case by (cases p) (simp_all add: comp_def e o)
qed

lemma attachedClone_erase:
  "eraseIds (attachedClone grp n m c r)
     = eraseIds (case m of None \<Rightarrow> grp | Some mt \<Rightarrow> applyMaterialToNode grp mt c r)"
  using clone_copies(1) [of grp n]
  by (cases m) (simp_all add: attachedClone_def applyMaterial_copies)

lemma attachedClone_ids:
  "objIds (attachedClone grp n m c r) = [n ..< n + length (objIds grp)]"
  using clone_copies(1) [of grp n]
  by (cases m) (simp_all add: attachedClone_def applyMaterial_copies)

lemma cloneObj_next: "snd (cloneObj grp n) = n + length (objIds grp)"
  using clone_copies(1) [of grp n] by simp

lemma addChild_last: "ochildren (addChild g x) = ochildren g @ [x] \<and> oid (addChild g x) = oid g"
  by (simp add: addChild_def)

lemma other_material_builds:
  assumes first: "createNode k ev g st n m c r = Some (Some grp, st1)"
    and w: "wfCache st" and np: "cacheKey n m' \<notin> gp_processedNodes st1" and gn: "g n \<noteq> None"
    and fin: "finite (dom g)" and ac: "acyclicFrom g n" and bu: "buildable ev g n"
    and rr: "realRegistry st1" and rm: "realOpt m'"
  shows "\<exists>grp' st3. createNode (Suc (reachCount g n) + i) ev g st1 n m' c3 r3
              = Some (Some grp', st3)
           \<and> oid grp' = gp_nextId st1 \<and> gp_nextId st1 < gp_nextId st3
           \<and> oid grp' \<noteq> oid grp \<and> gp_nodes st3 (cacheKey n m') = Some grp'"
proof -
  let ?k = "reachCount g n + i"
  from createNode_returns [OF fin ac bu rr rm, of i c3 r3] obtain res st3 where
    b: "createNodeBody (createNode ?k ev g) ev g st1 n m' c3 r3 = Some (res, st3)"
    by auto
  from b obtain grp' where res: "res = Some grp'"
    using np gn by (cases rule: createNodeBody_result) auto
  from b res have second: "createNode (Suc (reachCount g n) + i) ev g st1 n m' c3 r3
      = Some (Some grp', st3)" by simp
  from createNode_result_cached [OF first] np have ne: "materialUUID m' \<noteq> materialUUID m"
    by (auto simp: cacheKey_def)
  from other_material_distinct(1) [OF first w ne second]
    other_material_distinct(2) [OF first w ne second np]
    createNode_result_cached [OF second] second
  show ?thesis by blast
qed



subsection \<open>The node graph: termination\<close>




end
